theory Spec2Isabelle
  imports Complex_Main
begin

section \<open>Strings and the regular expressions of the downloader\<close>

text \<open>
  A Python \<open>str\<close> is modelled as a \<open>string\<close>, one \<open>char\<close> per code point; the type \<open>char\<close> has
  the code points U+0000 to U+00FF. The patterns of the source are \<open>str\<close> patterns without
  \<open>re.ASCII\<close>, so their \<open>\w\<close> is the Unicode class: a letter, a digit or another numeric
  character, or the underscore. \<open>word_char\<close> is that class on the code points of \<open>char\<close>:
  \<open>[A-Za-z0-9_]\<close>, and above U+007F the characters U+00AA, U+00B2, U+00B3, U+00B5, U+00B9,
  U+00BA, U+00BC to U+00BE, U+00C0 to U+00D6, U+00D8 to U+00F6 and U+00F8 to U+00FF.
\<close>

fun strip_prefix :: "string \<Rightarrow> string \<Rightarrow> string option" where
  "strip_prefix [] s = Some s"
| "strip_prefix (c # cs) [] = None"
| "strip_prefix (c # cs) (d # ds) = (if c = d then strip_prefix cs ds else None)"

text \<open>\<open>needle in hay\<close> on two strings: some suffix of \<open>hay\<close> starts with \<open>needle\<close>.\<close>

fun is_substr :: "string \<Rightarrow> string \<Rightarrow> bool" where
  "is_substr needle [] = (needle = [])"
| "is_substr needle (c # cs) =
     (if strip_prefix needle (c # cs) = None then is_substr needle cs else True)"

definition word_char :: "char \<Rightarrow> bool" where
  "word_char c =
     (let n = (of_char c :: nat)
      in (48 \<le> n \<and> n \<le> 57) \<or> (65 \<le> n \<and> n \<le> 90) \<or> (97 \<le> n \<and> n \<le> 122) \<or> n = 95
         \<or> n = 170 \<or> n = 178 \<or> n = 179 \<or> n = 181 \<or> n = 185 \<or> n = 186
         \<or> (188 \<le> n \<and> n \<le> 190) \<or> (192 \<le> n \<and> n \<le> 214)
         \<or> (216 \<le> n \<and> n \<le> 246) \<or> (248 \<le> n \<and> n \<le> 255))"

text \<open>\<open>[\w-]\<close>, the class of the captured group, and \<open>[\w.]\<close>, the class of the username.\<close>

definition id_char :: "char \<Rightarrow> bool" where
  "id_char c = (word_char c \<or> c = CHR ''-'')"

definition user_char :: "char \<Rightarrow> bool" where
  "user_char c = (word_char c \<or> c = CHR ''.'')"

text \<open>
  The fragment of regular expressions the source uses, as a sequence of items: a literal,
  a non-capturing group of literal alternatives \<open>(?:a|b|c)\<close>, a greedy \<open>[class]+\<close>, the lazy
  \<open>.*?\<close> under \<open>re.DOTALL\<close>, and the parentheses of capturing group 1.
\<close>

datatype rx_item =
    Lit string
  | Alt "string list"
  | Plus "char \<Rightarrow> bool"
  | LazyAny
  | GroupOpen
  | GroupClose

fun first_some :: "'a option list \<Rightarrow> 'a option" where
  "first_some [] = None"
| "first_some (None # xs) = first_some xs"
| "first_some (Some x # xs) = Some x"

text \<open>
  The backtracking matcher, anchored at the start of the text. The flag says whether the
  matcher is inside group 1; the result is the text of group 1 and the text left after the
  match. Alternatives are tried left to right, \<open>+\<close> from the longest run down to one
  character, \<open>.*?\<close> from no character up, and the first attempt whose continuation matches wins.
\<close>

fun match_here :: "rx_item list \<Rightarrow> string \<Rightarrow> bool \<Rightarrow> (string \<times> string) option" where
  "match_here [] s ing = Some ([], s)"
| "match_here (Lit l # r) s ing =
     (case strip_prefix l s of
        None \<Rightarrow> None
      | Some s' \<Rightarrow> map_option (\<lambda>(g, rest). (if ing then l @ g else g, rest)) (match_here r s' ing))"
| "match_here (Alt ls # r) s ing =
     first_some (map (\<lambda>l.
        case strip_prefix l s of
          None \<Rightarrow> None
        | Some s' \<Rightarrow> map_option (\<lambda>(g, rest). (if ing then l @ g else g, rest)) (match_here r s' ing)) ls)"
| "match_here (Plus P # r) s ing =
     first_some (map (\<lambda>k.
        map_option (\<lambda>(g, rest). (if ing then take k s @ g else g, rest)) (match_here r (drop k s) ing))
        (rev [1 ..< Suc (length (takeWhile P s))]))"
| "match_here (LazyAny # r) s ing =
     first_some (map (\<lambda>k.
        map_option (\<lambda>(g, rest). (if ing then take k s @ g else g, rest)) (match_here r (drop k s) ing))
        [0 ..< Suc (length s)])"
| "match_here (GroupOpen # r) s ing = match_here r s True"
| "match_here (GroupClose # r) s ing = match_here r s False"

text \<open>\<open>re.search\<close>: the match at the leftmost start position that has one.\<close>

definition re_search :: "rx_item list \<Rightarrow> string \<Rightarrow> (string \<times> string) option" where
  "re_search rx s = first_some (map (\<lambda>i. match_here rx (drop i s) False) [0 ..< Suc (length s)])"

text \<open>
  \<open>re.findall\<close> with one group: the group of every match, scanning on from the end of
  the previous match. The pattern it is used with never matches the empty string.
\<close>

function re_findall :: "rx_item list \<Rightarrow> string \<Rightarrow> string list" where
  "re_findall rx s =
     (case re_search rx s of
        None \<Rightarrow> []
      | Some (g, rest) \<Rightarrow> if length rest < length s then g # re_findall rx rest else [g])"
  by pat_completeness auto
termination
  by (relation "measure (\<lambda>(rx, s). length s)") auto

subsection \<open>The identifier extractor\<close>

text \<open>
  \<^verbatim>\<open>r'instagram\.com/(?:p|reel|tv|reels)/([\w-]+)'\<close> and
  \<^verbatim>\<open>r'instagram\.com/[\w.]+/(?:p|reel)/([\w-]+)'\<close>
\<close>

definition patterns :: "rx_item list list" where
  "patterns =
     [ [Lit ''instagram.com/'', Alt [''p'', ''reel'', ''tv'', ''reels''], Lit ''/'',
        GroupOpen, Plus id_char, GroupClose],
       [Lit ''instagram.com/'', Plus user_char, Lit ''/'', Alt [''p'', ''reel''], Lit ''/'',
        GroupOpen, Plus id_char, GroupClose] ]"

text \<open>The loop \<open>for pattern in patterns\<close>, returning group 1 of the first pattern that matches.\<close>

fun first_group :: "rx_item list list \<Rightarrow> string \<Rightarrow> string option" where
  "first_group [] url = None"
| "first_group (pattern # ps) url =
     (case re_search pattern url of
        Some (g, rest) \<Rightarrow> Some g
      | None \<Rightarrow> first_group ps url)"

definition extract_instagram_shortcode :: "string \<Rightarrow> string option" where
  "extract_instagram_shortcode url = first_group patterns url"

section \<open>Python values and exceptions\<close>

text \<open>
  The values that flow through the handler and the strategies are the ones \<open>json\<close> produces
  (\<open>None\<close>, booleans, numbers, strings, lists, dictionaries with string keys); the result
  dictionaries of the strategies are values of the same kind. A dictionary is an association
  list read with \<open>map_of\<close>. A float is abstracted to the real number it denotes.
\<close>

datatype json =
    JNull
  | JBool bool
  | JInt int
  | JFloat real
  | JStr string
  | JArr "json list"
  | JObj "(string \<times> json) list"

text \<open>
  The instances of \<open>Exception\<close> the code can meet. \<open>except Exception\<close> catches all of them,
  \<open>except json.JSONDecodeError\<close> and \<open>except yt_dlp.utils.DownloadError\<close> one class each.
  The string is the message of an exception raised by a collaborator.
\<close>

datatype exn =
    KeyError
  | TypeError
  | IndexError
  | AttributeError
  | JSONDecodeError
  | DownloadError string
  | OSError string
  | OtherError string

text \<open>Truthiness, as \<open>if x:\<close>, \<open>x and y\<close> and \<open>x or y\<close> test it.\<close>

fun py_truthy :: "json \<Rightarrow> bool" where
  "py_truthy JNull = False"
| "py_truthy (JBool b) = b"
| "py_truthy (JInt i) = (i \<noteq> 0)"
| "py_truthy (JFloat r) = (r \<noteq> 0)"
| "py_truthy (JStr s) = (s \<noteq> [])"
| "py_truthy (JArr xs) = (xs \<noteq> [])"
| "py_truthy (JObj kvs) = (kvs \<noteq> [])"

text \<open>\<open>key in x\<close> for a string key: dictionary key, list element, substring; else \<open>TypeError\<close>.\<close>

fun py_in :: "string \<Rightarrow> json \<Rightarrow> exn + bool" where
  "py_in k (JObj kvs) = Inr (k \<in> set (map fst kvs))"
| "py_in k (JArr xs) = Inr (JStr k \<in> set xs)"
| "py_in k (JStr s) = Inr (is_substr k s)"
| "py_in k _ = Inl TypeError"

text \<open>\<open>x[key]\<close> for a string key.\<close>

fun py_getitem :: "json \<Rightarrow> string \<Rightarrow> exn + json" where
  "py_getitem (JObj kvs) k = (case map_of kvs k of Some v \<Rightarrow> Inr v | None \<Rightarrow> Inl KeyError)"
| "py_getitem _ k = Inl TypeError"

text \<open>\<open>x[0]\<close>. The keys of a parsed dictionary are strings, so \<open>0\<close> is never one of them.\<close>

fun py_getitem0 :: "json \<Rightarrow> exn + json" where
  "py_getitem0 (JArr []) = Inl IndexError"
| "py_getitem0 (JArr (v # vs)) = Inr v"
| "py_getitem0 (JStr []) = Inl IndexError"
| "py_getitem0 (JStr (c # cs)) = Inr (JStr [c])"
| "py_getitem0 (JObj kvs) = Inl KeyError"
| "py_getitem0 _ = Inl TypeError"

fun py_len :: "json \<Rightarrow> exn + nat" where
  "py_len (JArr xs) = Inr (length xs)"
| "py_len (JStr s) = Inr (length s)"
| "py_len (JObj kvs) = Inr (length (remdups (map fst kvs)))"
| "py_len _ = Inl TypeError"

text \<open>\<open>x.get(key, default)\<close>: only a dictionary has the method.\<close>

fun py_get :: "json \<Rightarrow> string \<Rightarrow> json \<Rightarrow> exn + json" where
  "py_get (JObj kvs) k d = (case map_of kvs k of Some v \<Rightarrow> Inr v | None \<Rightarrow> Inr d)"
| "py_get _ k d = Inl AttributeError"

fun is_dict :: "json \<Rightarrow> bool" where
  "is_dict (JObj kvs) = True"
| "is_dict _ = False"

text \<open>Sequencing of pure steps that may raise.\<close>

definition ebind :: "exn + 'a \<Rightarrow> ('a \<Rightarrow> exn + 'b) \<Rightarrow> exn + 'b" where
  "ebind m f = (case m of Inl e \<Rightarrow> Inl e | Inr a \<Rightarrow> f a)"

text \<open>\<open>os.path.join\<close> of two components (POSIX): an absolute second component replaces the first.\<close>

definition path_join :: "string \<Rightarrow> string \<Rightarrow> string" where
  "path_join a b =
     (if b \<noteq> [] \<and> hd b = CHR ''/'' then b
      else if a = [] \<or> last a = CHR ''/'' then a @ b
      else a @ ''/'' @ b)"

section \<open>The world the handler runs in\<close>

text \<open>
  The file system maps each existing path to a regular file with its content or to a
  directory with its reported size. The log is the list of records the module's logger has
  emitted. \<open>ext\<close> is the state of everything else (the network, the extraction engine, the
  random generator), of any type.
\<close>

datatype node = File string | Dir nat

datatype log_level = INFO | WARNING | ERROR

record 'x world =
  fs :: "string \<rightharpoonup> node"
  logs :: "(log_level \<times> string) list"
  ext :: 'x

text \<open>The response of \<open>requests.get\<close>, with what the code reads from it.\<close>

record http_response =
  status_code :: int
  json_result :: "exn + json"
  text_body :: string
  chunks :: "string list"
  chunks_error :: "exn option"

text \<open>
  The collaborators, as functions of the external state: \<open>random.choice\<close> (the index it
  draws), \<open>YoutubeDL(opts).extract_info(url, download=True)\<close> (which also writes files),
  \<open>requests.get(url, headers, stream, timeout)\<close>, \<open>json.loads\<close>, the faults of \<open>open(path, 'wb')\<close>
  and of \<open>f.write(chunk)\<close>, \<open>str\<close> of an exception and of a value that is not a string, and
  the download directory, which is fixed when the module is loaded.
\<close>

record 'x env =
  download_dir :: string
  random_index :: "'x \<Rightarrow> nat \<times> 'x"
  ydl_extract_info ::
    "json \<Rightarrow> string \<Rightarrow> (string \<rightharpoonup> node) \<times> 'x \<Rightarrow> (exn + json) \<times> (string \<rightharpoonup> node) \<times> 'x"
  requests_get ::
    "json \<Rightarrow> (string \<times> string) list \<Rightarrow> bool \<Rightarrow> nat \<Rightarrow> 'x \<Rightarrow> (exn + http_response) \<times> 'x"
  json_loads :: "string \<Rightarrow> exn + json"
  open_fault :: "string \<Rightarrow> 'x \<Rightarrow> exn option \<times> 'x"
  write_fault :: "string \<Rightarrow> string \<Rightarrow> 'x \<Rightarrow> exn option \<times> 'x"
  exn_str :: "exn \<Rightarrow> string"
  value_str :: "json \<Rightarrow> string"

text \<open>A step of the program: it reads and changes the world and returns a value or raises.\<close>

type_synonym ('a, 'x) io = "'x world \<Rightarrow> (exn + 'a) \<times> 'x world"

definition ret :: "'a \<Rightarrow> ('a, 'x) io" where
  "ret a = (\<lambda>w. (Inr a, w))"

definition bind :: "('a, 'x) io \<Rightarrow> ('a \<Rightarrow> ('b, 'x) io) \<Rightarrow> ('b, 'x) io" where
  "bind m f = (\<lambda>w. case m w of (Inl e, w') \<Rightarrow> (Inl e, w') | (Inr a, w') \<Rightarrow> f a w')"

definition lift :: "exn + 'a \<Rightarrow> ('a, 'x) io" where
  "lift r = (\<lambda>w. (r, w))"

definition logger :: "log_level \<Rightarrow> string \<Rightarrow> (unit, 'x) io" where
  "logger lvl msg = (\<lambda>w. (Inr (), w\<lparr>logs := logs w @ [(lvl, msg)]\<rparr>))"

text \<open>\<open>str(v)\<close>, as an f-string formats a value.\<close>

definition py_str :: "'x env \<Rightarrow> json \<Rightarrow> string" where
  "py_str E v = (case v of JStr s \<Rightarrow> s | _ \<Rightarrow> value_str E v)"

definition USER_AGENTS :: "string list" where
  "USER_AGENTS =
    [''Mozilla/5.0 (Windows NT 10.0; Win64; x64) AppleWebKit/537.36 (KHTML, like Gecko) Chrome/120.0.0.0 Safari/537.36'',
     ''Mozilla/5.0 (Macintosh; Intel Mac OS X 10_15_7) AppleWebKit/537.36 (KHTML, like Gecko) Chrome/120.0.0.0 Safari/537.36'',
     ''Mozilla/5.0 (X11; Linux x86_64) AppleWebKit/537.36 (KHTML, like Gecko) Chrome/120.0.0.0 Safari/537.36'',
     ''Mozilla/5.0 (Windows NT 10.0; Win64; x64; rv:121.0) Gecko/20100101 Firefox/121.0'',
     ''Mozilla/5.0 (Macintosh; Intel Mac OS X 10_15_7) AppleWebKit/605.1.15 (KHTML, like Gecko) Version/17.2 Safari/605.1.15'']"

definition get_random_user_agent :: "'x env \<Rightarrow> (string, 'x) io" where
  "get_random_user_agent E =
     (\<lambda>w. case random_index E (ext w) of
             (n, x') \<Rightarrow> (Inr (USER_AGENTS ! (n mod length USER_AGENTS)), w\<lparr>ext := x'\<rparr>))"

definition http_get ::
    "'x env \<Rightarrow> json \<Rightarrow> (string \<times> string) list \<Rightarrow> bool \<Rightarrow> nat \<Rightarrow> (http_response, 'x) io" where
  "http_get E url headers stream timeout =
     (\<lambda>w. case requests_get E url headers stream timeout (ext w) of
             (r, x') \<Rightarrow> (r, w\<lparr>ext := x'\<rparr>))"

text \<open>
  \<^verbatim>\<open>with open(filepath, 'wb') as f: for chunk in video_response.iter_content(...): f.write(chunk)\<close>
  Opening fails on a directory or when the collaborator says so; otherwise it leaves an
  empty file. Each write appends its chunk or fails. The stream may raise once its chunks
  are consumed.
\<close>

definition open_wb :: "'x env \<Rightarrow> string \<Rightarrow> (unit, 'x) io" where
  "open_wb E path =
     (\<lambda>w. case fs w path of
             Some (Dir n) \<Rightarrow> (Inl (OSError ''Is a directory''), w)
           | _ \<Rightarrow> (case open_fault E path (ext w) of
                     (Some e, x') \<Rightarrow> (Inl e, w\<lparr>ext := x'\<rparr>)
                   | (None, x') \<Rightarrow> (Inr (), w\<lparr>fs := (fs w)(path \<mapsto> File []), ext := x'\<rparr>)))"

definition write_chunk :: "'x env \<Rightarrow> string \<Rightarrow> string \<Rightarrow> (unit, 'x) io" where
  "write_chunk E path chunk =
     (\<lambda>w. case write_fault E path chunk (ext w) of
             (Some e, x') \<Rightarrow> (Inl e, w\<lparr>ext := x'\<rparr>)
           | (None, x') \<Rightarrow>
               (Inr (), w\<lparr>fs := (fs w)(path \<mapsto>
                              File ((case fs w path of Some (File c) \<Rightarrow> c | _ \<Rightarrow> []) @ chunk)),
                          ext := x'\<rparr>))"

fun write_chunks :: "'x env \<Rightarrow> string \<Rightarrow> string list \<Rightarrow> exn option \<Rightarrow> (unit, 'x) io" where
  "write_chunks E path [] err = (case err of None \<Rightarrow> ret () | Some e \<Rightarrow> lift (Inl e))"
| "write_chunks E path (c # cs) err = bind (write_chunk E path c) (\<lambda>_. write_chunks E path cs err)"

definition save_stream :: "'x env \<Rightarrow> string \<Rightarrow> http_response \<Rightarrow> (unit, 'x) io" where
  "save_stream E path video_response =
     bind (open_wb E path) (\<lambda>_. write_chunks E path (chunks video_response) (chunks_error video_response))"

definition path_exists :: "string \<Rightarrow> (bool, 'x) io" where
  "path_exists path = (\<lambda>w. (Inr (fs w path \<noteq> None), w))"

text \<open>
  \<open>os.path.getsize\<close>. Every strategy puts a string under \<open>filepath\<close>; another kind of value
  there is modelled as a \<open>TypeError\<close>.
\<close>

definition getsize :: "json \<Rightarrow> (int, 'x) io" where
  "getsize path =
     (\<lambda>w. case path of
             JStr p \<Rightarrow> (case fs w p of
                          Some (File c) \<Rightarrow> (Inr (int (length c)), w)
                        | Some (Dir n) \<Rightarrow> (Inr (int n), w)
                        | None \<Rightarrow> (Inl (OSError ''No such file or directory''), w))
           | _ \<Rightarrow> (Inl TypeError, w))"

section \<open>Strategy (a): the extraction engine\<close>

definition ydl_opts :: "'x env \<Rightarrow> string \<Rightarrow> string \<Rightarrow> json" where
  "ydl_opts E shortcode user_agent =
     JObj [(''format'', JStr ''best''),
           (''outtmpl'', JStr (path_join (download_dir E) (shortcode @ ''.%(ext)s''))),
           (''quiet'', JBool False),
           (''no_warnings'', JBool False),
           (''extract_flat'', JBool False),
           (''nocheckcertificate'', JBool True),
           (''merge_output_format'', JStr ''mp4''),
           (''cookiefile'', JNull),
           (''http_headers'', JObj
              [(''User-Agent'', JStr user_agent),
               (''Accept'', JStr ''text/html,application/xhtml+xml,application/xml;q=0.9,*/*;q=0.8''),
               (''Accept-Language'', JStr ''en-US,en;q=0.9''),
               (''Accept-Encoding'', JStr ''gzip, deflate, br''),
               (''DNT'', JStr ''1''),
               (''Connection'', JStr ''keep-alive''),
               (''Upgrade-Insecure-Requests'', JStr ''1''),
               (''Sec-Fetch-Dest'', JStr ''document''),
               (''Sec-Fetch-Mode'', JStr ''navigate''),
               (''Sec-Fetch-Site'', JStr ''none''),
               (''Cache-Control'', JStr ''max-age=0'')]),
           (''retries'', JInt 5),
           (''fragment_retries'', JInt 5),
           (''geo_bypass'', JBool True),
           (''age_limit'', JNull),
           (''extractor_args'', JObj [(''instagram'', JObj [(''api_version'', JStr ''1'')])])]"

definition extract_info :: "'x env \<Rightarrow> json \<Rightarrow> string \<Rightarrow> (json, 'x) io" where
  "extract_info E opts url =
     (\<lambda>w. case ydl_extract_info E opts url (fs w, ext w) of
             (r, f', x') \<Rightarrow> (r, w\<lparr>fs := f', ext := x'\<rparr>))"

text \<open>The dictionary of the \<open>return\<close> statement, its entries evaluated in order.\<close>

definition ytdlp_result :: "json \<Rightarrow> string \<Rightarrow> string \<Rightarrow> exn + json" where
  "ytdlp_result info filepath filename =
     ebind (py_get info ''title'' (JStr ''Instagram Video'')) (\<lambda>title.
     ebind (py_get info ''uploader'' (JStr ''Unknown'')) (\<lambda>author.
     ebind (py_get info ''description'' (JStr ''No caption available'')) (\<lambda>caption.
     ebind (py_get info ''thumbnail'' (JStr [])) (\<lambda>thumbnail.
       Inr (JObj [(''success'', JBool True),
                  (''filepath'', JStr filepath),
                  (''filename'', JStr filename),
                  (''title'', title),
                  (''author'', author),
                  (''caption'', caption),
                  (''thumbnail'', thumbnail),
                  (''method'', JStr ''ytdlp_enhanced'')])))))"

text \<open>The \<open>try\<close> block of \<open>download_with_ytdlp_enhanced\<close>; falling out of it is \<open>return None\<close>.\<close>

definition ytdlp_try :: "'x env \<Rightarrow> string \<Rightarrow> string \<Rightarrow> (json, 'x) io" where
  "ytdlp_try E url shortcode =
     bind (logger INFO (''Attempting enhanced yt-dlp method for '' @ shortcode)) (\<lambda>_.
     bind (get_random_user_agent E) (\<lambda>user_agent.
     bind (extract_info E (ydl_opts E shortcode user_agent) url) (\<lambda>info.
     bind (lift (py_get info ''id'' (JStr shortcode))) (\<lambda>video_id.
     bind (lift (py_get info ''ext'' (JStr ''mp4''))) (\<lambda>ext.
       let filename = py_str E video_id @ ''.'' @ py_str E ext;
           filepath = path_join (download_dir E) filename
       in bind (path_exists filepath) (\<lambda>ex.
            if ex then lift (ytdlp_result info filepath filename) else ret JNull))))))"

text \<open>The two handlers: both log and fall through to \<open>return None\<close>.\<close>

definition download_with_ytdlp_enhanced ::
    "'x env \<Rightarrow> string \<Rightarrow> string \<Rightarrow> 'x world \<Rightarrow> json \<times> 'x world" where
  "download_with_ytdlp_enhanced E url shortcode w =
     (case ytdlp_try E url shortcode w of
        (Inr r, w') \<Rightarrow> (r, w')
      | (Inl (DownloadError m), w') \<Rightarrow>
          (JNull, w'\<lparr>logs := logs w' @
             [(WARNING, ''Enhanced yt-dlp method failed: '' @ exn_str E (DownloadError m))]\<rparr>)
      | (Inl e, w') \<Rightarrow>
          (JNull, w'\<lparr>logs := logs w' @
             [(ERROR, ''Enhanced yt-dlp method error: '' @ exn_str E e)]\<rparr>))"

section \<open>Strategy (b): the structured endpoints\<close>

definition api_urls :: "string \<Rightarrow> string list" where
  "api_urls shortcode =
     [''https://www.instagram.com/p/'' @ shortcode @ ''/?__a=1&__d=dis'',
      ''https://www.instagram.com/reel/'' @ shortcode @ ''/?__a=1&__d=dis'']"

definition api_headers :: "string \<Rightarrow> string \<Rightarrow> (string \<times> string) list" where
  "api_headers user_agent shortcode =
     [(''User-Agent'', user_agent),
      (''Accept'', ''*/*''),
      (''Accept-Language'', ''en-US,en;q=0.9''),
      (''Accept-Encoding'', ''gzip, deflate, br''),
      (''X-IG-App-ID'', ''936619743392459''),
      (''X-ASBD-ID'', ''198387''),
      (''X-IG-WWW-Claim'', ''0''),
      (''Origin'', ''https://www.instagram.com''),
      (''Referer'', ''https://www.instagram.com/p/'' @ shortcode @ ''/''),
      (''Sec-Fetch-Dest'', ''empty''),
      (''Sec-Fetch-Mode'', ''cors''),
      (''Sec-Fetch-Site'', ''same-origin'')]"

text \<open>
  What one pass of a loop body does to the loop: go on with the next element (a \<open>continue\<close>,
  or the end of the body) or leave the function with a value.
\<close>

datatype flow = Next | Return json

text \<open>
  \<^verbatim>\<open>if 'items' in data and len(data['items']) > 0: media = data['items'][0]\<close>
  \<^verbatim>\<open>elif 'graphql' in data: media = data['graphql']['shortcode_media']\<close>
  \<^verbatim>\<open>else: continue\<close>
  \<open>None\<close> stands for the \<open>continue\<close>.
\<close>

definition resolve_media :: "json \<Rightarrow> exn + json option" where
  "resolve_media data =
     ebind (py_in ''items'' data) (\<lambda>has_items.
     ebind (if has_items
            then ebind (py_getitem data ''items'') (\<lambda>items. ebind (py_len items) (\<lambda>n. Inr (0 < n)))
            else Inr False) (\<lambda>nonempty.
       if nonempty
       then ebind (py_getitem data ''items'') (\<lambda>items.
            ebind (py_getitem0 items) (\<lambda>media. Inr (Some media)))
       else ebind (py_in ''graphql'' data) (\<lambda>has_graphql.
              if has_graphql
              then ebind (py_getitem data ''graphql'') (\<lambda>g.
                   ebind (py_getitem g ''shortcode_media'') (\<lambda>media. Inr (Some media)))
              else Inr None)))"

text \<open>
  \<^verbatim>\<open>video_url = None\<close>
  \<^verbatim>\<open>if 'video_url' in media: video_url = media['video_url']\<close>
  \<^verbatim>\<open>elif 'video_versions' in media and len(media['video_versions']) > 0:\<close>
  \<^verbatim>\<open>    video_url = media['video_versions'][0]['url']\<close>
\<close>

definition find_video_url :: "json \<Rightarrow> exn + json" where
  "find_video_url media =
     ebind (py_in ''video_url'' media) (\<lambda>direct.
       if direct then py_getitem media ''video_url''
       else ebind (py_in ''video_versions'' media) (\<lambda>has_versions.
            ebind (if has_versions
                   then ebind (py_getitem media ''video_versions'') (\<lambda>vs.
                        ebind (py_len vs) (\<lambda>n. Inr (0 < n)))
                   else Inr False) (\<lambda>nonempty.
              if nonempty
              then ebind (py_getitem media ''video_versions'') (\<lambda>vs.
                   ebind (py_getitem0 vs) (\<lambda>v. py_getitem v ''url''))
              else Inr JNull)))"

text \<open>
  \<^verbatim>\<open>caption = ""\<close>
  \<^verbatim>\<open>if 'caption' in media and media['caption']: caption = media['caption'].get('text', '')\<close>
  \<^verbatim>\<open>elif 'edge_media_to_caption' in media:\<close>
  \<^verbatim>\<open>    edges = media['edge_media_to_caption'].get('edges', [])\<close>
  \<^verbatim>\<open>    if edges: caption = edges[0]['node']['text']\<close>
\<close>

definition find_caption :: "json \<Rightarrow> exn + json" where
  "find_caption media =
     ebind (py_in ''caption'' media) (\<lambda>has_caption.
     ebind (if has_caption
            then ebind (py_getitem media ''caption'') (\<lambda>c. Inr (py_truthy c))
            else Inr False) (\<lambda>direct.
       if direct
       then ebind (py_getitem media ''caption'') (\<lambda>c. py_get c ''text'' (JStr []))
       else ebind (py_in ''edge_media_to_caption'' media) (\<lambda>has_edges.
              if has_edges
              then ebind (py_getitem media ''edge_media_to_caption'') (\<lambda>em.
                   ebind (py_get em ''edges'' (JArr [])) (\<lambda>edges.
                     if py_truthy edges
                     then ebind (py_getitem0 edges) (\<lambda>e0.
                          ebind (py_getitem e0 ''node'') (\<lambda>node. py_getitem node ''text''))
                     else Inr (JStr [])))
              else Inr (JStr []))))"

text \<open>\<^verbatim>\<open>author = media.get('owner', {}).get('username', 'Unknown')\<close>\<close>

definition find_author :: "json \<Rightarrow> exn + json" where
  "find_author media =
     ebind (py_get media ''owner'' (JObj [])) (\<lambda>owner. py_get owner ''username'' (JStr ''Unknown''))"

text \<open>The dictionary of the \<open>return\<close> statement; \<open>caption or 'No caption available'\<close>.\<close>

definition api_result :: "string \<Rightarrow> string \<Rightarrow> string \<Rightarrow> json \<Rightarrow> json \<Rightarrow> json" where
  "api_result shortcode filepath filename author caption =
     JObj [(''success'', JBool True),
           (''filepath'', JStr filepath),
           (''filename'', JStr filename),
           (''title'', JStr (''Instagram Video - '' @ shortcode)),
           (''author'', author),
           (''caption'', if py_truthy caption then caption else JStr ''No caption available''),
           (''method'', JStr ''direct_api'')]"

text \<open>\<open>try: ... except json.JSONDecodeError: ...\<close>: only that class is caught.\<close>

definition catch_json_decode :: "(flow, 'x) io \<Rightarrow> (flow, 'x) io \<Rightarrow> (flow, 'x) io" where
  "catch_json_decode body handler =
     (\<lambda>w. case body w of
             (Inl JSONDecodeError, w') \<Rightarrow> handler w'
           | r \<Rightarrow> r)"

text \<open>The body of \<open>for api_url in api_urls\<close>.\<close>

definition try_api_url ::
    "'x env \<Rightarrow> string \<Rightarrow> (string \<times> string) list \<Rightarrow> string \<Rightarrow> (flow, 'x) io" where
  "try_api_url E shortcode headers api_url =
     bind (http_get E (JStr api_url) headers False 30) (\<lambda>response.
       if status_code response = 200
       then catch_json_decode
         (bind (lift (json_result response)) (\<lambda>data.
          bind (lift (resolve_media data)) (\<lambda>found.
            case found of
              None \<Rightarrow> ret Next
            | Some media \<Rightarrow>
                bind (lift (find_video_url media)) (\<lambda>video_url.
                  if py_truthy video_url
                  then bind (lift (find_caption media)) (\<lambda>caption.
                       bind (lift (find_author media)) (\<lambda>author.
                       bind (http_get E video_url headers True 60) (\<lambda>video_response.
                         if status_code video_response = 200
                         then (let filename = shortcode @ ''.mp4'';
                                   filepath = path_join (download_dir E) filename
                               in bind (save_stream E filepath video_response) (\<lambda>_.
                                  bind (logger INFO
                                          (''Successfully downloaded via direct API: '' @ filename)) (\<lambda>_.
                                  ret (Return (api_result shortcode filepath filename author caption)))))
                         else ret Next)))
                  else ret Next))))
         (bind (logger WARNING (''Failed to parse JSON from '' @ api_url)) (\<lambda>_. ret Next))
       else ret Next)"

fun for_api_urls ::
    "'x env \<Rightarrow> string \<Rightarrow> (string \<times> string) list \<Rightarrow> string list \<Rightarrow> (json, 'x) io" where
  "for_api_urls E shortcode headers [] = ret JNull"
| "for_api_urls E shortcode headers (api_url # rest) =
     bind (try_api_url E shortcode headers api_url) (\<lambda>fl.
       case fl of
         Return r \<Rightarrow> ret r
       | Next \<Rightarrow> for_api_urls E shortcode headers rest)"

definition requests_try :: "'x env \<Rightarrow> string \<Rightarrow> string \<Rightarrow> (json, 'x) io" where
  "requests_try E url shortcode =
     bind (logger INFO (''Attempting direct API method for '' @ shortcode)) (\<lambda>_.
     bind (get_random_user_agent E) (\<lambda>user_agent.
       for_api_urls E shortcode (api_headers user_agent shortcode) (api_urls shortcode)))"

definition download_with_requests ::
    "'x env \<Rightarrow> string \<Rightarrow> string \<Rightarrow> 'x world \<Rightarrow> json \<times> 'x world" where
  "download_with_requests E url shortcode w =
     (case requests_try E url shortcode w of
        (Inr r, w') \<Rightarrow> (r, w')
      | (Inl e, w') \<Rightarrow>
          (JNull, w'\<lparr>logs := logs w' @ [(ERROR, ''Direct API method failed: '' @ exn_str E e)]\<rparr>))"

section \<open>Strategy (c): the linked-data blocks of the page\<close>

definition html_headers :: "string \<Rightarrow> (string \<times> string) list" where
  "html_headers user_agent =
     [(''User-Agent'', user_agent),
      (''Accept'', ''text/html,application/xhtml+xml,application/xml;q=0.9,image/webp,*/*;q=0.8''),
      (''Accept-Language'', ''en-US,en;q=0.5''),
      (''DNT'', ''1''),
      (''Connection'', ''keep-alive''),
      (''Upgrade-Insecure-Requests'', ''1'')]"

definition post_url :: "string \<Rightarrow> string" where
  "post_url shortcode = ''https://www.instagram.com/p/'' @ shortcode @ ''/''"

text \<open>\<^verbatim>\<open>r'<script type="application/ld\+json">({.*?})</script>'\<close>, searched with \<open>re.DOTALL\<close>.\<close>

definition ld_json_pattern :: "rx_item list" where
  "ld_json_pattern =
     [Lit ''<script type=\"application/ld+json\">'',
      GroupOpen, Lit ''{'', LazyAny, Lit ''}'', GroupClose,
      Lit ''</script>'']"

text \<open>The dictionary of the \<open>return\<close> statement, its entries evaluated in order.\<close>

definition html_result :: "json \<Rightarrow> string \<Rightarrow> string \<Rightarrow> exn + json" where
  "html_result data filepath filename =
     ebind (py_get data ''caption'' (JStr ''Instagram Video'')) (\<lambda>title.
     ebind (ebind (py_get data ''author'' (JObj [])) (\<lambda>a. py_get a ''name'' (JStr ''Unknown''))) (\<lambda>author.
     ebind (py_get data ''caption'' (JStr ''No caption available'')) (\<lambda>caption.
       Inr (JObj [(''success'', JBool True),
                  (''filepath'', JStr filepath),
                  (''filename'', JStr filename),
                  (''title'', title),
                  (''author'', author),
                  (''caption'', caption),
                  (''method'', JStr ''html_scraping'')]))))"

text \<open>The body of \<open>for match in matches\<close>.\<close>

definition try_ld_block ::
    "'x env \<Rightarrow> string \<Rightarrow> (string \<times> string) list \<Rightarrow> string \<Rightarrow> (flow, 'x) io" where
  "try_ld_block E shortcode headers match =
     catch_json_decode
       (bind (lift (json_loads E match)) (\<lambda>data.
        bind (lift (py_in ''video'' data)) (\<lambda>has_video.
        bind (lift (if has_video
                    then ebind (py_getitem data ''video'') (\<lambda>v. Inr (is_dict v))
                    else Inr False)) (\<lambda>usable.
          if usable
          then bind (lift (ebind (py_getitem data ''video'') (\<lambda>v. py_get v ''contentUrl'' JNull))) (\<lambda>video_url.
                 if py_truthy video_url
                 then bind (http_get E video_url headers True 60) (\<lambda>video_response.
                        if status_code video_response = 200
                        then (let filename = shortcode @ ''.mp4'';
                                  filepath = path_join (download_dir E) filename
                              in bind (save_stream E filepath video_response) (\<lambda>_.
                                 bind (logger INFO
                                         (''Successfully downloaded via HTML scraping: '' @ filename)) (\<lambda>_.
                                 bind (lift (html_result data filepath filename)) (\<lambda>r.
                                 ret (Return r)))))
                        else ret Next)
                 else ret Next)
          else ret Next))))
       (ret Next)"

fun for_matches ::
    "'x env \<Rightarrow> string \<Rightarrow> (string \<times> string) list \<Rightarrow> string list \<Rightarrow> (json, 'x) io" where
  "for_matches E shortcode headers [] = ret JNull"
| "for_matches E shortcode headers (match # rest) =
     bind (try_ld_block E shortcode headers match) (\<lambda>fl.
       case fl of
         Return r \<Rightarrow> ret r
       | Next \<Rightarrow> for_matches E shortcode headers rest)"

definition instaloader_try :: "'x env \<Rightarrow> string \<Rightarrow> string \<Rightarrow> (json, 'x) io" where
  "instaloader_try E url shortcode =
     bind (logger INFO (''Attempting HTML scraping for '' @ shortcode)) (\<lambda>_.
     bind (get_random_user_agent E) (\<lambda>user_agent.
     bind (http_get E (JStr (post_url shortcode)) (html_headers user_agent) False 30) (\<lambda>response.
       if status_code response = 200
       then for_matches E shortcode (html_headers user_agent)
              (re_findall ld_json_pattern (text_body response))
       else ret JNull)))"

definition download_with_instaloader_like ::
    "'x env \<Rightarrow> string \<Rightarrow> string \<Rightarrow> 'x world \<Rightarrow> json \<times> 'x world" where
  "download_with_instaloader_like E url shortcode w =
     (case instaloader_try E url shortcode w of
        (Inr r, w') \<Rightarrow> (r, w')
      | (Inl e, w') \<Rightarrow>
          (JNull, w'\<lparr>logs := logs w' @ [(ERROR, ''HTML scraping method failed: '' @ exn_str E e)]\<rparr>))"

section \<open>The handler of \<open>/download\<close>\<close>

record json_response =
  http_status :: int
  content :: json

text \<open>A method of the orchestrator's list: a name and a call that returns a value or raises.\<close>

type_synonym 'x method_entry = "string \<times> ('x world \<Rightarrow> (exn + json) \<times> 'x world)"

definition call :: "('x world \<Rightarrow> json \<times> 'x world) \<Rightarrow> 'x world \<Rightarrow> (exn + json) \<times> 'x world" where
  "call f = (\<lambda>w. case f w of (r, w') \<Rightarrow> (Inr r, w'))"

definition methods :: "'x env \<Rightarrow> string \<Rightarrow> string \<Rightarrow> 'x method_entry list" where
  "methods E url shortcode =
     [(''Enhanced yt-dlp'', call (download_with_ytdlp_enhanced E url shortcode)),
      (''Direct API'', call (download_with_requests E url shortcode)),
      (''HTML Scraping'', call (download_with_instaloader_like E url shortcode))]"

text \<open>\<open>result and result.get('success')\<close>, as a condition.\<close>

definition succeeded :: "json \<Rightarrow> exn + bool" where
  "succeeded result =
     (if py_truthy result
      then ebind (py_get result ''success'' JNull) (\<lambda>s. Inr (py_truthy s))
      else Inr False)"

text \<open>The three characters that open the success message of the log, as UTF-8 bytes.\<close>

definition success_mark :: string where
  "success_mark = [CHR 0xC3, CHR 0xA2, CHR 0xC5, CHR 0x93, CHR 0xE2, CHR 0x80, CHR 0xA6]"

text \<open>
  The loop over the methods, with the variable \<open>result\<close> carried along. The assignment
  happens before the condition is evaluated, so a condition that raises leaves the new value
  in \<open>result\<close>; a call that raises leaves the old one.
\<close>

fun run_methods :: "'x env \<Rightarrow> 'x method_entry list \<Rightarrow> json \<Rightarrow> 'x world \<Rightarrow> json \<times> 'x world" where
  "run_methods E [] result w = (result, w)"
| "run_methods E ((method_name, method_func) # rest) result w =
     (case method_func (w\<lparr>logs := logs w @ [(INFO, ''Trying method: '' @ method_name)]\<rparr>) of
        (Inl e, w') \<Rightarrow>
          run_methods E rest result
            (w'\<lparr>logs := logs w' @
               [(ERROR, ''Method '' @ method_name @ '' failed: '' @ exn_str E e)]\<rparr>)
      | (Inr r, w') \<Rightarrow>
          (case succeeded r of
             Inl e \<Rightarrow>
               run_methods E rest r
                 (w'\<lparr>logs := logs w' @
                    [(ERROR, ''Method '' @ method_name @ '' failed: '' @ exn_str E e)]\<rparr>)
           | Inr True \<Rightarrow>
               (r, w'\<lparr>logs := logs w' @
                     [(INFO, success_mark @ '' Success with method: '' @ method_name)]\<rparr>)
           | Inr False \<Rightarrow> run_methods E rest r w'))"

definition failure_content :: json where
  "failure_content =
     JObj [(''error'', JStr ''Unable to download video. This might be a private post, age-restricted content, or Instagram has blocked the request. Try with a different public Instagram video.''),
           (''suggestion'', JStr (''Make sure the Instagram post is:'' @ [CHR 0x0A] @
              ''1. Public (not private account)'' @ [CHR 0x0A] @
              ''2. Not age-restricted'' @ [CHR 0x0A] @
              ''3. Not deleted'' @ [CHR 0x0A] @
              ''4. Accessible without login in your browser'' @ [CHR 0x0A, CHR 0x0A] @
              ''Note: Some videos may be blocked on hosted servers. If this persists, the video might require login to view.''))]"

text \<open>The dictionary of the success response, its entries evaluated in order.\<close>

definition success_content :: "'x env \<Rightarrow> json \<Rightarrow> int \<Rightarrow> exn + json" where
  "success_content E result file_size =
     ebind (py_getitem result ''filename'') (\<lambda>filename.
     ebind (py_get result ''title'' (JStr ''Instagram Video'')) (\<lambda>title.
     ebind (py_get result ''author'' (JStr ''Unknown'')) (\<lambda>author.
     ebind (py_get result ''thumbnail'' (JStr [])) (\<lambda>thumbnail.
     ebind (py_get result ''caption'' (JStr ''No caption available'')) (\<lambda>caption.
     ebind (py_get result ''method'' (JStr ''unknown'')) (\<lambda>method_tag.
       Inr (JObj [(''success'', JBool True),
                  (''video'', JStr (''/downloads/'' @ py_str E filename)),
                  (''title'', title),
                  (''author'', author),
                  (''thumbnail'', thumbnail),
                  (''filename'', filename),
                  (''caption'', caption),
                  (''file_size'', JInt file_size),
                  (''method'', method_tag)])))))))"

text \<open>What follows the loop: \<open>if result and result.get('success'): ... else: ...\<close>\<close>

definition respond :: "'x env \<Rightarrow> json \<Rightarrow> (json_response, 'x) io" where
  "respond E result =
     bind (lift (succeeded result)) (\<lambda>ok.
       if ok
       then bind (lift (py_getitem result ''filepath'')) (\<lambda>filepath.
            bind (getsize filepath) (\<lambda>file_size.
            bind (lift (success_content E result file_size)) (\<lambda>c.
            ret \<lparr>http_status = 200, content = c\<rparr>)))
       else ret \<lparr>http_status = 400, content = failure_content\<rparr>)"

text \<open>The loop and what follows it, for any list of methods.\<close>

definition pipeline :: "'x env \<Rightarrow> 'x method_entry list \<Rightarrow> (json_response, 'x) io" where
  "pipeline E ms = (\<lambda>w. case run_methods E ms JNull w of (result, w') \<Rightarrow> respond E result w')"

text \<open>
  The \<open>try\<close> block of \<open>download\<close>. Its argument is the outcome of \<open>await request.json()\<close>.
  \<open>re.search\<close> raises a \<open>TypeError\<close> on a value that is not a string; \<open>not shortcode\<close> holds
  of \<open>None\<close> and of the empty string.
\<close>

definition download_try :: "'x env \<Rightarrow> exn + json \<Rightarrow> (json_response, 'x) io" where
  "download_try E request_json =
     bind (lift request_json) (\<lambda>data.
     bind (lift (py_get data ''url'' JNull)) (\<lambda>url.
       if \<not> py_truthy url
       then ret \<lparr>http_status = 400, content = JObj [(''error'', JStr ''No URL provided'')]\<rparr>
       else bind (lift (py_in ''instagram.com'' url)) (\<lambda>has_domain.
         if \<not> has_domain
         then ret \<lparr>http_status = 400, content = JObj [(''error'', JStr ''Invalid Instagram URL'')]\<rparr>
         else bind (logger INFO (''Processing download request for: '' @ py_str E url)) (\<lambda>_.
           case url of
             JStr u \<Rightarrow>
               (case extract_instagram_shortcode u of
                  None \<Rightarrow>
                    ret \<lparr>http_status = 400,
                         content = JObj [(''error'', JStr ''Could not extract video ID from URL'')]\<rparr>
                | Some shortcode \<Rightarrow>
                    if shortcode = []
                    then ret \<lparr>http_status = 400,
                              content = JObj [(''error'', JStr ''Could not extract video ID from URL'')]\<rparr>
                    else bind (logger INFO (''Extracted shortcode: '' @ shortcode)) (\<lambda>_.
                         pipeline E (methods E u shortcode)))
           | _ \<Rightarrow> lift (Inl TypeError)))))"

text \<open>The outermost handler: \<open>except Exception\<close> gives the response 500.\<close>

definition download :: "'x env \<Rightarrow> exn + json \<Rightarrow> 'x world \<Rightarrow> json_response \<times> 'x world" where
  "download E request_json w =
     (case download_try E request_json w of
        (Inr response, w') \<Rightarrow> (response, w')
      | (Inl e, w') \<Rightarrow>
          (\<lparr>http_status = 500,
            content = JObj [(''error'', JStr (''Internal server error: '' @ exn_str E e))]\<rparr>,
           w'\<lparr>logs := logs w' @ [(ERROR, ''Unexpected error: '' @ exn_str E e)]\<rparr>))"

section \<open>Notions used to state the properties\<close>

text \<open>The text \<open>needle\<close> occurs in \<open>s\<close> at position \<open>i\<close>.\<close>

definition occurs_at :: "string \<Rightarrow> string \<Rightarrow> nat \<Rightarrow> bool" where
  "occurs_at needle s i = (strip_prefix needle (drop i s) \<noteq> None)"

text \<open>What the patterns ask for after a keyword: a slash and a non-empty run of \<open>[\w-]\<close>.\<close>

definition id_after :: "string \<Rightarrow> (string \<times> string) option" where
  "id_after s =
     (case strip_prefix ''/'' s of
        None \<Rightarrow> None
      | Some s' \<Rightarrow> if takeWhile id_char s' = [] then None
                   else Some (takeWhile id_char s', dropWhile id_char s'))"

text \<open>The world after one more record in the log.\<close>

definition logged :: "log_level \<Rightarrow> string \<Rightarrow> 'x world \<Rightarrow> 'x world" where
  "logged lvl msg w = w\<lparr>logs := logs w @ [(lvl, msg)]\<rparr>"




section \<open>A sample environment\<close>

text \<open>
  Collaborators with fixed answers, used to run the definitions on concrete requests. The
  external state is the list of the URLs requested so far. The engine knows one reel; the
  endpoints know the posts \<open>XYZ_789\<close> (a video), \<open>EMPTY\<close> (a video whose download has no
  bytes) and \<open>BAD\<close> (a first answer whose \<open>items\<close> is \<open>null\<close>, a second answer with a video);
  the page of \<open>HTML1\<close> carries one linked-data block.
\<close>

definition sample_response :: http_response where
  "sample_response =
     \<lparr>status_code = 404, json_result = Inl JSONDecodeError, text_body = [], chunks = [],
      chunks_error = None\<rparr>"

definition sample_video_json :: "string \<Rightarrow> json" where
  "sample_video_json video_url =
     JObj [(''items'', JArr [JObj [(''video_versions'', JArr [JObj [(''url'', JStr video_url)]])]])]"

definition sample_block :: string where
  "sample_block = ''{\"video\":{\"contentUrl\":\"https://cdn/v\"}}''"

definition sample_get :: "json \<Rightarrow> http_response" where
  "sample_get url =
     (if url = JStr ''https://www.instagram.com/p/XYZ_789/?__a=1&__d=dis''
      then sample_response\<lparr>status_code := 200, json_result := Inr (sample_video_json ''https://cdn/v'')\<rparr>
      else if url = JStr ''https://cdn/v''
      then sample_response\<lparr>status_code := 200, chunks := [''ab'', ''cd'']\<rparr>
      else if url = JStr ''https://www.instagram.com/p/EMPTY/?__a=1&__d=dis''
      then sample_response\<lparr>status_code := 200, json_result := Inr (sample_video_json ''https://cdn/e'')\<rparr>
      else if url = JStr ''https://cdn/e''
      then sample_response\<lparr>status_code := 200\<rparr>
      else if url = JStr ''https://www.instagram.com/p/BAD/?__a=1&__d=dis''
      then sample_response\<lparr>status_code := 200, json_result := Inr (JObj [(''items'', JNull)])\<rparr>
      else if url = JStr ''https://www.instagram.com/reel/BAD/?__a=1&__d=dis''
      then sample_response\<lparr>status_code := 200, json_result := Inr (sample_video_json ''https://cdn/v'')\<rparr>
      else if url = JStr ''https://www.instagram.com/p/HTML1/''
      then sample_response\<lparr>status_code := 200,
             text_body := ''<html><script type=\"application/ld+json\">'' @ sample_block @ ''</script></html>''\<rparr>
      else sample_response)"

definition sample_env :: "json list env" where
  "sample_env =
     \<lparr>download_dir = ''/app/downloads'',
      random_index = (\<lambda>x. (0, x)),
      ydl_extract_info = (\<lambda>opts url (f, x).
         if url = ''https://instagram.com/reel/ABC123xyz/''
         then (Inr (JObj [(''id'', JStr ''ABC123xyz''), (''ext'', JStr ''mp4''), (''title'', JStr ''A reel'')]),
               f(''/app/downloads/ABC123xyz.mp4'' \<mapsto> File ''video''), x)
         else (Inl (DownloadError ''blocked''), f, x)),
      requests_get = (\<lambda>url headers stream timeout x. (Inr (sample_get url), x @ [url])),
      json_loads = (\<lambda>s. if s = sample_block
                          then Inr (JObj [(''video'', JObj [(''contentUrl'', JStr ''https://cdn/v'')])])
                          else Inl JSONDecodeError),
      open_fault = (\<lambda>path x. (None, x)),
      write_fault = (\<lambda>path chunk x. (None, x)),
      exn_str = (\<lambda>e. case e of DownloadError m \<Rightarrow> m | OSError m \<Rightarrow> m | OtherError m \<Rightarrow> m | _ \<Rightarrow> ''error''),
      value_str = (\<lambda>v. ''value'')\<rparr>"

definition sample_world :: "json list world" where
  "sample_world = \<lparr>fs = Map.empty, logs = [], ext = []\<rparr>"

section \<open>Facts about strings and matching\<close>

lemma strip_prefix_Some_iff: "strip_prefix l s = Some r \<longleftrightarrow> s = l @ r"
  by (induction l s rule: strip_prefix.induct) auto

lemma strip_prefix_None_iff: "strip_prefix l s = None \<longleftrightarrow> (\<forall>r. s \<noteq> l @ r)"
  by (metis strip_prefix_Some_iff not_Some_eq)

lemma strip_prefix_append [simp]: "strip_prefix l (l @ r) = Some r"
  by (simp add: strip_prefix_Some_iff)

lemma is_substr_iff: "is_substr needle hay \<longleftrightarrow> (\<exists>pre post. hay = pre @ needle @ post)"
proof (induction hay)
  case Nil
  then show ?case by auto
next
  case (Cons c cs)
  show ?case
  proof (cases "strip_prefix needle (c # cs)")
    case None
    then have no: "\<forall>r. c # cs \<noteq> needle @ r" by (simp add: strip_prefix_None_iff)
    have "is_substr needle (c # cs) = is_substr needle cs" using None by simp
    also have "\<dots> \<longleftrightarrow> (\<exists>pre post. cs = pre @ needle @ post)" by (rule Cons.IH)
    also have "\<dots> \<longleftrightarrow> (\<exists>pre post. c # cs = pre @ needle @ post)"
    proof
      assume "\<exists>pre post. cs = pre @ needle @ post"
      then obtain pre post where "cs = pre @ needle @ post" by blast
      then have "c # cs = (c # pre) @ needle @ post" by simp
      then show "\<exists>pre post. c # cs = pre @ needle @ post" by blast
    next
      assume "\<exists>pre post. c # cs = pre @ needle @ post"
      then obtain pre post where e: "c # cs = pre @ needle @ post" by blast
      show "\<exists>pre post. cs = pre @ needle @ post"
      proof (cases pre)
        case Nil
        with e no show ?thesis by auto
      next
        case (Cons a pre')
        with e have "cs = pre' @ needle @ post" by simp
        then show ?thesis by blast
      qed
    qed
    finally show ?thesis .
  next
    case (Some r)
    then have "c # cs = [] @ needle @ r" by (simp add: strip_prefix_Some_iff)
    then have "\<exists>pre post. c # cs = pre @ needle @ post" by blast
    moreover have "is_substr needle (c # cs)" using Some by simp
    ultimately show ?thesis by simp
  qed
qed

lemma first_some_append:
  "first_some (xs @ ys) = (case first_some xs of None \<Rightarrow> first_some ys | Some r \<Rightarrow> Some r)"
  by (induction xs rule: first_some.induct) auto

lemma first_some_None_iff: "first_some xs = None \<longleftrightarrow> (\<forall>x \<in> set xs. x = None)"
  by (induction xs rule: first_some.induct) auto

lemma first_some_Some_iff:
  "first_some xs = Some r \<longleftrightarrow> (\<exists>i < length xs. xs ! i = Some r \<and> (\<forall>j < i. xs ! j = None))"
proof (induction xs rule: first_some.induct)
  case 1
  then show ?case by simp
next
  case (2 xs)
  have "(\<exists>i < length (None # xs). (None # xs) ! i = Some r \<and> (\<forall>j < i. (None # xs) ! j = None))
        \<longleftrightarrow> (\<exists>i < length xs. xs ! i = Some r \<and> (\<forall>j < i. xs ! j = None))"
  proof
    assume "\<exists>i < length (None # xs). (None # xs) ! i = Some r \<and> (\<forall>j < i. (None # xs) ! j = None)"
    then obtain i where i: "i < length (None # xs)" "(None # xs) ! i = Some r"
      "\<forall>j < i. (None # xs) ! j = None" by blast
    then obtain i' where i': "i = Suc i'" by (cases i) auto
    have "\<forall>j < i'. xs ! j = None"
    proof (intro allI impI)
      fix j assume "j < i'"
      then have "Suc j < i" using i' by simp
      with i(3) have "(None # xs) ! Suc j = None" by blast
      then show "xs ! j = None" by simp
    qed
    with i i' show "\<exists>i < length xs. xs ! i = Some r \<and> (\<forall>j < i. xs ! j = None)" by auto
  next
    assume "\<exists>i < length xs. xs ! i = Some r \<and> (\<forall>j < i. xs ! j = None)"
    then obtain i where i: "i < length xs" "xs ! i = Some r" "\<forall>j < i. xs ! j = None" by blast
    have "\<forall>j < Suc i. (None # xs) ! j = None"
      using i(3) by (auto simp: nth_Cons')
    with i show "\<exists>i < length (None # xs). (None # xs) ! i = Some r \<and> (\<forall>j < i. (None # xs) ! j = None)"
      by (intro exI [of _ "Suc i"]) auto
  qed
  with 2 show ?case by simp
next
  case (3 x xs)
  show ?case
  proof
    assume "first_some (Some x # xs) = Some r"
    then have "x = r" by simp
    then show "\<exists>i < length (Some x # xs). (Some x # xs) ! i = Some r \<and> (\<forall>j < i. (Some x # xs) ! j = None)"
      by (intro exI [of _ 0]) simp
  next
    assume "\<exists>i < length (Some x # xs). (Some x # xs) ! i = Some r \<and> (\<forall>j < i. (Some x # xs) ! j = None)"
    then obtain i where i: "(Some x # xs) ! i = Some r" "\<forall>j < i. (Some x # xs) ! j = None" by blast
    have "i = 0"
    proof (rule ccontr)
      assume "i \<noteq> 0"
      then have "0 < i" by simp
      with i(2) have "(Some x # xs) ! 0 = None" by blast
      then show False by simp
    qed
    with i(1) show "first_some (Some x # xs) = Some r" by simp
  qed
qed

lemma re_search_Some_iff:
  "re_search rx s = Some r \<longleftrightarrow>
     (\<exists>i \<le> length s. match_here rx (drop i s) False = Some r
        \<and> (\<forall>j < i. match_here rx (drop j s) False = None))"
proof -
  have "re_search rx s = Some r \<longleftrightarrow>
     (\<exists>i < Suc (length s). match_here rx (drop i s) False = Some r
        \<and> (\<forall>j < i. match_here rx (drop j s) False = None))"
    unfolding re_search_def first_some_Some_iff
    by (auto simp del: upt_Suc)
  then show ?thesis by (simp add: less_Suc_eq_le)
qed

lemma re_search_None_iff:
  "re_search rx s = None \<longleftrightarrow> (\<forall>i \<le> length s. match_here rx (drop i s) False = None)"
  unfolding re_search_def first_some_None_iff
  by (auto simp del: upt_Suc simp: less_Suc_eq_le)

lemma match_group_plus:
  "match_here [GroupOpen, Plus P, GroupClose] s ing =
     (if takeWhile P s = [] then None else Some (takeWhile P s, dropWhile P s))"
proof -
  define n where "n = length (takeWhile P s)"
  have tk: "take n s = takeWhile P s" unfolding n_def by (rule takeWhile_eq_take [symmetric])
  have dr: "drop n s = dropWhile P s" unfolding n_def by (rule dropWhile_eq_drop [symmetric])
  have "match_here [GroupOpen, Plus P, GroupClose] s ing =
          first_some (map (\<lambda>k. Some (take k s, drop k s)) (rev [1 ..< Suc n]))"
    by (simp add: n_def del: upt_Suc)
  also have "\<dots> = (if n = 0 then None else Some (take n s, drop n s))"
    by (cases n) simp_all
  also have "\<dots> = (if takeWhile P s = [] then None else Some (takeWhile P s, dropWhile P s))"
    unfolding tk dr by (simp add: n_def)
  finally show ?thesis .
qed

lemma match_tail: "match_here [Lit ''/'', GroupOpen, Plus id_char, GroupClose] s False = id_after s"
  unfolding id_after_def
  by (cases "strip_prefix ''/'' s") (simp_all add: match_group_plus del: match_here.simps(4,6,7))

lemma map_option_pair_id:
  "map_option (\<lambda>(g, rest). (g, rest)) t = t"
  by (cases t) auto

lemma lit_step:
  "match_here (Lit l # r) s False =
     (case strip_prefix l s of None \<Rightarrow> None | Some s' \<Rightarrow> match_here r s' False)"
  by (simp add: option.map_id cong: option.case_cong)

lemma alt_step:
  "match_here (Alt ls # r) s False =
     first_some (map (\<lambda>l. case strip_prefix l s of None \<Rightarrow> None | Some s' \<Rightarrow> match_here r s' False) ls)"
  by (simp add: option.map_id cong: option.case_cong)

lemma match_pattern1:
  "match_here (patterns ! 0) s False =
     (case strip_prefix ''instagram.com/'' s of
        None \<Rightarrow> None
      | Some s1 \<Rightarrow>
          first_some (map (\<lambda>kw. case strip_prefix kw s1 of None \<Rightarrow> None | Some s2 \<Rightarrow> id_after s2)
                       [''p'', ''reel'', ''tv'', ''reels'']))"
  unfolding patterns_def nth_Cons_0
  apply (subst lit_step)
  apply (subst alt_step)
  apply (simp only: match_tail)
  done


lemma first_some_rev_upt:
  assumes "\<forall>k. 1 \<le> k \<and> k < n \<longrightarrow> f k = None"
  shows "first_some (map f (rev [1 ..< Suc n])) = (if n = 0 then None else f n)"
proof (cases n)
  case 0
  then show ?thesis by simp
next
  case (Suc m)
  have rest: "first_some (map f (rev [1 ..< Suc m])) = None"
    unfolding first_some_None_iff using assms Suc by auto
  have "rev [1 ..< Suc (Suc m)] = Suc m # rev [1 ..< Suc m]" by simp
  then have "first_some (map f (rev [1 ..< Suc n])) = first_some (f (Suc m) # map f (rev [1 ..< Suc m]))"
    using Suc by simp
  also have "\<dots> = f (Suc m)" using rest by (cases "f (Suc m)") simp_all
  finally show ?thesis using Suc by simp
qed

lemma plus_step:
  "match_here (Plus P # r) s False =
     first_some (map (\<lambda>k. match_here r (drop k s) False) (rev [1 ..< Suc (length (takeWhile P s))]))"
  by (simp add: option.map_id del: upt_Suc)

lemma drop_in_run:
  assumes "k < length (takeWhile P s)"
  shows "\<exists>c cs. drop k s = c # cs \<and> P c"
proof -
  have "s = takeWhile P s @ dropWhile P s" by simp
  then have "drop k s = drop k (takeWhile P s) @ dropWhile P s"
    using assms by (metis drop_append less_imp_le_nat diff_is_0_eq drop0)
  moreover obtain c cs where c: "drop k (takeWhile P s) = c # cs"
    using assms by (cases "drop k (takeWhile P s)") auto
  moreover have "c \<in> set (takeWhile P s)"
    using c by (metis in_set_dropD list.set_intros(1))
  then have "P c" by (rule set_takeWhileD [THEN conjunct2])
  ultimately show ?thesis by simp
qed

lemma plus_then_slash:
  assumes "\<not> P CHR ''/''"
  shows "match_here (Plus P # Lit ''/'' # r) s False =
     (if takeWhile P s = [] then None
      else case strip_prefix ''/'' (dropWhile P s) of
             None \<Rightarrow> None
           | Some s' \<Rightarrow> match_here r s' False)"
proof -
  define n where "n = length (takeWhile P s)"
  define f where "f = (\<lambda>k. match_here (Lit ''/'' # r) (drop k s) False)"
  have early: "\<forall>k. 1 \<le> k \<and> k < n \<longrightarrow> f k = None"
  proof (intro allI impI)
    fix k assume "1 \<le> k \<and> k < n"
    then obtain c cs where d: "drop k s = c # cs" "P c"
      using drop_in_run [of k P s] by (auto simp: n_def)
    then have "c \<noteq> CHR ''/''" using assms by auto
    then show "f k = None" unfolding f_def lit_step d by simp
  qed
  have "match_here (Plus P # Lit ''/'' # r) s False = first_some (map f (rev [1 ..< Suc n]))"
    unfolding plus_step f_def n_def ..
  also have "\<dots> = (if n = 0 then None else f n)" by (rule first_some_rev_upt [OF early])
  also have "\<dots> = (if takeWhile P s = [] then None
      else case strip_prefix ''/'' (dropWhile P s) of
             None \<Rightarrow> None
           | Some s' \<Rightarrow> match_here r s' False)"
    unfolding f_def lit_step n_def by (simp add: dropWhile_eq_drop [symmetric])
  finally show ?thesis .
qed

lemma slash_not_user_char: "\<not> user_char CHR ''/''"
  by (simp add: user_char_def word_char_def)

lemma match_pattern2:
  "match_here (patterns ! 1) s False =
     (case strip_prefix ''instagram.com/'' s of
        None \<Rightarrow> None
      | Some s1 \<Rightarrow>
          if takeWhile user_char s1 = [] then None
          else case strip_prefix ''/'' (dropWhile user_char s1) of
                 None \<Rightarrow> None
               | Some s2 \<Rightarrow>
                   first_some (map (\<lambda>kw. case strip_prefix kw s2 of None \<Rightarrow> None | Some s3 \<Rightarrow> id_after s3)
                                [''p'', ''reel'']))"
proof -
  have "patterns ! 1 = [Lit ''instagram.com/'', Plus user_char, Lit ''/'', Alt [''p'', ''reel''], Lit ''/'',
        GroupOpen, Plus id_char, GroupClose]"
    by (simp add: patterns_def)
  then show ?thesis
    apply (simp only:)
    apply (subst lit_step)
    apply (subst plus_then_slash [of user_char, OF slash_not_user_char])
    apply (subst alt_step)
    apply (simp only: match_tail)
    done
qed

subsection \<open>The two patterns, by the shape of the text\<close>

lemma takeWhile_run:
  assumes "list_all P g" "rest = [] \<or> \<not> P (hd rest)"
  shows "takeWhile P (g @ rest) = g" "dropWhile P (g @ rest) = rest"
proof -
  have a: "\<forall>x \<in> set g. P x" using assms(1) by (simp add: list_all_iff)
  have b: "takeWhile P rest = []" using assms(2) by (cases rest) auto
  have c: "dropWhile P rest = rest" using assms(2) by (cases rest) auto
  show "takeWhile P (g @ rest) = g" using a b by (simp add: takeWhile_append2)
  show "dropWhile P (g @ rest) = rest" using a c by (simp add: dropWhile_append2)
qed

lemma id_after_run:
  assumes "seg \<noteq> []" "list_all id_char seg" "rest = [] \<or> \<not> id_char (hd rest)"
  shows "id_after (''/'' @ seg @ rest) = Some (seg, rest)"
  using assms takeWhile_run [of id_char seg rest] by (simp add: id_after_def)

lemma id_after_Some_iff:
  "id_after s \<noteq> None \<longleftrightarrow> (\<exists>seg rest. s = ''/'' @ seg @ rest \<and> seg \<noteq> [] \<and> list_all id_char seg)"
proof
  assume "id_after s \<noteq> None"
  then obtain s' where s': "strip_prefix ''/'' s = Some s'" "takeWhile id_char s' \<noteq> []"
    by (auto simp: id_after_def split: option.splits if_splits)
  then have "s = ''/'' @ takeWhile id_char s' @ dropWhile id_char s'"
    by (simp add: strip_prefix_Some_iff)
  moreover have "list_all id_char (takeWhile id_char s')"
    by (auto simp: list_all_iff dest: set_takeWhileD)
  ultimately show "\<exists>seg rest. s = ''/'' @ seg @ rest \<and> seg \<noteq> [] \<and> list_all id_char seg"
    using s'(2) by blast
next
  assume "\<exists>seg rest. s = ''/'' @ seg @ rest \<and> seg \<noteq> [] \<and> list_all id_char seg"
  then obtain seg rest where e: "s = ''/'' @ seg @ rest" "seg \<noteq> []" "list_all id_char seg" by blast
  then obtain c cs where "seg = c # cs" "id_char c" by (cases seg) auto
  then have "takeWhile id_char (seg @ rest) \<noteq> []" by simp
  then show "id_after s \<noteq> None" using e(1) by (simp add: id_after_def)
qed

lemma id_after_slash: "id_after s \<noteq> None \<Longrightarrow> \<exists>t. s = CHR ''/'' # t"
  by (auto simp: id_after_def strip_prefix_Some_iff split: option.splits)

text \<open>The keyword alternatives.\<close>

lemma kw_match1:
  assumes "kw \<in> {''p'', ''reel'', ''tv'', ''reels''}" "id_after t = Some r"
  shows "first_some (map (\<lambda>k. case strip_prefix k (kw @ t) of None \<Rightarrow> None | Some s2 \<Rightarrow> id_after s2)
                       [''p'', ''reel'', ''tv'', ''reels'']) = Some r"
proof -
  obtain t' where t: "t = CHR ''/'' # t'" using assms(2) id_after_slash [of t] by auto
  have n: "id_after (CHR ''s'' # x) = None" for x by (simp add: id_after_def)
  show ?thesis
    using assms unfolding t
    by (auto simp: n)
qed

lemma kw_match2:
  assumes "kw \<in> {''p'', ''reel''}" "id_after t = Some r"
  shows "first_some (map (\<lambda>k. case strip_prefix k (kw @ t) of None \<Rightarrow> None | Some s2 \<Rightarrow> id_after s2)
                       [''p'', ''reel'']) = Some r"
proof -
  obtain t' where t: "t = CHR ''/'' # t'" using assms(2) id_after_slash [of t] by auto
  show ?thesis
    using assms unfolding t
    by auto
qed

lemma kw_match_Some:
  assumes "first_some (map (\<lambda>k. case strip_prefix k s of None \<Rightarrow> None | Some s2 \<Rightarrow> id_after s2) kws) = Some r"
  shows "\<exists>kw t. kw \<in> set kws \<and> s = kw @ t \<and> id_after t = Some r"
  using assms
proof (induction kws)
  case Nil
  then show ?case by simp
next
  case (Cons k kws)
  show ?case
  proof (cases "case strip_prefix k s of None \<Rightarrow> None | Some s2 \<Rightarrow> id_after s2")
    case None
    with Cons.prems have "first_some (map (\<lambda>k. case strip_prefix k s of None \<Rightarrow> None | Some s2 \<Rightarrow> id_after s2) kws) = Some r"
      by simp
    from Cons.IH [OF this] show ?thesis by auto
  next
    case (Some a)
    with Cons.prems have "a = r" by simp
    with Some obtain t where "strip_prefix k s = Some t" "id_after t = Some r"
      by (auto split: option.splits)
    then show ?thesis by (auto simp: strip_prefix_Some_iff)
  qed
qed


lemma patterns_list: "patterns = [patterns ! 0, patterns ! 1]"
  by (simp add: patterns_def)

lemma extract_unfold:
  "extract_instagram_shortcode url =
     (case re_search (patterns ! 0) url of
        Some (g, rest) \<Rightarrow> Some g
      | None \<Rightarrow> (case re_search (patterns ! 1) url of Some (g, rest) \<Rightarrow> Some g | None \<Rightarrow> None))"
  unfolding extract_instagram_shortcode_def
  by (subst patterns_list) (simp del: One_nat_def split: option.splits)

lemma no_literal_no_match:
  assumes "\<not> occurs_at ''instagram.com/'' url j"
  shows "match_here (patterns ! 0) (drop j url) False = None"
    and "match_here (patterns ! 1) (drop j url) False = None"
  using assms unfolding occurs_at_def match_pattern1 match_pattern2 by simp_all

lemma match1_at:
  assumes "kw \<in> {''p'', ''reel'', ''tv'', ''reels''}" "seg \<noteq> []" "list_all id_char seg"
    "rest = [] \<or> \<not> id_char (hd rest)"
  shows "match_here (patterns ! 0) (''instagram.com/'' @ kw @ ''/'' @ seg @ rest) False = Some (seg, rest)"
proof -
  have "strip_prefix ''instagram.com/'' (''instagram.com/'' @ kw @ ''/'' @ seg @ rest)
          = Some (kw @ ''/'' @ seg @ rest)"
    by (rule strip_prefix_append)
  moreover have "first_some (map (\<lambda>k. case strip_prefix k (kw @ ''/'' @ seg @ rest) of
                                None \<Rightarrow> None | Some s2 \<Rightarrow> id_after s2)
                       [''p'', ''reel'', ''tv'', ''reels'']) = Some (seg, rest)"
    by (rule kw_match1 [OF assms(1) id_after_run [OF assms(2,3,4)]])
  ultimately show ?thesis unfolding match_pattern1 by (simp only: option.case)
qed

lemma shape1_extract:
  assumes url: "url = pre @ ''instagram.com/'' @ kw @ ''/'' @ seg @ rest"
    and kw: "kw \<in> {''p'', ''reel'', ''tv'', ''reels''}"
    and seg: "seg \<noteq> []" "list_all id_char seg" "rest = [] \<or> \<not> id_char (hd rest)"
    and first: "\<forall>j < length pre. \<not> occurs_at ''instagram.com/'' url j"
  shows "extract_instagram_shortcode url = Some seg"
proof -
  have here: "match_here (patterns ! 0) (drop (length pre) url) False = Some (seg, rest)"
    unfolding url using match1_at [OF kw seg] by simp
  have before: "\<forall>j < length pre. match_here (patterns ! 0) (drop j url) False = None"
    using first no_literal_no_match(1) by blast
  have "length pre \<le> length url" unfolding url by simp
  with here before have "re_search (patterns ! 0) url = Some (seg, rest)"
    unfolding re_search_Some_iff by blast
  then show ?thesis unfolding extract_unfold by simp
qed

text \<open>Two texts that agree up to their first slash.\<close>

lemma same_up_to_slash:
  assumes "a @ CHR ''/'' # x = b @ CHR ''/'' # y" "CHR ''/'' \<notin> set a" "CHR ''/'' \<notin> set b"
  shows "a = b"
proof -
  have na: "\<forall>c \<in> set a. c \<noteq> CHR ''/''" and nb: "\<forall>c \<in> set b. c \<noteq> CHR ''/''"
    using assms(2,3) by auto
  have "takeWhile (\<lambda>c. c \<noteq> CHR ''/'') (a @ CHR ''/'' # x) = a"
    using na by (induction a) auto
  moreover have "takeWhile (\<lambda>c. c \<noteq> CHR ''/'') (b @ CHR ''/'' # y) = b"
    using nb by (induction b) auto
  ultimately show ?thesis using assms(1) by simp
qed

lemma user_no_slash: "list_all user_char user \<Longrightarrow> CHR ''/'' \<notin> set user"
  using slash_not_user_char by (auto simp: list_all_iff)

lemma match1_user_None:
  assumes user: "list_all user_char user" "user \<notin> {''p'', ''reel'', ''tv'', ''reels''}"
  shows "match_here (patterns ! 0) (''instagram.com/'' @ user @ ''/'' @ t) False = None"
proof (rule ccontr)
  assume "match_here (patterns ! 0) (''instagram.com/'' @ user @ ''/'' @ t) False \<noteq> None"
  then obtain r where
    "first_some (map (\<lambda>k. case strip_prefix k (user @ ''/'' @ t) of None \<Rightarrow> None | Some s2 \<Rightarrow> id_after s2)
                  [''p'', ''reel'', ''tv'', ''reels'']) = Some r"
    unfolding match_pattern1 by (auto simp only: strip_prefix_append option.case)
  from kw_match_Some [OF this] obtain kw t' where
    k: "kw \<in> set [''p'', ''reel'', ''tv'', ''reels'']" "user @ ''/'' @ t = kw @ t'" "id_after t' = Some r"
    by blast
  from k(3) obtain t'' where "t' = CHR ''/'' # t''" using id_after_slash [of t'] by auto
  with k(2) have "user @ CHR ''/'' # t = kw @ CHR ''/'' # t''" by simp
  moreover have "CHR ''/'' \<notin> set kw" using k(1) by auto
  ultimately have "user = kw" using same_up_to_slash user_no_slash [OF user(1)] by blast
  with k(1) user(2) show False by simp
qed

lemma match2_at:
  assumes user: "user \<noteq> []" "list_all user_char user"
    and kw: "kw \<in> {''p'', ''reel''}"
    and seg: "seg \<noteq> []" "list_all id_char seg" "rest = [] \<or> \<not> id_char (hd rest)"
  shows "match_here (patterns ! 1) (''instagram.com/'' @ user @ ''/'' @ kw @ ''/'' @ seg @ rest) False
           = Some (seg, rest)"
proof -
  let ?tail = "''/'' @ kw @ ''/'' @ seg @ rest"
  have run: "takeWhile user_char (user @ ?tail) = user" "dropWhile user_char (user @ ?tail) = ?tail"
    using takeWhile_run [of user_char user ?tail] user(2) slash_not_user_char by simp_all
  have s1: "strip_prefix ''instagram.com/'' (''instagram.com/'' @ user @ ?tail) = Some (user @ ?tail)"
    by (rule strip_prefix_append)
  have s2: "strip_prefix ''/'' ?tail = Some (kw @ ''/'' @ seg @ rest)"
    by (rule strip_prefix_append)
  have k: "first_some (map (\<lambda>k. case strip_prefix k (kw @ ''/'' @ seg @ rest) of
                                None \<Rightarrow> None | Some s2 \<Rightarrow> id_after s2)
                       [''p'', ''reel'']) = Some (seg, rest)"
    by (rule kw_match2 [OF kw id_after_run [OF seg]])
  show ?thesis
    unfolding match_pattern2 s1 option.case run s2 k using user(1) by simp
qed

lemma shape2_extract:
  assumes url: "url = pre @ ''instagram.com/'' @ user @ ''/'' @ kw @ ''/'' @ seg @ rest"
    and user: "user \<noteq> []" "list_all user_char user" "user \<notin> {''p'', ''reel'', ''tv'', ''reels''}"
    and kw: "kw \<in> {''p'', ''reel''}"
    and seg: "seg \<noteq> []" "list_all id_char seg" "rest = [] \<or> \<not> id_char (hd rest)"
    and only: "\<forall>j \<le> length url. j \<noteq> length pre \<longrightarrow> \<not> occurs_at ''instagram.com/'' url j"
  shows "extract_instagram_shortcode url = Some seg"
proof -
  have len: "length pre \<le> length url" unfolding url by simp
  have d: "drop (length pre) url = ''instagram.com/'' @ user @ ''/'' @ kw @ ''/'' @ seg @ rest"
    unfolding url by simp
  have "match_here (patterns ! 0) (drop j url) False = None" if "j \<le> length url" for j
  proof (cases "j = length pre")
    case True
    have "match_here (patterns ! 0) (drop (length pre) url) False = None"
      unfolding d by (rule match1_user_None [OF user(2,3)])
    with True show ?thesis by (simp only:)
  next
    case False
    with only that show ?thesis using no_literal_no_match(1) by blast
  qed
  then have none1: "re_search (patterns ! 0) url = None"
    unfolding re_search_None_iff by blast
  have here: "match_here (patterns ! 1) (drop (length pre) url) False = Some (seg, rest)"
    unfolding d by (rule match2_at [OF user(1,2) kw seg])
  have before: "\<forall>j < length pre. match_here (patterns ! 1) (drop j url) False = None"
  proof (intro allI impI)
    fix j assume j: "j < length pre"
    then have "j \<le> length url" "j \<noteq> length pre" using len by simp_all
    with only have "\<not> occurs_at ''instagram.com/'' url j" by blast
    then show "match_here (patterns ! 1) (drop j url) False = None"
      by (rule no_literal_no_match(2))
  qed
  from here before len have "re_search (patterns ! 1) url = Some (seg, rest)"
    unfolding re_search_Some_iff by blast
  with none1 show ?thesis unfolding extract_unfold by simp
qed

lemma run_split:
  assumes "seg \<noteq> []" "list_all P seg"
  shows "\<exists>seg' rest'. seg @ rest = seg' @ rest' \<and> seg' \<noteq> [] \<and> list_all P seg'
           \<and> (rest' = [] \<or> \<not> P (hd rest'))"
proof -
  obtain c cs where "seg = c # cs" "P c" using assms by (cases seg) auto
  then have ne: "takeWhile P (seg @ rest) \<noteq> []" by simp
  have all: "list_all P (takeWhile P (seg @ rest))"
    by (auto simp: list_all_iff dest: set_takeWhileD)
  have stop: "dropWhile P (seg @ rest) = [] \<or> \<not> P (hd (dropWhile P (seg @ rest)))"
    using hd_dropWhile [of P "seg @ rest"] by blast
  have "seg @ rest = takeWhile P (seg @ rest) @ dropWhile P (seg @ rest)" by simp
  with ne all stop show ?thesis by blast
qed

lemma match1_Some_iff:
  "match_here (patterns ! 0) s False \<noteq> None \<longleftrightarrow>
     (\<exists>kw seg rest. s = ''instagram.com/'' @ kw @ ''/'' @ seg @ rest
        \<and> kw \<in> {''p'', ''reel'', ''tv'', ''reels''} \<and> seg \<noteq> [] \<and> list_all id_char seg)"
proof
  assume "match_here (patterns ! 0) s False \<noteq> None"
  then obtain s1 r where s1: "strip_prefix ''instagram.com/'' s = Some s1"
    and r: "first_some (map (\<lambda>k. case strip_prefix k s1 of None \<Rightarrow> None | Some s2 \<Rightarrow> id_after s2)
                  [''p'', ''reel'', ''tv'', ''reels'']) = Some r"
    unfolding match_pattern1 by (auto split: option.splits)
  from kw_match_Some [OF r] obtain kw t where
    k: "kw \<in> set [''p'', ''reel'', ''tv'', ''reels'']" "s1 = kw @ t" "id_after t = Some r" by blast
  from k(3) obtain seg rest where t: "t = ''/'' @ seg @ rest" "seg \<noteq> []" "list_all id_char seg"
    using id_after_Some_iff [of t] by auto
  have "s = ''instagram.com/'' @ kw @ ''/'' @ seg @ rest"
    using s1 k(2) t(1) by (simp add: strip_prefix_Some_iff)
  with k(1) t(2,3) show "\<exists>kw seg rest. s = ''instagram.com/'' @ kw @ ''/'' @ seg @ rest
        \<and> kw \<in> {''p'', ''reel'', ''tv'', ''reels''} \<and> seg \<noteq> [] \<and> list_all id_char seg"
    by auto
next
  assume "\<exists>kw seg rest. s = ''instagram.com/'' @ kw @ ''/'' @ seg @ rest
        \<and> kw \<in> {''p'', ''reel'', ''tv'', ''reels''} \<and> seg \<noteq> [] \<and> list_all id_char seg"
  then obtain kw seg rest where e: "s = ''instagram.com/'' @ kw @ ''/'' @ seg @ rest"
    "kw \<in> {''p'', ''reel'', ''tv'', ''reels''}" "seg \<noteq> []" "list_all id_char seg" by blast
  from run_split [OF e(3,4), of rest] obtain seg' rest' where
    r: "seg @ rest = seg' @ rest'" "seg' \<noteq> []" "list_all id_char seg'"
       "rest' = [] \<or> \<not> id_char (hd rest')" by blast
  have "s = ''instagram.com/'' @ kw @ ''/'' @ seg' @ rest'" using e(1) r(1) by simp
  then show "match_here (patterns ! 0) s False \<noteq> None"
    using match1_at [OF e(2) r(2,3,4)] by simp
qed

lemma match2_Some_iff:
  "match_here (patterns ! 1) s False \<noteq> None \<longleftrightarrow>
     (\<exists>user kw seg rest. s = ''instagram.com/'' @ user @ ''/'' @ kw @ ''/'' @ seg @ rest
        \<and> user \<noteq> [] \<and> list_all user_char user
        \<and> kw \<in> {''p'', ''reel''} \<and> seg \<noteq> [] \<and> list_all id_char seg)"
proof
  assume "match_here (patterns ! 1) s False \<noteq> None"
  then obtain s1 s2 r where s1: "strip_prefix ''instagram.com/'' s = Some s1"
    and u: "takeWhile user_char s1 \<noteq> []"
    and s2: "strip_prefix ''/'' (dropWhile user_char s1) = Some s2"
    and r: "first_some (map (\<lambda>k. case strip_prefix k s2 of None \<Rightarrow> None | Some s3 \<Rightarrow> id_after s3)
                  [''p'', ''reel'']) = Some r"
    unfolding match_pattern2 by (auto split: option.splits if_splits)
  from kw_match_Some [OF r] obtain kw t where
    k: "kw \<in> set [''p'', ''reel'']" "s2 = kw @ t" "id_after t = Some r" by blast
  from k(3) obtain seg rest where t: "t = ''/'' @ seg @ rest" "seg \<noteq> []" "list_all id_char seg"
    using id_after_Some_iff [of t] by auto
  have "s1 = takeWhile user_char s1 @ dropWhile user_char s1" by simp
  also have "dropWhile user_char s1 = ''/'' @ kw @ ''/'' @ seg @ rest"
    using s2 k(2) t(1) by (simp add: strip_prefix_Some_iff)
  finally have "s = ''instagram.com/'' @ takeWhile user_char s1 @ ''/'' @ kw @ ''/'' @ seg @ rest"
    using s1 by (simp add: strip_prefix_Some_iff)
  moreover have "list_all user_char (takeWhile user_char s1)"
    by (auto simp: list_all_iff dest: set_takeWhileD)
  ultimately show "\<exists>user kw seg rest. s = ''instagram.com/'' @ user @ ''/'' @ kw @ ''/'' @ seg @ rest
        \<and> user \<noteq> [] \<and> list_all user_char user
        \<and> kw \<in> {''p'', ''reel''} \<and> seg \<noteq> [] \<and> list_all id_char seg"
    using u k(1) t(2,3) by auto
next
  assume "\<exists>user kw seg rest. s = ''instagram.com/'' @ user @ ''/'' @ kw @ ''/'' @ seg @ rest
        \<and> user \<noteq> [] \<and> list_all user_char user
        \<and> kw \<in> {''p'', ''reel''} \<and> seg \<noteq> [] \<and> list_all id_char seg"
  then obtain user kw seg rest where
    e: "s = ''instagram.com/'' @ user @ ''/'' @ kw @ ''/'' @ seg @ rest"
    "user \<noteq> []" "list_all user_char user"
    "kw \<in> {''p'', ''reel''}" "seg \<noteq> []" "list_all id_char seg" by blast
  from run_split [OF e(5,6), of rest] obtain seg' rest' where
    r: "seg @ rest = seg' @ rest'" "seg' \<noteq> []" "list_all id_char seg'"
       "rest' = [] \<or> \<not> id_char (hd rest')" by blast
  have "s = ''instagram.com/'' @ user @ ''/'' @ kw @ ''/'' @ seg' @ rest'" using e(1) r(1) by simp
  then show "match_here (patterns ! 1) s False \<noteq> None"
    using match2_at [OF e(2,3,4) r(2,3,4)] by simp
qed

lemma somewhere_iff:
  "(\<exists>i \<le> length url. P (drop i url)) \<longleftrightarrow> (\<exists>pre s. url = pre @ s \<and> P s)"
proof
  assume "\<exists>i \<le> length url. P (drop i url)"
  then obtain i where "P (drop i url)" by blast
  moreover have "url = take i url @ drop i url" by simp
  ultimately show "\<exists>pre s. url = pre @ s \<and> P s" by blast
next
  assume "\<exists>pre s. url = pre @ s \<and> P s"
  then obtain pre s where "url = pre @ s" "P s" by blast
  then have "length pre \<le> length url" "P (drop (length pre) url)" by simp_all
  then show "\<exists>i \<le> length url. P (drop i url)" by blast
qed

lemma re_search_Some_somewhere:
  "re_search rx url \<noteq> None \<longleftrightarrow> (\<exists>pre s. url = pre @ s \<and> match_here rx s False \<noteq> None)"
proof -
  have t1: "re_search rx url \<noteq> None \<longleftrightarrow>
              \<not> (\<forall>i \<le> length url. match_here rx (drop i url) False = None)"
    by (simp only: re_search_None_iff)
  have t2: "\<not> (\<forall>i \<le> length url. match_here rx (drop i url) False = None) \<longleftrightarrow>
              (\<exists>i \<le> length url. match_here rx (drop i url) False \<noteq> None)"
    by simp
  have t3: "(\<exists>i \<le> length url. match_here rx (drop i url) False \<noteq> None) \<longleftrightarrow>
              (\<exists>pre s. url = pre @ s \<and> match_here rx s False \<noteq> None)"
    by (rule somewhere_iff [of url "\<lambda>s. match_here rx s False \<noteq> None"])
  from t1 t2 t3 show ?thesis by (simp only:)
qed

lemma extract_None_iff:
  "extract_instagram_shortcode url = None \<longleftrightarrow>
     \<not> (\<exists>pre kw seg rest. url = pre @ ''instagram.com/'' @ kw @ ''/'' @ seg @ rest
           \<and> kw \<in> {''p'', ''reel'', ''tv'', ''reels''} \<and> seg \<noteq> [] \<and> list_all id_char seg)
   \<and> \<not> (\<exists>pre user kw seg rest. url = pre @ ''instagram.com/'' @ user @ ''/'' @ kw @ ''/'' @ seg @ rest
           \<and> user \<noteq> [] \<and> list_all user_char user
           \<and> kw \<in> {''p'', ''reel''} \<and> seg \<noteq> [] \<and> list_all id_char seg)"
  (is "?lhs \<longleftrightarrow> \<not> ?A \<and> \<not> ?B")
proof -
  have split: "?lhs \<longleftrightarrow> re_search (patterns ! 0) url = None \<and> re_search (patterns ! 1) url = None"
    unfolding extract_unfold by (auto split: option.splits)
  have a: "re_search (patterns ! 0) url \<noteq> None \<longleftrightarrow> ?A"
  proof
    assume "re_search (patterns ! 0) url \<noteq> None"
    then obtain pre s where s: "url = pre @ s" "match_here (patterns ! 0) s False \<noteq> None"
      unfolding re_search_Some_somewhere by blast
    from s(2) obtain kw seg rest where "s = ''instagram.com/'' @ kw @ ''/'' @ seg @ rest"
      "kw \<in> {''p'', ''reel'', ''tv'', ''reels''}" "seg \<noteq> []" "list_all id_char seg"
      unfolding match1_Some_iff by blast
    with s(1) show ?A by blast
  next
    assume ?A
    then obtain pre kw seg rest where e: "url = pre @ ''instagram.com/'' @ kw @ ''/'' @ seg @ rest"
      "kw \<in> {''p'', ''reel'', ''tv'', ''reels''}" "seg \<noteq> []" "list_all id_char seg" by blast
    then have "match_here (patterns ! 0) (''instagram.com/'' @ kw @ ''/'' @ seg @ rest) False \<noteq> None"
      unfolding match1_Some_iff by blast
    with e(1) show "re_search (patterns ! 0) url \<noteq> None"
      unfolding re_search_Some_somewhere by blast
  qed
  have b: "re_search (patterns ! 1) url \<noteq> None \<longleftrightarrow> ?B"
  proof
    assume "re_search (patterns ! 1) url \<noteq> None"
    then obtain pre s where s: "url = pre @ s" "match_here (patterns ! 1) s False \<noteq> None"
      unfolding re_search_Some_somewhere by blast
    from s(2) obtain user kw seg rest where
      "s = ''instagram.com/'' @ user @ ''/'' @ kw @ ''/'' @ seg @ rest"
      "user \<noteq> []" "list_all user_char user"
      "kw \<in> {''p'', ''reel''}" "seg \<noteq> []" "list_all id_char seg"
      unfolding match2_Some_iff by blast
    with s(1) show ?B by blast
  next
    assume ?B
    then obtain pre user kw seg rest where
      e: "url = pre @ ''instagram.com/'' @ user @ ''/'' @ kw @ ''/'' @ seg @ rest"
      "user \<noteq> []" "list_all user_char user"
      "kw \<in> {''p'', ''reel''}" "seg \<noteq> []" "list_all id_char seg" by blast
    then have "match_here (patterns ! 1) (''instagram.com/'' @ user @ ''/'' @ kw @ ''/'' @ seg @ rest) False
                 \<noteq> None"
      unfolding match2_Some_iff by blast
    with e(1) show "re_search (patterns ! 1) url \<noteq> None"
      unfolding re_search_Some_somewhere by blast
  qed
  from split a b show ?thesis by blast
qed

section \<open>Facts about the strategies\<close>

lemmas io_defs =
  bind_def ret_def lift_def logger_def get_random_user_agent_def http_get_def open_wb_def
  write_chunk_def save_stream_def path_exists_def getsize_def extract_info_def ebind_def
  py_str_def path_join_def catch_json_decode_def call_def

lemma sample_env_sel:
  "download_dir sample_env = ''/app/downloads''"
  "random_index sample_env x = (0, x)"
  "ydl_extract_info sample_env opts url (f, x) =
     (if url = ''https://instagram.com/reel/ABC123xyz/''
         then (Inr (JObj [(''id'', JStr ''ABC123xyz''), (''ext'', JStr ''mp4''), (''title'', JStr ''A reel'')]),
               f(''/app/downloads/ABC123xyz.mp4'' \<mapsto> File ''video''), x)
         else (Inl (DownloadError ''blocked''), f, x))"
  "requests_get sample_env u headers stream timeout x = (Inr (sample_get u), x @ [u])"
  "json_loads sample_env s = (if s = sample_block
                          then Inr (JObj [(''video'', JObj [(''contentUrl'', JStr ''https://cdn/v'')])])
                          else Inl JSONDecodeError)"
  "open_fault sample_env path x = (None, x)"
  "write_fault sample_env path chunk x = (None, x)"
  "exn_str sample_env e = (case e of DownloadError m \<Rightarrow> m | OSError m \<Rightarrow> m | OtherError m \<Rightarrow> m | _ \<Rightarrow> ''error'')"
  "value_str sample_env v = ''value''"
  by (simp_all add: sample_env_def)

lemmas sample_defs =
  sample_env_sel sample_world_def sample_get_def sample_response_def sample_video_json_def
  sample_block_def USER_AGENTS_def Let_def

lemma bindE:
  assumes "bind m f w = (Inr b, w')"
  obtains a w1 where "m w = (Inr a, w1)" "f a w1 = (Inr b, w')"
  using assms by (auto simp: bind_def split: prod.splits sum.splits)

lemma lift_Inr [simp]: "lift x w = (Inr b, w') \<longleftrightarrow> x = Inr b \<and> w' = w"
  by (auto simp: lift_def)

lemma ret_Inr [simp]: "ret a w = (Inr b, w') \<longleftrightarrow> b = a \<and> w' = w"
  by (auto simp: ret_def)

lemma logger_fs:
  "logger lvl msg w = (r, w') \<Longrightarrow> fs w' = fs w \<and> ext w' = ext w"
  by (auto simp: logger_def)

lemma write_chunks_file:
  assumes "write_chunks E path cs err w = (Inr u, w')" "fs w path = Some (File c)"
  shows "fs w' path = Some (File (c @ concat cs))"
  using assms
proof (induction cs arbitrary: w c)
  case Nil
  then show ?case by (auto split: option.splits)
next
  case (Cons x xs)
  from Cons.prems(1) obtain u1 w1 where
    s: "write_chunk E path x w = (Inr u1, w1)" "write_chunks E path xs err w1 = (Inr u, w')"
    by (auto elim: bindE)
  from s(1) Cons.prems(2) have "fs w1 path = Some (File (c @ x))"
    by (auto simp: write_chunk_def split: prod.splits option.splits)
  from Cons.IH [OF s(2) this] show ?case by simp
qed

lemma save_stream_file:
  assumes "save_stream E path vr w = (Inr u, w')"
  shows "fs w' path = Some (File (concat (chunks vr)))"
proof -
  from assms obtain u1 w1 where
    s: "open_wb E path w = (Inr u1, w1)"
       "write_chunks E path (chunks vr) (chunks_error vr) w1 = (Inr u, w')"
    unfolding save_stream_def by (auto elim: bindE)
  from s(1) have "fs w1 path = Some (File [])"
    by (auto simp: open_wb_def split: option.splits node.splits prod.splits)
  from write_chunks_file [OF s(2) this] show ?thesis by simp
qed

lemma catch_json_decode_Return:
  assumes "catch_json_decode body handler w = (Inr (Return r), w')"
    and "\<And>w1 w2. handler w1 \<noteq> (Inr (Return r), w2)"
  shows "body w = (Inr (Return r), w')"
  using assms
  by (auto simp: catch_json_decode_def split: prod.splits sum.splits exn.splits)

lemma try_api_url_Return:
  assumes "try_api_url E shortcode headers api_url w = (Inr (Return r), w')"
  shows "\<exists>media author caption.
           find_author media = Inr author \<and> find_caption media = Inr caption
         \<and> r = api_result shortcode (path_join (download_dir E) (shortcode @ ''.mp4''))
                  (shortcode @ ''.mp4'') author caption
         \<and> (\<exists>c. fs w' (path_join (download_dir E) (shortcode @ ''.mp4'')) = Some (File c))"
proof -
  from assms obtain response w1 where
    g: "http_get E (JStr api_url) headers False 30 w = (Inr response, w1)"
    and rest: "(if status_code response = 200
       then catch_json_decode
         (bind (lift (json_result response)) (\<lambda>data.
          bind (lift (resolve_media data)) (\<lambda>found.
            case found of
              None \<Rightarrow> ret Next
            | Some media \<Rightarrow>
                bind (lift (find_video_url media)) (\<lambda>video_url.
                  if py_truthy video_url
                  then bind (lift (find_caption media)) (\<lambda>caption.
                       bind (lift (find_author media)) (\<lambda>author.
                       bind (http_get E video_url headers True 60) (\<lambda>video_response.
                         if status_code video_response = 200
                         then (let filename = shortcode @ ''.mp4'';
                                   filepath = path_join (download_dir E) filename
                               in bind (save_stream E filepath video_response) (\<lambda>_.
                                  bind (logger INFO
                                          (''Successfully downloaded via direct API: '' @ filename)) (\<lambda>_.
                                  ret (Return (api_result shortcode filepath filename author caption)))))
                         else ret Next)))
                  else ret Next))))
         (bind (logger WARNING (''Failed to parse JSON from '' @ api_url)) (\<lambda>_. ret Next))
       else ret Next) w1 = (Inr (Return r), w')"
    unfolding try_api_url_def by (erule bindE)
  have h: "\<And>w1 w2. bind (logger WARNING (''Failed to parse JSON from '' @ api_url)) (\<lambda>_. ret Next) w1
              \<noteq> (Inr (Return r), w2)"
    by (auto simp: bind_def logger_def ret_def)
  from rest have st: "status_code response = 200" by (auto split: if_splits)
  with rest have "catch_json_decode
         (bind (lift (json_result response)) (\<lambda>data.
          bind (lift (resolve_media data)) (\<lambda>found.
            case found of
              None \<Rightarrow> ret Next
            | Some media \<Rightarrow>
                bind (lift (find_video_url media)) (\<lambda>video_url.
                  if py_truthy video_url
                  then bind (lift (find_caption media)) (\<lambda>caption.
                       bind (lift (find_author media)) (\<lambda>author.
                       bind (http_get E video_url headers True 60) (\<lambda>video_response.
                         if status_code video_response = 200
                         then (let filename = shortcode @ ''.mp4'';
                                   filepath = path_join (download_dir E) filename
                               in bind (save_stream E filepath video_response) (\<lambda>_.
                                  bind (logger INFO
                                          (''Successfully downloaded via direct API: '' @ filename)) (\<lambda>_.
                                  ret (Return (api_result shortcode filepath filename author caption)))))
                         else ret Next)))
                  else ret Next))))
         (bind (logger WARNING (''Failed to parse JSON from '' @ api_url)) (\<lambda>_. ret Next)) w1
       = (Inr (Return r), w')" by simp
  from catch_json_decode_Return [OF this h]
  show ?thesis
    apply -
    apply (erule bindE)
    apply (erule bindE)
    apply (simp split: option.splits)
    apply (erule bindE)
    apply (simp split: if_splits)
    apply (erule bindE)
    apply (erule bindE)
    apply (erule bindE)
    apply (simp split: if_splits add: Let_def)
    apply (erule bindE)
    apply (erule bindE)
    apply (clarsimp dest!: save_stream_file logger_fs)
    apply blast
    done
qed


lemma for_api_urls_result:
  assumes "for_api_urls E shortcode headers urls w = (Inr r, w')" "r \<noteq> JNull"
  shows "\<exists>media author caption.
           find_author media = Inr author \<and> find_caption media = Inr caption
         \<and> r = api_result shortcode (path_join (download_dir E) (shortcode @ ''.mp4''))
                  (shortcode @ ''.mp4'') author caption
         \<and> (\<exists>c. fs w' (path_join (download_dir E) (shortcode @ ''.mp4'')) = Some (File c))"
  using assms
proof (induction urls arbitrary: w)
  case Nil
  then show ?case by simp
next
  case (Cons u us)
  from Cons.prems(1) obtain fl w1 where
    s: "try_api_url E shortcode headers u w = (Inr fl, w1)"
       "(case fl of Return r \<Rightarrow> ret r | Next \<Rightarrow> for_api_urls E shortcode headers us) w1 = (Inr r, w')"
    by (auto elim: bindE)
  show ?case
  proof (cases fl)
    case Next
    with s(2) have "for_api_urls E shortcode headers us w1 = (Inr r, w')" by simp
    from Cons.IH [OF this Cons.prems(2)] show ?thesis .
  next
    case (Return x)
    with s(2) have "x = r" "w1 = w'" by simp_all
    with s(1) Return show ?thesis using try_api_url_Return by blast
  qed
qed

lemma requests_success:
  assumes "download_with_requests E url shortcode w = (r, w')" "r \<noteq> JNull"
  shows "\<exists>media author caption.
           find_author media = Inr author \<and> find_caption media = Inr caption
         \<and> r = api_result shortcode (path_join (download_dir E) (shortcode @ ''.mp4''))
                  (shortcode @ ''.mp4'') author caption
         \<and> (\<exists>c. fs w' (path_join (download_dir E) (shortcode @ ''.mp4'')) = Some (File c))"
proof -
  from assms have t: "requests_try E url shortcode w = (Inr r, w')"
    unfolding download_with_requests_def by (auto split: prod.splits sum.splits)
  then obtain u1 w1 ua w2 where
    "logger INFO (''Attempting direct API method for '' @ shortcode) w = (Inr u1, w1)"
    "get_random_user_agent E w1 = (Inr ua, w2)"
    "for_api_urls E shortcode (api_headers ua shortcode) (api_urls shortcode) w2 = (Inr r, w')"
    unfolding requests_try_def by (auto elim!: bindE)
  from for_api_urls_result [OF this(3) assms(2)] show ?thesis .
qed

lemma try_ld_block_Return:
  assumes "try_ld_block E shortcode headers match w = (Inr (Return r), w')"
  shows "\<exists>data. html_result data (path_join (download_dir E) (shortcode @ ''.mp4''))
                    (shortcode @ ''.mp4'') = Inr r
         \<and> (\<exists>c. fs w' (path_join (download_dir E) (shortcode @ ''.mp4'')) = Some (File c))"
proof -
  have h: "\<And>w1 w2. (ret Next :: (flow, 'a) io) w1 \<noteq> (Inr (Return r), w2)"
    by (auto simp: ret_def)
  from catch_json_decode_Return [OF assms [unfolded try_ld_block_def] h]
  show ?thesis
    apply -
    apply (erule bindE)
    apply (erule bindE)
    apply (erule bindE)
    apply (simp split: if_splits)
    apply (erule bindE)
    apply (simp split: if_splits)
    apply (erule bindE)
    apply (simp split: if_splits add: Let_def)
    apply (erule bindE)
    apply (erule bindE)
    apply (erule bindE)
    apply (clarsimp dest!: save_stream_file logger_fs)
    apply blast
    done
qed

lemma for_matches_result:
  assumes "for_matches E shortcode headers ms w = (Inr r, w')" "r \<noteq> JNull"
  shows "\<exists>data. html_result data (path_join (download_dir E) (shortcode @ ''.mp4''))
                    (shortcode @ ''.mp4'') = Inr r
         \<and> (\<exists>c. fs w' (path_join (download_dir E) (shortcode @ ''.mp4'')) = Some (File c))"
  using assms
proof (induction ms arbitrary: w)
  case Nil
  then show ?case by simp
next
  case (Cons m ms)
  from Cons.prems(1) obtain fl w1 where
    s: "try_ld_block E shortcode headers m w = (Inr fl, w1)"
       "(case fl of Return r \<Rightarrow> ret r | Next \<Rightarrow> for_matches E shortcode headers ms) w1 = (Inr r, w')"
    by (auto elim: bindE)
  show ?case
  proof (cases fl)
    case Next
    with s(2) have "for_matches E shortcode headers ms w1 = (Inr r, w')" by simp
    from Cons.IH [OF this Cons.prems(2)] show ?thesis .
  next
    case (Return x)
    with s(2) have "x = r" "w1 = w'" by simp_all
    with s(1) Return show ?thesis using try_ld_block_Return by blast
  qed
qed

lemma instaloader_success:
  assumes "download_with_instaloader_like E url shortcode w = (r, w')" "r \<noteq> JNull"
  shows "\<exists>data. html_result data (path_join (download_dir E) (shortcode @ ''.mp4''))
                    (shortcode @ ''.mp4'') = Inr r
         \<and> (\<exists>c. fs w' (path_join (download_dir E) (shortcode @ ''.mp4'')) = Some (File c))"
proof -
  from assms have t: "instaloader_try E url shortcode w = (Inr r, w')"
    unfolding download_with_instaloader_like_def by (auto split: prod.splits sum.splits)
  have "\<exists>ua ms w3. for_matches E shortcode (html_headers ua) ms w3 = (Inr r, w')"
    using t assms(2) unfolding instaloader_try_def
    apply -
    apply (erule bindE)
    apply (erule bindE)
    apply (erule bindE)
    apply (simp split: if_splits)
    apply blast
    done
  then obtain ua ms w3 where "for_matches E shortcode (html_headers ua) ms w3 = (Inr r, w')"
    by blast
  from for_matches_result [OF this assms(2)] show ?thesis .
qed

lemma ytdlp_success:
  assumes "download_with_ytdlp_enhanced E url shortcode w = (r, w')" "r \<noteq> JNull"
  shows "\<exists>info video_id ext.
           py_get info ''id'' (JStr shortcode) = Inr video_id
         \<and> py_get info ''ext'' (JStr ''mp4'') = Inr ext
         \<and> ytdlp_result info
              (path_join (download_dir E) (py_str E video_id @ ''.'' @ py_str E ext))
              (py_str E video_id @ ''.'' @ py_str E ext) = Inr r
         \<and> fs w' (path_join (download_dir E) (py_str E video_id @ ''.'' @ py_str E ext)) \<noteq> None"
proof -
  from assms have t: "ytdlp_try E url shortcode w = (Inr r, w')"
    unfolding download_with_ytdlp_enhanced_def by (auto split: prod.splits sum.splits exn.splits)
  show ?thesis
    using t assms(2) unfolding ytdlp_try_def
    apply -
    apply (erule bindE)
    apply (erule bindE)
    apply (erule bindE)
    apply (erule bindE)
    apply (erule bindE)
    apply (simp add: Let_def)
    apply (erule bindE)
    apply (clarsimp simp: path_exists_def split: if_splits)
    apply blast
    done
qed

lemmas strategy_b_defs =
  download_with_requests_def requests_try_def try_api_url_def api_urls_def api_headers_def
  api_result_def resolve_media_def find_video_url_def find_caption_def find_author_def

lemmas strategy_a_defs =
  download_with_ytdlp_enhanced_def ytdlp_try_def ytdlp_result_def ydl_opts_def

lemmas strategy_c_defs =
  download_with_instaloader_like_def instaloader_try_def try_ld_block_def post_url_def
  html_headers_def html_result_def ld_json_pattern_def re_search_def

lemma sample_run_a:
  "download_with_ytdlp_enhanced sample_env ''https://instagram.com/reel/ABC123xyz/'' ''ABC123xyz'' sample_world
    = (JObj [(''success'', JBool True),
             (''filepath'', JStr ''/app/downloads/ABC123xyz.mp4''),
             (''filename'', JStr ''ABC123xyz.mp4''),
             (''title'', JStr ''A reel''),
             (''author'', JStr ''Unknown''),
             (''caption'', JStr ''No caption available''),
             (''thumbnail'', JStr []),
             (''method'', JStr ''ytdlp_enhanced'')],
       \<lparr>fs = [''/app/downloads/ABC123xyz.mp4'' \<mapsto> File ''video''],
        logs = [(INFO, ''Attempting enhanced yt-dlp method for ABC123xyz'')],
        ext = []\<rparr>)"
  by (simp add: strategy_a_defs io_defs sample_defs)

lemma sample_run_b:
  "download_with_requests sample_env url ''XYZ_789'' sample_world
    = (JObj [(''success'', JBool True),
             (''filepath'', JStr ''/app/downloads/XYZ_789.mp4''),
             (''filename'', JStr ''XYZ_789.mp4''),
             (''title'', JStr ''Instagram Video - XYZ_789''),
             (''author'', JStr ''Unknown''),
             (''caption'', JStr ''No caption available''),
             (''method'', JStr ''direct_api'')],
       \<lparr>fs = [''/app/downloads/XYZ_789.mp4'' \<mapsto> File ''abcd''],
        logs = [(INFO, ''Attempting direct API method for XYZ_789''),
                (INFO, ''Successfully downloaded via direct API: XYZ_789.mp4'')],
        ext = [JStr ''https://www.instagram.com/p/XYZ_789/?__a=1&__d=dis'', JStr ''https://cdn/v'']\<rparr>)"
  by (simp add: strategy_b_defs io_defs sample_defs)

lemma sample_run_b_empty:
  "download_with_requests sample_env url ''EMPTY'' sample_world
    = (JObj [(''success'', JBool True),
             (''filepath'', JStr ''/app/downloads/EMPTY.mp4''),
             (''filename'', JStr ''EMPTY.mp4''),
             (''title'', JStr ''Instagram Video - EMPTY''),
             (''author'', JStr ''Unknown''),
             (''caption'', JStr ''No caption available''),
             (''method'', JStr ''direct_api'')],
       \<lparr>fs = [''/app/downloads/EMPTY.mp4'' \<mapsto> File []],
        logs = [(INFO, ''Attempting direct API method for EMPTY''),
                (INFO, ''Successfully downloaded via direct API: EMPTY.mp4'')],
        ext = [JStr ''https://www.instagram.com/p/EMPTY/?__a=1&__d=dis'', JStr ''https://cdn/e'']\<rparr>)"
  by (simp add: strategy_b_defs io_defs sample_defs)

lemma sample_run_b_bad:
  "download_with_requests sample_env url ''BAD'' sample_world
    = (JNull,
       \<lparr>fs = Map.empty,
        logs = [(INFO, ''Attempting direct API method for BAD''),
                (ERROR, ''Direct API method failed: error'')],
        ext = [JStr ''https://www.instagram.com/p/BAD/?__a=1&__d=dis'']\<rparr>)"
  by (simp add: strategy_b_defs io_defs sample_defs)

lemma sample_run_c:
  "download_with_instaloader_like sample_env url ''HTML1'' sample_world
    = (JObj [(''success'', JBool True),
             (''filepath'', JStr ''/app/downloads/HTML1.mp4''),
             (''filename'', JStr ''HTML1.mp4''),
             (''title'', JStr ''Instagram Video''),
             (''author'', JStr ''Unknown''),
             (''caption'', JStr ''No caption available''),
             (''method'', JStr ''html_scraping'')],
       \<lparr>fs = [''/app/downloads/HTML1.mp4'' \<mapsto> File ''abcd''],
        logs = [(INFO, ''Attempting HTML scraping for HTML1''),
                (INFO, ''Successfully downloaded via HTML scraping: HTML1.mp4'')],
        ext = [JStr ''https://www.instagram.com/p/HTML1/'', JStr ''https://cdn/v'']\<rparr>)"
  by (simp add: strategy_c_defs io_defs sample_defs)

lemma succeeded_JObj:
  "succeeded (JObj ((''success'', JBool True) # kvs)) = Inr True"
  by (simp add: succeeded_def ebind_def)

lemma succeeded_not_None: "succeeded r = Inr True \<Longrightarrow> r \<noteq> JNull"
  by (auto simp: succeeded_def)

lemma ytdlp_result_Inr:
  assumes "ytdlp_result info fp fn = Inr r"
  shows "\<exists>kvs title author caption thumbnail. info = JObj kvs
    \<and> py_get info ''title'' (JStr ''Instagram Video'') = Inr title
    \<and> py_get info ''uploader'' (JStr ''Unknown'') = Inr author
    \<and> py_get info ''description'' (JStr ''No caption available'') = Inr caption
    \<and> py_get info ''thumbnail'' (JStr []) = Inr thumbnail
    \<and> r = JObj [(''success'', JBool True), (''filepath'', JStr fp), (''filename'', JStr fn),
                (''title'', title), (''author'', author), (''caption'', caption),
                (''thumbnail'', thumbnail), (''method'', JStr ''ytdlp_enhanced'')]"
  using assms by (cases info) (auto simp: ytdlp_result_def ebind_def split: option.splits)

lemma html_result_Inr:
  assumes "html_result data fp fn = Inr r"
  shows "\<exists>kvs title author caption. data = JObj kvs
    \<and> py_get data ''caption'' (JStr ''Instagram Video'') = Inr title
    \<and> ebind (py_get data ''author'' (JObj [])) (\<lambda>a. py_get a ''name'' (JStr ''Unknown'')) = Inr author
    \<and> py_get data ''caption'' (JStr ''No caption available'') = Inr caption
    \<and> r = JObj [(''success'', JBool True), (''filepath'', JStr fp), (''filename'', JStr fn),
                (''title'', title), (''author'', author), (''caption'', caption),
                (''method'', JStr ''html_scraping'')]"
  using assms by (cases data) (auto simp: html_result_def ebind_def split: option.splits sum.splits)

text \<open>A strategy returns \<open>None\<close> or a dictionary whose \<open>success\<close> is \<open>True\<close>.\<close>

lemma ytdlp_clean:
  "download_with_ytdlp_enhanced E url sc w = (r, w') \<Longrightarrow> succeeded r = Inr (r \<noteq> JNull)"
proof (cases "r = JNull")
  case True
  then show ?thesis by (simp add: succeeded_def)
next
  case False
  assume "download_with_ytdlp_enhanced E url sc w = (r, w')"
  from ytdlp_success [OF this False] obtain info fp fn where "ytdlp_result info fp fn = Inr r"
    by blast
  from ytdlp_result_Inr [OF this] False show ?thesis by (auto simp: succeeded_JObj)
qed

lemma requests_clean:
  "download_with_requests E url sc w = (r, w') \<Longrightarrow> succeeded r = Inr (r \<noteq> JNull)"
proof (cases "r = JNull")
  case True
  then show ?thesis by (simp add: succeeded_def)
next
  case False
  assume "download_with_requests E url sc w = (r, w')"
  from requests_success [OF this False] False show ?thesis
    by (auto simp: api_result_def succeeded_JObj)
qed

lemma instaloader_clean:
  "download_with_instaloader_like E url sc w = (r, w') \<Longrightarrow> succeeded r = Inr (r \<noteq> JNull)"
proof (cases "r = JNull")
  case True
  then show ?thesis by (simp add: succeeded_def)
next
  case False
  assume "download_with_instaloader_like E url sc w = (r, w')"
  from instaloader_success [OF this False] obtain data fp fn where "html_result data fp fn = Inr r"
    by blast
  from html_result_Inr [OF this] False show ?thesis by (auto simp: succeeded_JObj)
qed

text \<open>
  Where a success result comes from: the answers of the collaborators that the strategy
  received on the way to its \<open>return\<close> statement, and the file it wrote.
\<close>

lemma write_chunks_no_error:
  "write_chunks E path cs err w = (Inr u, w') \<Longrightarrow> err = None"
proof (induction cs arbitrary: w)
  case Nil
  then show ?case by (cases err) (auto simp: lift_def)
next
  case (Cons x xs)
  from Cons.prems obtain u1 w1 where "write_chunks E path xs err w1 = (Inr u, w')"
    by (auto elim: bindE)
  then show ?case by (rule Cons.IH)
qed

lemma save_stream_no_error:
  "save_stream E path vr w = (Inr u, w') \<Longrightarrow> chunks_error vr = None"
  unfolding save_stream_def by (auto elim!: bindE dest: write_chunks_no_error)

lemma try_api_url_source:
  assumes "try_api_url E shortcode headers api_url w = (Inr (Return r), w')"
  shows "\<exists>response w1 data media video_url caption author vr w2.
           http_get E (JStr api_url) headers False 30 w = (Inr response, w1)
         \<and> status_code response = 200 \<and> json_result response = Inr data
         \<and> resolve_media data = Inr (Some media)
         \<and> find_video_url media = Inr video_url \<and> py_truthy video_url
         \<and> find_caption media = Inr caption \<and> find_author media = Inr author
         \<and> http_get E video_url headers True 60 w1 = (Inr vr, w2)
         \<and> status_code vr = 200 \<and> chunks_error vr = None
         \<and> r = api_result shortcode (path_join (download_dir E) (shortcode @ ''.mp4''))
                  (shortcode @ ''.mp4'') author caption
         \<and> fs w' (path_join (download_dir E) (shortcode @ ''.mp4''))
               = Some (File (concat (chunks vr)))"
proof -
  let ?path = "path_join (download_dir E) (shortcode @ ''.mp4'')"
  let ?handler = "bind (logger WARNING (''Failed to parse JSON from '' @ api_url)) (\<lambda>_. ret Next)"
  from assms obtain response w1 where
    g: "http_get E (JStr api_url) headers False 30 w = (Inr response, w1)"
    and rest: "(if status_code response = 200
       then catch_json_decode
         (bind (lift (json_result response)) (\<lambda>data.
          bind (lift (resolve_media data)) (\<lambda>found.
            case found of
              None \<Rightarrow> ret Next
            | Some media \<Rightarrow>
                bind (lift (find_video_url media)) (\<lambda>video_url.
                  if py_truthy video_url
                  then bind (lift (find_caption media)) (\<lambda>caption.
                       bind (lift (find_author media)) (\<lambda>author.
                       bind (http_get E video_url headers True 60) (\<lambda>video_response.
                         if status_code video_response = 200
                         then (let filename = shortcode @ ''.mp4'';
                                   filepath = path_join (download_dir E) filename
                               in bind (save_stream E filepath video_response) (\<lambda>_.
                                  bind (logger INFO
                                          (''Successfully downloaded via direct API: '' @ filename)) (\<lambda>_.
                                  ret (Return (api_result shortcode filepath filename author caption)))))
                         else ret Next)))
                  else ret Next))))
         ?handler
       else ret Next) w1 = (Inr (Return r), w')"
    unfolding try_api_url_def by (erule bindE)
  have h: "\<And>w1 w2. ?handler w1 \<noteq> (Inr (Return r), w2)"
    by (auto simp: bind_def logger_def ret_def)
  from rest have st: "status_code response = 200" by (auto split: if_splits)
  with rest have body: "
         (bind (lift (json_result response)) (\<lambda>data.
          bind (lift (resolve_media data)) (\<lambda>found.
            case found of
              None \<Rightarrow> ret Next
            | Some media \<Rightarrow>
                bind (lift (find_video_url media)) (\<lambda>video_url.
                  if py_truthy video_url
                  then bind (lift (find_caption media)) (\<lambda>caption.
                       bind (lift (find_author media)) (\<lambda>author.
                       bind (http_get E video_url headers True 60) (\<lambda>video_response.
                         if status_code video_response = 200
                         then (let filename = shortcode @ ''.mp4'';
                                   filepath = path_join (download_dir E) filename
                               in bind (save_stream E filepath video_response) (\<lambda>_.
                                  bind (logger INFO
                                          (''Successfully downloaded via direct API: '' @ filename)) (\<lambda>_.
                                  ret (Return (api_result shortcode filepath filename author caption)))))
                         else ret Next)))
                  else ret Next)))) w1
       = (Inr (Return r), w')"
    using catch_json_decode_Return [OF _ h] by simp
  from body obtain data where d: "json_result response = Inr data"
    and b1: "bind (lift (resolve_media data)) (\<lambda>found.
            case found of
              None \<Rightarrow> ret Next
            | Some media \<Rightarrow>
                bind (lift (find_video_url media)) (\<lambda>video_url.
                  if py_truthy video_url
                  then bind (lift (find_caption media)) (\<lambda>caption.
                       bind (lift (find_author media)) (\<lambda>author.
                       bind (http_get E video_url headers True 60) (\<lambda>video_response.
                         if status_code video_response = 200
                         then (let filename = shortcode @ ''.mp4'';
                                   filepath = path_join (download_dir E) filename
                               in bind (save_stream E filepath video_response) (\<lambda>_.
                                  bind (logger INFO
                                          (''Successfully downloaded via direct API: '' @ filename)) (\<lambda>_.
                                  ret (Return (api_result shortcode filepath filename author caption)))))
                         else ret Next)))
                  else ret Next)) w1 = (Inr (Return r), w')"
    by - (erule bindE, auto)
  from b1 obtain media where m: "resolve_media data = Inr (Some media)"
    and b2: "bind (lift (find_video_url media)) (\<lambda>video_url.
                  if py_truthy video_url
                  then bind (lift (find_caption media)) (\<lambda>caption.
                       bind (lift (find_author media)) (\<lambda>author.
                       bind (http_get E video_url headers True 60) (\<lambda>video_response.
                         if status_code video_response = 200
                         then (let filename = shortcode @ ''.mp4'';
                                   filepath = path_join (download_dir E) filename
                               in bind (save_stream E filepath video_response) (\<lambda>_.
                                  bind (logger INFO
                                          (''Successfully downloaded via direct API: '' @ filename)) (\<lambda>_.
                                  ret (Return (api_result shortcode filepath filename author caption)))))
                         else ret Next)))
                  else ret Next) w1 = (Inr (Return r), w')"
    by - (erule bindE, auto split: option.splits)
  from b2 obtain video_url where v: "find_video_url media = Inr video_url" "py_truthy video_url"
    and b3: "bind (lift (find_caption media)) (\<lambda>caption.
                       bind (lift (find_author media)) (\<lambda>author.
                       bind (http_get E video_url headers True 60) (\<lambda>video_response.
                         if status_code video_response = 200
                         then (let filename = shortcode @ ''.mp4'';
                                   filepath = path_join (download_dir E) filename
                               in bind (save_stream E filepath video_response) (\<lambda>_.
                                  bind (logger INFO
                                          (''Successfully downloaded via direct API: '' @ filename)) (\<lambda>_.
                                  ret (Return (api_result shortcode filepath filename author caption)))))
                         else ret Next))) w1 = (Inr (Return r), w')"
    by - (erule bindE, auto split: if_splits)
  from b3 obtain caption author vr w2 where c: "find_caption media = Inr caption"
    and a: "find_author media = Inr author"
    and g2: "http_get E video_url headers True 60 w1 = (Inr vr, w2)"
    and b4: "(if status_code vr = 200
                         then (let filename = shortcode @ ''.mp4'';
                                   filepath = path_join (download_dir E) filename
                               in bind (save_stream E filepath vr) (\<lambda>_.
                                  bind (logger INFO
                                          (''Successfully downloaded via direct API: '' @ filename)) (\<lambda>_.
                                  ret (Return (api_result shortcode filepath filename author caption)))))
                         else ret Next) w2 = (Inr (Return r), w')"
    by - (elim bindE, auto)
  from b4 have st2: "status_code vr = 200" by (auto split: if_splits)
  with b4 obtain u w3 u2 where s: "save_stream E ?path vr w2 = (Inr u, w3)"
    and l: "logger INFO (''Successfully downloaded via direct API: '' @ shortcode @ ''.mp4'') w3 = (Inr u2, w')"
    and r: "r = api_result shortcode ?path (shortcode @ ''.mp4'') author caption"
    by - (simp add: Let_def, elim bindE, auto)
  have f: "fs w' ?path = Some (File (concat (chunks vr)))"
    using save_stream_file [OF s] logger_fs [OF l] by simp
  have ne: "chunks_error vr = None" using s by (rule save_stream_no_error)
  from g st d m v c a g2 st2 ne r f show ?thesis by blast
qed


lemma for_api_urls_source:
  assumes "for_api_urls E shortcode headers urls w = (Inr r, w')" "r \<noteq> JNull"
  shows "\<exists>api_url \<in> set urls. \<exists>w0. try_api_url E shortcode headers api_url w0 = (Inr (Return r), w')"
  using assms
proof (induction urls arbitrary: w)
  case Nil
  then show ?case by simp
next
  case (Cons u us)
  from Cons.prems(1) obtain fl w1 where
    s: "try_api_url E shortcode headers u w = (Inr fl, w1)"
       "(case fl of Return r \<Rightarrow> ret r | Next \<Rightarrow> for_api_urls E shortcode headers us) w1 = (Inr r, w')"
    by (auto elim: bindE)
  show ?case
  proof (cases fl)
    case Next
    with s(2) have "for_api_urls E shortcode headers us w1 = (Inr r, w')" by simp
    from Cons.IH [OF this Cons.prems(2)] show ?thesis by auto
  next
    case (Return x)
    with s(2) have "x = r" "w1 = w'" by simp_all
    with s(1) Return have "try_api_url E shortcode headers u w = (Inr (Return r), w')" by simp
    then show ?thesis by auto
  qed
qed

lemma requests_source:
  assumes "download_with_requests E url shortcode w = (r, w')" "r \<noteq> JNull"
  shows "\<exists>user_agent w1. get_random_user_agent E
             (logged INFO (''Attempting direct API method for '' @ shortcode) w) = (Inr user_agent, w1)
         \<and> (\<exists>api_url \<in> set (api_urls shortcode). \<exists>w0.
               try_api_url E shortcode (api_headers user_agent shortcode) api_url w0
                 = (Inr (Return r), w'))"
proof -
  from assms have t: "requests_try E url shortcode w = (Inr r, w')"
    unfolding download_with_requests_def by (auto split: prod.splits sum.splits)
  then obtain u1 w0 ua w1 where
    l: "logger INFO (''Attempting direct API method for '' @ shortcode) w = (Inr u1, w0)"
    and g: "get_random_user_agent E w0 = (Inr ua, w1)"
    and f: "for_api_urls E shortcode (api_headers ua shortcode) (api_urls shortcode) w1 = (Inr r, w')"
    unfolding requests_try_def by - (elim bindE, auto)
  from l have "w0 = logged INFO (''Attempting direct API method for '' @ shortcode) w"
    by (simp add: logger_def logged_def)
  with g for_api_urls_source [OF f assms(2)] show ?thesis by blast
qed

lemma try_ld_block_source:
  assumes "try_ld_block E shortcode headers match w = (Inr (Return r), w')"
  shows "\<exists>data video_url vr w1.
           json_loads E match = Inr data
         \<and> ebind (py_getitem data ''video'') (\<lambda>v. py_get v ''contentUrl'' JNull) = Inr video_url
         \<and> http_get E video_url headers True 60 w = (Inr vr, w1)
         \<and> status_code vr = 200 \<and> chunks_error vr = None
         \<and> html_result data (path_join (download_dir E) (shortcode @ ''.mp4'')) (shortcode @ ''.mp4'')
               = Inr r
         \<and> fs w' (path_join (download_dir E) (shortcode @ ''.mp4''))
               = Some (File (concat (chunks vr)))"
proof -
  let ?path = "path_join (download_dir E) (shortcode @ ''.mp4'')"
  have h: "\<And>w1 w2. (ret Next :: (flow, 'a) io) w1 \<noteq> (Inr (Return r), w2)"
    by (auto simp: ret_def)
  note body = catch_json_decode_Return [OF assms [unfolded try_ld_block_def] h]
  from body obtain data where d: "json_loads E match = Inr data"
    and b1: "bind (lift (py_in ''video'' data)) (\<lambda>has_video.
        bind (lift (if has_video
                    then ebind (py_getitem data ''video'') (\<lambda>v. Inr (is_dict v))
                    else Inr False)) (\<lambda>usable.
          if usable
          then bind (lift (ebind (py_getitem data ''video'') (\<lambda>v. py_get v ''contentUrl'' JNull))) (\<lambda>video_url.
                 if py_truthy video_url
                 then bind (http_get E video_url headers True 60) (\<lambda>video_response.
                        if status_code video_response = 200
                        then (let filename = shortcode @ ''.mp4'';
                                  filepath = path_join (download_dir E) filename
                              in bind (save_stream E filepath video_response) (\<lambda>_.
                                 bind (logger INFO
                                         (''Successfully downloaded via HTML scraping: '' @ filename)) (\<lambda>_.
                                 bind (lift (html_result data filepath filename)) (\<lambda>r.
                                 ret (Return r)))))
                        else ret Next)
                 else ret Next)
          else ret Next)) w = (Inr (Return r), w')"
    by - (erule bindE, auto)
  from b1 obtain video_url where
    v: "ebind (py_getitem data ''video'') (\<lambda>v. py_get v ''contentUrl'' JNull) = Inr video_url"
    and b2: "(if py_truthy video_url
                 then bind (http_get E video_url headers True 60) (\<lambda>video_response.
                        if status_code video_response = 200
                        then (let filename = shortcode @ ''.mp4'';
                                  filepath = path_join (download_dir E) filename
                              in bind (save_stream E filepath video_response) (\<lambda>_.
                                 bind (logger INFO
                                         (''Successfully downloaded via HTML scraping: '' @ filename)) (\<lambda>_.
                                 bind (lift (html_result data filepath filename)) (\<lambda>r.
                                 ret (Return r)))))
                        else ret Next)
                 else ret Next) w = (Inr (Return r), w')"
    by - (erule bindE, erule bindE, simp split: if_splits, erule bindE, auto)
  from b2 obtain vr w1 where g2: "http_get E video_url headers True 60 w = (Inr vr, w1)"
    and b3: "(if status_code vr = 200
                        then (let filename = shortcode @ ''.mp4'';
                                  filepath = path_join (download_dir E) filename
                              in bind (save_stream E filepath vr) (\<lambda>_.
                                 bind (logger INFO
                                         (''Successfully downloaded via HTML scraping: '' @ filename)) (\<lambda>_.
                                 bind (lift (html_result data filepath filename)) (\<lambda>r.
                                 ret (Return r)))))
                        else ret Next) w1 = (Inr (Return r), w')"
    by - (simp split: if_splits, erule bindE, auto)
  from b3 have st2: "status_code vr = 200" by (auto split: if_splits)
  with b3 obtain u w3 u2 w4 where s: "save_stream E ?path vr w1 = (Inr u, w3)"
    and l: "logger INFO (''Successfully downloaded via HTML scraping: '' @ shortcode @ ''.mp4'') w3 = (Inr u2, w4)"
    and r: "html_result data ?path (shortcode @ ''.mp4'') = Inr r" and w4: "w4 = w'"
    by - (simp add: Let_def, elim bindE, auto)
  have f: "fs w' ?path = Some (File (concat (chunks vr)))"
    using save_stream_file [OF s] logger_fs [OF l] w4 by simp
  have ne: "chunks_error vr = None" using s by (rule save_stream_no_error)
  from d v g2 st2 ne r f show ?thesis by blast
qed

lemma for_matches_source:
  assumes "for_matches E shortcode headers ms w = (Inr r, w')" "r \<noteq> JNull"
  shows "\<exists>match \<in> set ms. \<exists>w0. try_ld_block E shortcode headers match w0 = (Inr (Return r), w')"
  using assms
proof (induction ms arbitrary: w)
  case Nil
  then show ?case by simp
next
  case (Cons m ms)
  from Cons.prems(1) obtain fl w1 where
    s: "try_ld_block E shortcode headers m w = (Inr fl, w1)"
       "(case fl of Return r \<Rightarrow> ret r | Next \<Rightarrow> for_matches E shortcode headers ms) w1 = (Inr r, w')"
    by (auto elim: bindE)
  show ?case
  proof (cases fl)
    case Next
    with s(2) have "for_matches E shortcode headers ms w1 = (Inr r, w')" by simp
    from Cons.IH [OF this Cons.prems(2)] show ?thesis by auto
  next
    case (Return x)
    with s(2) have "x = r" "w1 = w'" by simp_all
    with s(1) Return have "try_ld_block E shortcode headers m w = (Inr (Return r), w')" by simp
    then show ?thesis by auto
  qed
qed

lemma instaloader_source:
  assumes "download_with_instaloader_like E url shortcode w = (r, w')" "r \<noteq> JNull"
  shows "\<exists>user_agent w1 response w2.
           get_random_user_agent E (logged INFO (''Attempting HTML scraping for '' @ shortcode) w)
             = (Inr user_agent, w1)
         \<and> http_get E (JStr (post_url shortcode)) (html_headers user_agent) False 30 w1
             = (Inr response, w2)
         \<and> status_code response = 200
         \<and> (\<exists>match \<in> set (re_findall ld_json_pattern (text_body response)). \<exists>w0.
               try_ld_block E shortcode (html_headers user_agent) match w0 = (Inr (Return r), w'))"
proof -
  from assms have t: "instaloader_try E url shortcode w = (Inr r, w')"
    unfolding download_with_instaloader_like_def by (auto split: prod.splits sum.splits)
  then obtain u1 w0 ua w1 response w2 where
    l: "logger INFO (''Attempting HTML scraping for '' @ shortcode) w = (Inr u1, w0)"
    and g: "get_random_user_agent E w0 = (Inr ua, w1)"
    and h: "http_get E (JStr (post_url shortcode)) (html_headers ua) False 30 w1 = (Inr response, w2)"
    and f: "(if status_code response = 200
       then for_matches E shortcode (html_headers ua)
              (re_findall ld_json_pattern (text_body response))
       else ret JNull) w2 = (Inr r, w')"
    unfolding instaloader_try_def by - (elim bindE, auto)
  from f assms(2) have st: "status_code response = 200" by (auto split: if_splits)
  with f have "for_matches E shortcode (html_headers ua)
              (re_findall ld_json_pattern (text_body response)) w2 = (Inr r, w')" by simp
  note m = for_matches_source [OF this assms(2)]
  from l have "w0 = logged INFO (''Attempting HTML scraping for '' @ shortcode) w"
    by (simp add: logger_def logged_def)
  with g h st m show ?thesis by blast
qed


section \<open>C4: the identifier extractor\<close>

lemmas extract_eval =
  extract_instagram_shortcode_def patterns_def re_search_def id_char_def user_char_def word_char_def

text \<open>
  Claim C4, as the code has it. Let the identifier be a non-empty run of \<open>[\w-]\<close> that is not
  continued by another such character, \<open>\w\<close> being the Unicode word class of a \<open>str\<close> pattern
  (the characters \<^verbatim>\<open>[A-Za-z0-9_]\<close> and the letters and digits beyond ASCII).
  \<^item> If the first occurrence of \<open>instagram.com/\<close> in the URL is followed by one of \<open>p\<close>, \<open>reel\<close>,
    \<open>tv\<close>, \<open>reels\<close>, a slash and an identifier, the extractor returns that identifier.
  \<^item> If the only occurrence of \<open>instagram.com/\<close> is followed by a username (a non-empty run of
    \<open>[\w.]\<close> that is not itself one of the four keywords), a slash, one of \<open>p\<close>, \<open>reel\<close>, a
    slash and an identifier, the extractor returns that identifier. A username is recognised
    before \<open>p\<close> and \<open>reel\<close> only.
  \<^item> The extractor returns \<open>None\<close> exactly for the URLs that contain neither shape anywhere.
\<close>

theorem extract_shortcode_shapes:
  "(url = pre @ ''instagram.com/'' @ kw @ ''/'' @ seg @ rest
      \<and> kw \<in> {''p'', ''reel'', ''tv'', ''reels''}
      \<and> seg \<noteq> [] \<and> list_all id_char seg \<and> (rest = [] \<or> \<not> id_char (hd rest))
      \<and> (\<forall>j < length pre. \<not> occurs_at ''instagram.com/'' url j)
    \<longrightarrow> extract_instagram_shortcode url = Some seg)
 \<and> (url = pre @ ''instagram.com/'' @ user @ ''/'' @ kw @ ''/'' @ seg @ rest
      \<and> user \<noteq> [] \<and> list_all user_char user \<and> user \<notin> {''p'', ''reel'', ''tv'', ''reels''}
      \<and> kw \<in> {''p'', ''reel''}
      \<and> seg \<noteq> [] \<and> list_all id_char seg \<and> (rest = [] \<or> \<not> id_char (hd rest))
      \<and> (\<forall>j \<le> length url. j \<noteq> length pre \<longrightarrow> \<not> occurs_at ''instagram.com/'' url j)
    \<longrightarrow> extract_instagram_shortcode url = Some seg)
 \<and> (extract_instagram_shortcode url = None \<longleftrightarrow>
       \<not> (\<exists>pre kw seg rest. url = pre @ ''instagram.com/'' @ kw @ ''/'' @ seg @ rest
             \<and> kw \<in> {''p'', ''reel'', ''tv'', ''reels''} \<and> seg \<noteq> [] \<and> list_all id_char seg)
     \<and> \<not> (\<exists>pre user kw seg rest.
               url = pre @ ''instagram.com/'' @ user @ ''/'' @ kw @ ''/'' @ seg @ rest
             \<and> user \<noteq> [] \<and> list_all user_char user
             \<and> kw \<in> {''p'', ''reel''} \<and> seg \<noteq> [] \<and> list_all id_char seg))"
proof (intro conjI impI)
  assume "url = pre @ ''instagram.com/'' @ kw @ ''/'' @ seg @ rest
      \<and> kw \<in> {''p'', ''reel'', ''tv'', ''reels''}
      \<and> seg \<noteq> [] \<and> list_all id_char seg \<and> (rest = [] \<or> \<not> id_char (hd rest))
      \<and> (\<forall>j < length pre. \<not> occurs_at ''instagram.com/'' url j)"
  then show "extract_instagram_shortcode url = Some seg"
    using shape1_extract [of url pre kw seg rest] by blast
next
  assume "url = pre @ ''instagram.com/'' @ user @ ''/'' @ kw @ ''/'' @ seg @ rest
      \<and> user \<noteq> [] \<and> list_all user_char user \<and> user \<notin> {''p'', ''reel'', ''tv'', ''reels''}
      \<and> kw \<in> {''p'', ''reel''}
      \<and> seg \<noteq> [] \<and> list_all id_char seg \<and> (rest = [] \<or> \<not> id_char (hd rest))
      \<and> (\<forall>j \<le> length url. j \<noteq> length pre \<longrightarrow> \<not> occurs_at ''instagram.com/'' url j)"
  then show "extract_instagram_shortcode url = Some seg"
    using shape2_extract [of url pre user kw seg rest] by blast
next
  show "extract_instagram_shortcode url = None \<longleftrightarrow>
       \<not> (\<exists>pre kw seg rest. url = pre @ ''instagram.com/'' @ kw @ ''/'' @ seg @ rest
             \<and> kw \<in> {''p'', ''reel'', ''tv'', ''reels''} \<and> seg \<noteq> [] \<and> list_all id_char seg)
     \<and> \<not> (\<exists>pre user kw seg rest.
               url = pre @ ''instagram.com/'' @ user @ ''/'' @ kw @ ''/'' @ seg @ rest
             \<and> user \<noteq> [] \<and> list_all user_char user
             \<and> kw \<in> {''p'', ''reel''} \<and> seg \<noteq> [] \<and> list_all id_char seg)"
    by (rule extract_None_iff)
qed

text \<open>
  C4 as stated fails for a username followed by \<open>tv\<close> (or \<open>reels\<close>): the second pattern
  lists \<open>p\<close> and \<open>reel\<close> only, and no identifier is returned.
\<close>

theorem extract_username_tv_counterexample:
  "extract_instagram_shortcode ''https://instagram.com/username/tv/ABC123/'' = None"
  by (simp add: extract_eval)

text \<open>
  The two example URLs of the specification satisfy the hypotheses of the two shapes, and so
  does a URL whose identifier has a letter beyond ASCII (U+00E9).
\<close>

theorem extract_shortcode_shapes_witness:
  "extract_instagram_shortcode ''https://instagram.com/reel/ABC123xyz/'' = Some ''ABC123xyz''
 \<and> extract_instagram_shortcode ''https://instagram.com/username/p/XYZ_789/'' = Some ''XYZ_789''
 \<and> extract_instagram_shortcode (''https://instagram.com/p/caf'' @ [CHR 0xE9] @ ''123/'')
     = Some (''caf'' @ [CHR 0xE9] @ ''123'')"
proof -
  have h1: "''https://instagram.com/reel/ABC123xyz/''
              = ''https://'' @ ''instagram.com/'' @ ''reel'' @ ''/'' @ ''ABC123xyz'' @ ''/''
      \<and> ''reel'' \<in> {''p'', ''reel'', ''tv'', ''reels''}
      \<and> ''ABC123xyz'' \<noteq> [] \<and> list_all id_char ''ABC123xyz''
      \<and> (''/'' = [] \<or> \<not> id_char (hd ''/''))
      \<and> (\<forall>j < length ''https://''.
            \<not> occurs_at ''instagram.com/'' ''https://instagram.com/reel/ABC123xyz/'' j)"
    by (simp add: occurs_at_def All_less_Suc eval_nat_numeral id_char_def word_char_def)
  have h2: "''https://instagram.com/username/p/XYZ_789/''
              = ''https://'' @ ''instagram.com/'' @ ''username'' @ ''/'' @ ''p'' @ ''/'' @ ''XYZ_789'' @ ''/''
      \<and> ''username'' \<noteq> [] \<and> list_all user_char ''username''
      \<and> ''username'' \<notin> {''p'', ''reel'', ''tv'', ''reels''}
      \<and> ''p'' \<in> {''p'', ''reel''}
      \<and> ''XYZ_789'' \<noteq> [] \<and> list_all id_char ''XYZ_789''
      \<and> (''/'' = [] \<or> \<not> id_char (hd ''/''))
      \<and> (\<forall>j \<le> length ''https://instagram.com/username/p/XYZ_789/''.
            j \<noteq> length ''https://'' \<longrightarrow>
            \<not> occurs_at ''instagram.com/'' ''https://instagram.com/username/p/XYZ_789/'' j)"
    by (simp add: occurs_at_def All_less_Suc eval_nat_numeral less_Suc_eq_le [symmetric]
          id_char_def user_char_def word_char_def)
  have h3: "''https://instagram.com/p/caf'' @ [CHR 0xE9] @ ''123/''
              = ''https://'' @ ''instagram.com/'' @ ''p'' @ ''/'' @ (''caf'' @ [CHR 0xE9] @ ''123'') @ ''/''
      \<and> ''p'' \<in> {''p'', ''reel'', ''tv'', ''reels''}
      \<and> ''caf'' @ [CHR 0xE9] @ ''123'' \<noteq> [] \<and> list_all id_char (''caf'' @ [CHR 0xE9] @ ''123'')
      \<and> (''/'' = [] \<or> \<not> id_char (hd ''/''))
      \<and> (\<forall>j < length ''https://''.
            \<not> occurs_at ''instagram.com/'' (''https://instagram.com/p/caf'' @ [CHR 0xE9] @ ''123/'') j)"
    by (simp add: occurs_at_def All_less_Suc eval_nat_numeral id_char_def word_char_def)
  note t1 = extract_shortcode_shapes
    [where url = "''https://instagram.com/reel/ABC123xyz/''" and pre = "''https://''"
       and kw = "''reel''" and seg = "''ABC123xyz''" and rest = "''/''", THEN conjunct1, THEN mp, OF h1]
  note t2 = extract_shortcode_shapes
    [where url = "''https://instagram.com/username/p/XYZ_789/''" and pre = "''https://''"
       and user = "''username''" and kw = "''p''" and seg = "''XYZ_789''" and rest = "''/''",
     THEN conjunct2, THEN conjunct1, THEN mp, OF h2]
  note t3 = extract_shortcode_shapes
    [where url = "''https://instagram.com/p/caf'' @ [CHR 0xE9] @ ''123/''" and pre = "''https://''"
       and kw = "''p''" and seg = "''caf'' @ [CHR 0xE9] @ ''123''" and rest = "''/''",
     THEN conjunct1, THEN mp, OF h3]
  from t1 t2 t3 show ?thesis by (intro conjI)
qed

text \<open>A username with letters beyond ASCII (U+00FC, U+00EF) is recognised by the second pattern.\<close>

lemma extract_latin1_username:
  "extract_instagram_shortcode (''https://instagram.com/'' @ [CHR 0xFC] @ ''n'' @ [CHR 0xEF] @ ''/p/Q1'')
     = Some ''Q1''"
  by (simp add: extract_eval)

section \<open>C5: the file of a success result\<close>

text \<open>
  Claim C5, as the code has it. Whenever one of the three strategies returns a result whose
  \<open>success\<close> is true, the \<open>filepath\<close> of the result is a string, and that path exists in the
  file system when the strategy returns. For the engine strategy the code tests
  \<open>os.path.exists\<close>. For the other two the path is \<open>DOWNLOAD_DIR/shortcode.mp4\<close>, and it holds a
  regular file whose content is exactly the chunks, in order, of the answer to the streamed
  request of the video URL that the strategy read from the payload: that answer had status
  200 and its stream did not fail. Nothing says the file is non-empty.
\<close>

theorem success_result_path_exists:
  "(download_with_ytdlp_enhanced E url shortcode w = (r, w') \<and> succeeded r = Inr True
      \<longrightarrow> (\<exists>p. py_getitem r ''filepath'' = Inr (JStr p) \<and> fs w' p \<noteq> None))
 \<and> (download_with_requests E url shortcode w = (r, w') \<and> succeeded r = Inr True
      \<longrightarrow> py_getitem r ''filepath'' = Inr (JStr (path_join (download_dir E) (shortcode @ ''.mp4'')))
        \<and> (\<exists>user_agent api_url w0 response w1 data media video_url video_response w2.
               api_url \<in> set (api_urls shortcode)
             \<and> http_get E (JStr api_url) (api_headers user_agent shortcode) False 30 w0
                 = (Inr response, w1)
             \<and> json_result response = Inr data \<and> resolve_media data = Inr (Some media)
             \<and> find_video_url media = Inr video_url
             \<and> http_get E video_url (api_headers user_agent shortcode) True 60 w1
                 = (Inr video_response, w2)
             \<and> status_code video_response = 200 \<and> chunks_error video_response = None
             \<and> fs w' (path_join (download_dir E) (shortcode @ ''.mp4''))
                  = Some (File (concat (chunks video_response)))))
 \<and> (download_with_instaloader_like E url shortcode w = (r, w') \<and> succeeded r = Inr True
      \<longrightarrow> py_getitem r ''filepath'' = Inr (JStr (path_join (download_dir E) (shortcode @ ''.mp4'')))
        \<and> (\<exists>user_agent block data video_url w1 video_response w2.
               json_loads E block = Inr data
             \<and> ebind (py_getitem data ''video'') (\<lambda>v. py_get v ''contentUrl'' JNull) = Inr video_url
             \<and> http_get E video_url (html_headers user_agent) True 60 w1 = (Inr video_response, w2)
             \<and> status_code video_response = 200 \<and> chunks_error video_response = None
             \<and> fs w' (path_join (download_dir E) (shortcode @ ''.mp4''))
                  = Some (File (concat (chunks video_response)))))"
proof (intro conjI impI)
  assume a: "download_with_ytdlp_enhanced E url shortcode w = (r, w') \<and> succeeded r = Inr True"
  then have "r \<noteq> JNull" using succeeded_not_None by blast
  from ytdlp_success [OF a [THEN conjunct1] this] obtain info fp fn where
    i: "ytdlp_result info fp fn = Inr r" "fs w' fp \<noteq> None"
    by blast
  from ytdlp_result_Inr [OF i(1)] have "py_getitem r ''filepath'' = Inr (JStr fp)" by auto
  with i(2) show "\<exists>p. py_getitem r ''filepath'' = Inr (JStr p) \<and> fs w' p \<noteq> None" by blast
next
  assume a: "download_with_requests E url shortcode w = (r, w') \<and> succeeded r = Inr True"
  then have ne: "r \<noteq> JNull" using succeeded_not_None by blast
  from requests_source [OF a [THEN conjunct1] ne] obtain ua api_url w0 where
    u: "api_url \<in> set (api_urls shortcode)"
    and t: "try_api_url E shortcode (api_headers ua shortcode) api_url w0 = (Inr (Return r), w')"
    by blast
  from try_api_url_source [OF t] obtain response data media author caption video_url w1 vr w2 where
    s: "http_get E video_url (api_headers ua shortcode) True 60 w1 = (Inr vr, w2)"
       "status_code vr = 200" "chunks_error vr = None"
       "r = api_result shortcode (path_join (download_dir E) (shortcode @ ''.mp4''))
                  (shortcode @ ''.mp4'') author caption"
       "fs w' (path_join (download_dir E) (shortcode @ ''.mp4'')) = Some (File (concat (chunks vr)))"
    and s': "http_get E (JStr api_url) (api_headers ua shortcode) False 30 w0 = (Inr response, w1)"
       "json_result response = Inr data" "resolve_media data = Inr (Some media)"
       "find_video_url media = Inr video_url"
    by blast
  from s(4) show "py_getitem r ''filepath'' = Inr (JStr (path_join (download_dir E) (shortcode @ ''.mp4'')))"
    by (simp add: api_result_def)
  from u s'(1-4) s(1,2,3,5) show "\<exists>user_agent api_url w0 response w1 data media video_url video_response w2.
               api_url \<in> set (api_urls shortcode)
             \<and> http_get E (JStr api_url) (api_headers user_agent shortcode) False 30 w0
                 = (Inr response, w1)
             \<and> json_result response = Inr data \<and> resolve_media data = Inr (Some media)
             \<and> find_video_url media = Inr video_url
             \<and> http_get E video_url (api_headers user_agent shortcode) True 60 w1
                 = (Inr video_response, w2)
             \<and> status_code video_response = 200 \<and> chunks_error video_response = None
             \<and> fs w' (path_join (download_dir E) (shortcode @ ''.mp4''))
                  = Some (File (concat (chunks video_response)))"
    by blast
next
  assume a: "download_with_instaloader_like E url shortcode w = (r, w') \<and> succeeded r = Inr True"
  then have ne: "r \<noteq> JNull" using succeeded_not_None by blast
  from instaloader_source [OF a [THEN conjunct1] ne] obtain ua match w0 where
    t: "try_ld_block E shortcode (html_headers ua) match w0 = (Inr (Return r), w')"
    by blast
  from try_ld_block_source [OF t] obtain data video_url vr w1 where
    s: "http_get E video_url (html_headers ua) True 60 w0 = (Inr vr, w1)"
       "status_code vr = 200" "chunks_error vr = None"
       "html_result data (path_join (download_dir E) (shortcode @ ''.mp4'')) (shortcode @ ''.mp4'') = Inr r"
       "fs w' (path_join (download_dir E) (shortcode @ ''.mp4'')) = Some (File (concat (chunks vr)))"
    and s'': "json_loads E match = Inr data"
       "ebind (py_getitem data ''video'') (\<lambda>v. py_get v ''contentUrl'' JNull) = Inr video_url"
    by blast
  from html_result_Inr [OF s(4)]
  show "py_getitem r ''filepath'' = Inr (JStr (path_join (download_dir E) (shortcode @ ''.mp4'')))"
    by auto
  from s'' s(1,2,3,5) show "\<exists>user_agent block data video_url w1 video_response w2.
               json_loads E block = Inr data
             \<and> ebind (py_getitem data ''video'') (\<lambda>v. py_get v ''contentUrl'' JNull) = Inr video_url
             \<and> http_get E video_url (html_headers user_agent) True 60 w1 = (Inr video_response, w2)
             \<and> status_code video_response = 200 \<and> chunks_error video_response = None
             \<and> fs w' (path_join (download_dir E) (shortcode @ ''.mp4''))
                  = Some (File (concat (chunks video_response)))"
    by blast
qed

text \<open>
  C5 as stated fails: when the video download answers 200 with no bytes, the endpoint
  strategy returns a success result whose file is empty.
\<close>

theorem success_with_empty_file_counterexample:
  "succeeded (fst (download_with_requests sample_env ''https://instagram.com/p/EMPTY/'' ''EMPTY'' sample_world))
     = Inr True
 \<and> py_getitem (fst (download_with_requests sample_env ''https://instagram.com/p/EMPTY/'' ''EMPTY'' sample_world))
     ''filepath'' = Inr (JStr ''/app/downloads/EMPTY.mp4'')
 \<and> fs (snd (download_with_requests sample_env ''https://instagram.com/p/EMPTY/'' ''EMPTY'' sample_world))
     ''/app/downloads/EMPTY.mp4'' = Some (File [])"
  by (simp add: sample_run_b_empty succeeded_JObj)

text \<open>
  The three strategies succeed in the sample environment: the file of the engine exists, and
  the other two files hold the two chunks \<open>ab\<close> and \<open>cd\<close> of the video answer.
\<close>

theorem success_result_path_exists_witness:
  "fs (snd (download_with_ytdlp_enhanced sample_env ''https://instagram.com/reel/ABC123xyz/'' ''ABC123xyz''
              sample_world)) ''/app/downloads/ABC123xyz.mp4'' \<noteq> None
 \<and> fs (snd (download_with_requests sample_env ''https://instagram.com/p/XYZ_789/'' ''XYZ_789''
              sample_world)) ''/app/downloads/XYZ_789.mp4'' = Some (File ''abcd'')
 \<and> fs (snd (download_with_instaloader_like sample_env ''https://instagram.com/p/HTML1/'' ''HTML1''
              sample_world)) ''/app/downloads/HTML1.mp4'' = Some (File ''abcd'')"
proof -
  let ?a = "download_with_ytdlp_enhanced sample_env ''https://instagram.com/reel/ABC123xyz/'' ''ABC123xyz''
              sample_world"
  let ?b = "download_with_requests sample_env ''https://instagram.com/p/XYZ_789/'' ''XYZ_789'' sample_world"
  let ?c = "download_with_instaloader_like sample_env ''https://instagram.com/p/HTML1/'' ''HTML1'' sample_world"
  have ha: "?a = (fst ?a, snd ?a) \<and> succeeded (fst ?a) = Inr True"
    by (simp add: sample_run_a succeeded_JObj)
  have hb: "?b = (fst ?b, snd ?b) \<and> succeeded (fst ?b) = Inr True"
    by (simp add: sample_run_b succeeded_JObj)
  have hc: "?c = (fst ?c, snd ?c) \<and> succeeded (fst ?c) = Inr True"
    by (simp add: sample_run_c succeeded_JObj)
  have d: "path_join (download_dir sample_env) (''XYZ_789'' @ ''.mp4'') = ''/app/downloads/XYZ_789.mp4''"
    "path_join (download_dir sample_env) (''HTML1'' @ ''.mp4'') = ''/app/downloads/HTML1.mp4''"
    by (simp_all add: path_join_def sample_env_sel)
  note t = success_result_path_exists [where E = sample_env]
  from t [THEN conjunct1, THEN mp, OF ha]
  have "fs (snd ?a) ''/app/downloads/ABC123xyz.mp4'' \<noteq> None"
    by (auto simp: sample_run_a)
  moreover from t [THEN conjunct2, THEN conjunct1, THEN mp, OF hb]
  have "fs (snd ?b) ''/app/downloads/XYZ_789.mp4'' = Some (File ''abcd'')"
    unfolding d by (auto simp: sample_run_b)
  moreover from t [THEN conjunct2, THEN conjunct2, THEN mp, OF hc]
  have "fs (snd ?c) ''/app/downloads/HTML1.mp4'' = Some (File ''abcd'')"
    unfolding d by (auto simp: sample_run_c)
  ultimately show ?thesis by simp
qed

section \<open>C3: the fields of a success result\<close>














section \<open>The orchestrator\<close>

lemma id_after_nonempty: "id_after s = Some (g, rest) \<Longrightarrow> g \<noteq> []"
  by (auto simp: id_after_def split: option.splits if_splits)

lemma match_group_nonempty:
  assumes "match_here (patterns ! 0) s False = Some (g, rest) \<or> match_here (patterns ! 1) s False = Some (g, rest)"
  shows "g \<noteq> []"
proof -
  have "\<exists>kws t. first_some (map (\<lambda>k. case strip_prefix k t of None \<Rightarrow> None | Some s2 \<Rightarrow> id_after s2) kws)
                     = Some (g, rest)"
    using assms
  proof
    assume m: "match_here (patterns ! 0) s False = Some (g, rest)"
    show ?thesis
    proof (cases "strip_prefix ''instagram.com/'' s")
      case None
      with m show ?thesis unfolding match_pattern1 by (simp only: option.case option.distinct)
    next
      case (Some s1)
      with m show ?thesis unfolding match_pattern1 by (simp only: option.case) blast
    qed
  next
    assume m: "match_here (patterns ! 1) s False = Some (g, rest)"
    show ?thesis
    proof (cases "strip_prefix ''instagram.com/'' s")
      case None
      with m show ?thesis unfolding match_pattern2 by (simp only: option.case option.distinct)
    next
      case s1: (Some s1)
      show ?thesis
      proof (cases "takeWhile user_char s1 = []")
        case True
        with m s1 show ?thesis unfolding match_pattern2 by (simp only: option.case if_True option.distinct refl)
      next
        case False
        show ?thesis
        proof (cases "strip_prefix ''/'' (dropWhile user_char s1)")
          case None
          with m s1 False show ?thesis unfolding match_pattern2
            by (simp only: option.case if_False option.distinct refl)
        next
          case (Some s2)
          with m s1 False show ?thesis unfolding match_pattern2
            by (simp only: option.case if_False refl) blast
        qed
      qed
    qed
  qed
  then obtain kws t where
    "first_some (map (\<lambda>k. case strip_prefix k t of None \<Rightarrow> None | Some s2 \<Rightarrow> id_after s2) kws) = Some (g, rest)"
    by blast
  from kw_match_Some [OF this] show ?thesis using id_after_nonempty by blast
qed

lemma extract_nonempty:
  assumes "extract_instagram_shortcode url = Some sc"
  shows "sc \<noteq> []"
proof -
  from assms obtain rest where
    "re_search (patterns ! 0) url = Some (sc, rest) \<or> re_search (patterns ! 1) url = Some (sc, rest)"
    unfolding extract_unfold by (auto split: option.splits)
  then obtain i where
    "match_here (patterns ! 0) (drop i url) False = Some (sc, rest)
       \<or> match_here (patterns ! 1) (drop i url) False = Some (sc, rest)"
    unfolding re_search_Some_iff by blast
  then show ?thesis by (rule match_group_nonempty)
qed

lemma is_substr_nonempty: "is_substr (c # cs) s \<Longrightarrow> s \<noteq> []"
  by auto

lemma download_try_valid:
  assumes "py_get data ''url'' JNull = Inr (JStr url)" "is_substr ''instagram.com'' url"
    "extract_instagram_shortcode url = Some sc"
  shows "download_try E (Inr data) w =
           pipeline E (methods E url sc)
             (logged INFO (''Extracted shortcode: '' @ sc)
               (logged INFO (''Processing download request for: '' @ url) w))"
proof -
  have ne: "url \<noteq> []" using assms(2) by (rule is_substr_nonempty)
  have sc: "sc \<noteq> []" using assms(3) by (rule extract_nonempty)
  show ?thesis
    unfolding download_try_def
    using assms ne sc
    by (simp add: bind_def lift_def logger_def logged_def py_str_def)
qed

lemma respond_None: "respond E JNull w = (Inr \<lparr>http_status = 400, content = failure_content\<rparr>, w)"
  by (simp add: respond_def succeeded_def bind_def lift_def ret_def)

lemma run_methods_success:
  assumes "method_func (logged INFO (''Trying method: '' @ method_name) w) = (Inr r, w')"
    "succeeded r = Inr True"
  shows "run_methods E ((method_name, method_func) # rest) result w =
           (r, logged INFO (success_mark @ '' Success with method: '' @ method_name) w')"
  using assms by (simp add: logged_def)

lemma run_methods_raise:
  assumes "method_func (logged INFO (''Trying method: '' @ method_name) w) = (Inl e, w')"
  shows "run_methods E ((method_name, method_func) # rest) result w =
           run_methods E rest result
             (logged ERROR (''Method '' @ method_name @ '' failed: '' @ exn_str E e) w')"
  using assms by (simp add: logged_def)

lemma run_methods_no_result:
  assumes "method_func (logged INFO (''Trying method: '' @ method_name) w) = (Inr JNull, w')"
  shows "run_methods E ((method_name, method_func) # rest) result w = run_methods E rest JNull w'"
  using assms by (simp add: logged_def succeeded_def)

lemma run_methods_cascade:
  "run_methods E (methods E url sc) JNull w =
     (case download_with_ytdlp_enhanced E url sc (logged INFO ''Trying method: Enhanced yt-dlp'' w) of
        (ra, wa) \<Rightarrow>
          if ra \<noteq> JNull
          then (ra, logged INFO (success_mark @ '' Success with method: Enhanced yt-dlp'') wa)
          else (case download_with_requests E url sc (logged INFO ''Trying method: Direct API'' wa) of
                  (rb, wb) \<Rightarrow>
                    if rb \<noteq> JNull
                    then (rb, logged INFO (success_mark @ '' Success with method: Direct API'') wb)
                    else (case download_with_instaloader_like E url sc
                                 (logged INFO ''Trying method: HTML Scraping'' wb) of
                            (rc, wc) \<Rightarrow>
                              if rc \<noteq> JNull
                              then (rc, logged INFO (success_mark @ '' Success with method: HTML Scraping'') wc)
                              else (JNull, wc))))"
proof -
  obtain ra wa where a: "download_with_ytdlp_enhanced E url sc (logged INFO ''Trying method: Enhanced yt-dlp'' w) = (ra, wa)"
    by (cases "download_with_ytdlp_enhanced E url sc (logged INFO ''Trying method: Enhanced yt-dlp'' w)")
  obtain rb wb where b: "download_with_requests E url sc (logged INFO ''Trying method: Direct API'' wa) = (rb, wb)"
    by (cases "download_with_requests E url sc (logged INFO ''Trying method: Direct API'' wa)")
  obtain rc wc where c: "download_with_instaloader_like E url sc (logged INFO ''Trying method: HTML Scraping'' wb) = (rc, wc)"
    by (cases "download_with_instaloader_like E url sc (logged INFO ''Trying method: HTML Scraping'' wb)")
  note sa = ytdlp_clean [OF a] and sb = requests_clean [OF b] and sc = instaloader_clean [OF c]
  have ca: "call (download_with_ytdlp_enhanced E url sc) (logged INFO (''Trying method: '' @ ''Enhanced yt-dlp'') w) = (Inr ra, wa)"
    using a by (simp add: call_def)
  have cb: "call (download_with_requests E url sc) (logged INFO (''Trying method: '' @ ''Direct API'') wa) = (Inr rb, wb)"
    using b by (simp add: call_def)
  have cc: "call (download_with_instaloader_like E url sc) (logged INFO (''Trying method: '' @ ''HTML Scraping'') wb) = (Inr rc, wc)"
    using c by (simp add: call_def)
  show ?thesis
  proof (cases "ra \<noteq> JNull")
    case True
    then have "succeeded ra = Inr True" using sa by simp
    from run_methods_success [where method_func = "call (download_with_ytdlp_enhanced E url sc)", OF ca this] True a show ?thesis
      by (simp add: methods_def)
  next
    case na: False
    then have ra: "ra = JNull" by simp
    have s1: "run_methods E (methods E url sc) JNull w
                = run_methods E [(''Direct API'', call (download_with_requests E url sc)),
                                 (''HTML Scraping'', call (download_with_instaloader_like E url sc))] JNull wa"
      unfolding methods_def using run_methods_no_result [where method_func = "call (download_with_ytdlp_enhanced E url sc)", OF ca [unfolded ra]] by simp
    show ?thesis
    proof (cases "rb \<noteq> JNull")
      case True
      then have "succeeded rb = Inr True" using sb by simp
      from run_methods_success [where method_func = "call (download_with_requests E url sc)", OF cb this] True a b ra s1 show ?thesis
        by simp
    next
      case nb: False
      then have rb: "rb = JNull" by simp
      have s2: "run_methods E [(''Direct API'', call (download_with_requests E url sc)),
                                 (''HTML Scraping'', call (download_with_instaloader_like E url sc))] JNull wa
                = run_methods E [(''HTML Scraping'', call (download_with_instaloader_like E url sc))] JNull wb"
        using run_methods_no_result [where method_func = "call (download_with_requests E url sc)", OF cb [unfolded rb]] by simp
      show ?thesis
      proof (cases "rc \<noteq> JNull")
        case True
        then have "succeeded rc = Inr True" using sc by simp
        from run_methods_success [where method_func = "call (download_with_instaloader_like E url sc)", OF cc this] True a b c ra rb s1 s2 show ?thesis
          by simp
      next
        case False
        then have rc: "rc = JNull" by simp
        have "run_methods E [(''HTML Scraping'', call (download_with_instaloader_like E url sc))] JNull wb
                = run_methods E [] JNull wc"
          using run_methods_no_result [where method_func = "call (download_with_instaloader_like E url sc)", OF cc [unfolded rc]] by simp
        with a b c ra rb rc s1 s2 show ?thesis by simp
      qed
    qed
  qed
qed

section \<open>C1: the order of the strategies\<close>

text \<open>
  Claim C1. For a request whose URL contains the domain and yields an identifier, the handler
  logs two records and runs the loop over the three methods, followed by the response. The
  loop calls the engine strategy first; it calls the endpoint strategy only if the engine
  strategy returned no result, in the world the engine strategy left; it calls the page
  strategy only if both returned no result. It stops at the first success. In particular,
  for any method at the head of any list: if its call returns a success result, the loop
  returns that result and the world of that call with one more log record, whatever the
  rest of the list is, so no later method is called.
\<close>

theorem strategies_in_order:
  "(py_get data ''url'' JNull = Inr (JStr url) \<and> is_substr ''instagram.com'' url
       \<and> extract_instagram_shortcode url = Some sc
      \<longrightarrow> download_try E (Inr data) w =
            pipeline E (methods E url sc)
              (logged INFO (''Extracted shortcode: '' @ sc)
                (logged INFO (''Processing download request for: '' @ url) w)))
 \<and> pipeline E ms w = (case run_methods E ms JNull w of (result, w') \<Rightarrow> respond E result w')
 \<and> run_methods E (methods E url sc) JNull w =
     (case download_with_ytdlp_enhanced E url sc (logged INFO ''Trying method: Enhanced yt-dlp'' w) of
        (ra, wa) \<Rightarrow>
          if ra \<noteq> JNull
          then (ra, logged INFO (success_mark @ '' Success with method: Enhanced yt-dlp'') wa)
          else (case download_with_requests E url sc (logged INFO ''Trying method: Direct API'' wa) of
                  (rb, wb) \<Rightarrow>
                    if rb \<noteq> JNull
                    then (rb, logged INFO (success_mark @ '' Success with method: Direct API'') wb)
                    else (case download_with_instaloader_like E url sc
                                 (logged INFO ''Trying method: HTML Scraping'' wb) of
                            (rc, wc) \<Rightarrow>
                              if rc \<noteq> JNull
                              then (rc, logged INFO (success_mark @ '' Success with method: HTML Scraping'') wc)
                              else (JNull, wc))))
 \<and> (method_func (logged INFO (''Trying method: '' @ method_name) w) = (Inr r, w')
       \<and> succeeded r = Inr True
      \<longrightarrow> run_methods E ((method_name, method_func) # rest) result w =
            (r, logged INFO (success_mark @ '' Success with method: '' @ method_name) w'))"
proof (intro conjI impI)
  assume "py_get data ''url'' JNull = Inr (JStr url) \<and> is_substr ''instagram.com'' url
       \<and> extract_instagram_shortcode url = Some sc"
  then show "download_try E (Inr data) w =
            pipeline E (methods E url sc)
              (logged INFO (''Extracted shortcode: '' @ sc)
                (logged INFO (''Processing download request for: '' @ url) w))"
    using download_try_valid by blast
next
  show "pipeline E ms w = (case run_methods E ms JNull w of (result, w') \<Rightarrow> respond E result w')"
    by (simp add: pipeline_def)
next
  show "run_methods E (methods E url sc) JNull w =
     (case download_with_ytdlp_enhanced E url sc (logged INFO ''Trying method: Enhanced yt-dlp'' w) of
        (ra, wa) \<Rightarrow>
          if ra \<noteq> JNull
          then (ra, logged INFO (success_mark @ '' Success with method: Enhanced yt-dlp'') wa)
          else (case download_with_requests E url sc (logged INFO ''Trying method: Direct API'' wa) of
                  (rb, wb) \<Rightarrow>
                    if rb \<noteq> JNull
                    then (rb, logged INFO (success_mark @ '' Success with method: Direct API'') wb)
                    else (case download_with_instaloader_like E url sc
                                 (logged INFO ''Trying method: HTML Scraping'' wb) of
                            (rc, wc) \<Rightarrow>
                              if rc \<noteq> JNull
                              then (rc, logged INFO (success_mark @ '' Success with method: HTML Scraping'') wc)
                              else (JNull, wc))))"
    by (rule run_methods_cascade)
next
  assume "method_func (logged INFO (''Trying method: '' @ method_name) w) = (Inr r, w')
       \<and> succeeded r = Inr True"
  then show "run_methods E ((method_name, method_func) # rest) result w =
            (r, logged INFO (success_mark @ '' Success with method: '' @ method_name) w')"
    using run_methods_success [of method_func method_name w r w' E rest result] by blast
qed

text \<open>
  In the sample environment the engine knows the reel: the loop returns its result, and no
  URL has been requested by the other two strategies.
\<close>

theorem strategies_in_order_witness:
  "download_try sample_env (Inr (JObj [(''url'', JStr ''https://instagram.com/reel/ABC123xyz/'')])) sample_world
     = pipeline sample_env (methods sample_env ''https://instagram.com/reel/ABC123xyz/'' ''ABC123xyz'')
         (logged INFO ''Extracted shortcode: ABC123xyz''
           (logged INFO ''Processing download request for: https://instagram.com/reel/ABC123xyz/''
              sample_world))
 \<and> run_methods sample_env (methods sample_env ''https://instagram.com/reel/ABC123xyz/'' ''ABC123xyz'') JNull
       sample_world
     = (JObj [(''success'', JBool True),
              (''filepath'', JStr ''/app/downloads/ABC123xyz.mp4''),
              (''filename'', JStr ''ABC123xyz.mp4''),
              (''title'', JStr ''A reel''),
              (''author'', JStr ''Unknown''),
              (''caption'', JStr ''No caption available''),
              (''thumbnail'', JStr []),
              (''method'', JStr ''ytdlp_enhanced'')],
        \<lparr>fs = [''/app/downloads/ABC123xyz.mp4'' \<mapsto> File ''video''],
         logs = [(INFO, ''Trying method: Enhanced yt-dlp''),
                 (INFO, ''Attempting enhanced yt-dlp method for ABC123xyz''),
                 (INFO, success_mark @ '' Success with method: Enhanced yt-dlp'')],
         ext = []\<rparr>)"
proof -
  let ?url = "''https://instagram.com/reel/ABC123xyz/''"
  let ?r = "JObj [(''success'', JBool True),
              (''filepath'', JStr ''/app/downloads/ABC123xyz.mp4''),
              (''filename'', JStr ''ABC123xyz.mp4''),
              (''title'', JStr ''A reel''),
              (''author'', JStr ''Unknown''),
              (''caption'', JStr ''No caption available''),
              (''thumbnail'', JStr []),
              (''method'', JStr ''ytdlp_enhanced'')]"
  let ?w' = "\<lparr>fs = [''/app/downloads/ABC123xyz.mp4'' \<mapsto> File ''video''],
         logs = [(INFO, ''Trying method: Enhanced yt-dlp''),
                 (INFO, ''Attempting enhanced yt-dlp method for ABC123xyz'')],
         ext = ([] :: json list)\<rparr>"
  have h1: "py_get (JObj [(''url'', JStr ?url)]) ''url'' JNull = Inr (JStr ?url)
       \<and> is_substr ''instagram.com'' ?url
       \<and> extract_instagram_shortcode ?url = Some ''ABC123xyz''"
    by (simp add: extract_eval)
  have h2: "call (download_with_ytdlp_enhanced sample_env ?url ''ABC123xyz'')
              (logged INFO (''Trying method: '' @ ''Enhanced yt-dlp'') sample_world) = (Inr ?r, ?w')
       \<and> succeeded ?r = Inr True"
    by (simp add: call_def logged_def strategy_a_defs io_defs sample_defs succeeded_JObj)
  note t = strategies_in_order
    [where E = sample_env and w = sample_world and url = ?url and sc = "''ABC123xyz''"
       and data = "JObj [(''url'', JStr ?url)]"
       and method_name = "''Enhanced yt-dlp''"
       and method_func = "call (download_with_ytdlp_enhanced sample_env ?url ''ABC123xyz'')"
       and r = ?r and w' = ?w' and result = JNull
       and rest = "[(''Direct API'', call (download_with_requests sample_env ?url ''ABC123xyz'')),
                    (''HTML Scraping'', call (download_with_instaloader_like sample_env ?url ''ABC123xyz''))]"]
  from t [THEN conjunct1, THEN mp, OF h1]
  have a: "download_try sample_env (Inr (JObj [(''url'', JStr ?url)])) sample_world
     = pipeline sample_env (methods sample_env ?url ''ABC123xyz'')
         (logged INFO ''Extracted shortcode: ABC123xyz''
           (logged INFO ''Processing download request for: https://instagram.com/reel/ABC123xyz/''
              sample_world))"
    by simp
  from t [THEN conjunct2, THEN conjunct2, THEN conjunct2, THEN mp, OF h2]
  have b: "run_methods sample_env (methods sample_env ?url ''ABC123xyz'') JNull sample_world
     = (?r, logged INFO (success_mark @ '' Success with method: Enhanced yt-dlp'') ?w')"
    by (simp add: methods_def)
  from a b show ?thesis by (simp add: logged_def)
qed

section \<open>C6: all strategies without a result\<close>

lemma run_methods_all_fail:
  assumes "\<forall>m \<in> set ms. \<forall>w. (\<exists>e. fst (snd m w) = Inl e) \<or> fst (snd m w) = Inr JNull"
  shows "fst (run_methods E ms JNull w) = JNull"
  using assms
proof (induction ms arbitrary: w)
  case Nil
  then show ?case by simp
next
  case (Cons m ms)
  obtain n f where m: "m = (n, f)" by (cases m)
  let ?w1 = "logged INFO (''Trying method: '' @ n) w"
  obtain r w' where f: "f ?w1 = (r, w')" by (cases "f ?w1")
  from Cons.prems m have "(\<exists>e. fst (f ?w1) = Inl e) \<or> fst (f ?w1) = Inr JNull" by auto
  with f have disj: "(\<exists>e. r = Inl e) \<or> r = Inr JNull" by simp
  have ih: "fst (run_methods E ms JNull w2) = JNull" for w2
    using Cons.IH Cons.prems by simp
  from disj show ?case
  proof
    assume "\<exists>e. r = Inl e"
    then obtain e where "r = Inl e" by blast
    with f have "f ?w1 = (Inl e, w')" by simp
    from run_methods_raise [where method_func = f, OF this] ih show ?thesis unfolding m by simp
  next
    assume "r = Inr JNull"
    with f have "f ?w1 = (Inr JNull, w')" by simp
    from run_methods_no_result [where method_func = f, OF this] ih show ?thesis unfolding m by simp
  qed
qed

lemma pipeline_all_fail:
  assumes "\<forall>m \<in> set ms. \<forall>w. (\<exists>e. fst (snd m w) = Inl e) \<or> fst (snd m w) = Inr JNull"
  shows "fst (pipeline E ms w) = Inr \<lparr>http_status = 400, content = failure_content\<rparr>"
proof -
  obtain r w' where rm: "run_methods E ms JNull w = (r, w')" by (cases "run_methods E ms JNull w")
  with run_methods_all_fail [OF assms, of E w] have "r = JNull" by simp
  with rm show ?thesis by (simp add: pipeline_def respond_None)
qed




section \<open>C2: exceptions of a strategy\<close>

lemma strategy_raise_absorbed:
  "ytdlp_try E url sc w = (Inl e, w1) \<Longrightarrow> fst (download_with_ytdlp_enhanced E url sc w) = JNull"
  "requests_try E url sc w = (Inl e, w1) \<Longrightarrow> fst (download_with_requests E url sc w) = JNull"
  "instaloader_try E url sc w = (Inl e, w1) \<Longrightarrow> fst (download_with_instaloader_like E url sc w) = JNull"
  by (simp_all add: download_with_ytdlp_enhanced_def download_with_requests_def
        download_with_instaloader_like_def split: exn.splits)

lemma all_raise_all_fail:
  assumes "\<forall>m \<in> set ms. \<forall>w. \<exists>e. fst (snd m w) = Inl e"
  shows "\<forall>m \<in> set ms. \<forall>w. (\<exists>e. fst (snd m w) = Inl e) \<or> fst (snd m w) = Inr JNull"
  using assms by blast

lemma run_methods_skip_then_success:
  assumes "\<forall>m \<in> set pre. \<forall>w. (\<exists>e. fst (snd m w) = Inl e) \<or> fst (snd m w) = Inr JNull"
    "\<forall>w. fst (next_func w) = Inr r" "succeeded r = Inr True"
  shows "fst (run_methods E (pre @ (next_name, next_func) # rest) result w) = r"
  using assms(1)
proof (induction pre arbitrary: result w)
  case Nil
  obtain w' where "next_func (logged INFO (''Trying method: '' @ next_name) w) = (Inr r, w')"
    using assms(2) [THEN spec, of "logged INFO (''Trying method: '' @ next_name) w"]
    by (cases "next_func (logged INFO (''Trying method: '' @ next_name) w)") simp
  from run_methods_success [where method_func = next_func, OF this assms(3)] show ?case by simp
next
  case (Cons m pre)
  obtain n f where m: "m = (n, f)" by (cases m)
  obtain x w1 where f: "f (logged INFO (''Trying method: '' @ n) w) = (x, w1)"
    by (cases "f (logged INFO (''Trying method: '' @ n) w)")
  from Cons.prems m have "(\<exists>e. fst (f (logged INFO (''Trying method: '' @ n) w)) = Inl e)
     \<or> fst (f (logged INFO (''Trying method: '' @ n) w)) = Inr JNull" by simp
  with f have d: "(\<exists>e. x = Inl e) \<or> x = Inr JNull" by simp
  from Cons.prems have p: "\<forall>m \<in> set pre. \<forall>w. (\<exists>e. fst (snd m w) = Inl e) \<or> fst (snd m w) = Inr JNull"
    by simp
  from d show ?case
  proof
    assume "\<exists>e. x = Inl e"
    then obtain e where "x = Inl e" ..
    with f have "f (logged INFO (''Trying method: '' @ n) w) = (Inl e, w1)" by simp
    from run_methods_raise [where method_func = f, OF this]
    show ?thesis unfolding m using Cons.IH [OF p] by simp
  next
    assume "x = Inr JNull"
    with f have "f (logged INFO (''Trying method: '' @ n) w) = (Inr JNull, w1)" by simp
    from run_methods_no_result [where method_func = f, OF this]
    show ?thesis unfolding m using Cons.IH [OF p] by simp
  qed
qed

lemma run_methods_raise_then_success:
  assumes "method_func (logged INFO (''Trying method: '' @ method_name) w) = (Inl e, w1)"
    "next_func (logged INFO (''Trying method: '' @ next_name)
                 (logged ERROR (''Method '' @ method_name @ '' failed: '' @ exn_str E e) w1)) = (Inr r, w2)"
    "succeeded r = Inr True"
  shows "run_methods E ((method_name, method_func) # (next_name, next_func) # rest) result w =
           (r, logged INFO (success_mark @ '' Success with method: '' @ next_name) w2)"
  unfolding run_methods_raise [where method_func = method_func, OF assms(1)]
  by (rule run_methods_success [where method_func = next_func, OF assms(2,3)])

lemma run_methods_none_then_success:
  assumes "method_func (logged INFO (''Trying method: '' @ method_name) w) = (Inr JNull, w1)"
    "next_func (logged INFO (''Trying method: '' @ next_name) w1) = (Inr r, w2)"
    "succeeded r = Inr True"
  shows "run_methods E ((method_name, method_func) # (next_name, next_func) # rest) result w =
           (r, logged INFO (success_mark @ '' Success with method: '' @ next_name) w2)"
  unfolding run_methods_no_result [where method_func = method_func, OF assms(1)]
  by (rule run_methods_success [where method_func = next_func, OF assms(2,3)])

lemma ytdlp_raise_then_requests:
  assumes "ytdlp_try E url sc (logged INFO ''Trying method: Enhanced yt-dlp'' w) = (Inl e, w1)"
    "download_with_requests E url sc
       (logged INFO ''Trying method: Direct API''
          (snd (download_with_ytdlp_enhanced E url sc (logged INFO ''Trying method: Enhanced yt-dlp'' w))))
       = (r, w2)"
    "succeeded r = Inr True"
  shows "run_methods E (methods E url sc) JNull w
           = (r, logged INFO (success_mark @ '' Success with method: Direct API'') w2)"
proof -
  have a: "fst (download_with_ytdlp_enhanced E url sc (logged INFO ''Trying method: Enhanced yt-dlp'' w)) = JNull"
    using assms(1) by (rule strategy_raise_absorbed(1))
  have ne: "r \<noteq> JNull" using assms(3) by (rule succeeded_not_None)
  show ?thesis
    unfolding run_methods_cascade using a assms(2) ne
    by (simp add: case_prod_unfold)
qed

text \<open>
  Claim C2. Whatever exception the \<open>try\<close> block of a strategy raises, the strategy returns no
  result. Should the call of a method raise all the same, the loop of the orchestrator logs
  the error and goes on with the rest of the list, with \<open>result\<close> as it was; a method that
  returns no result makes the loop go on with the rest of the list too, with \<open>result\<close> set
  to \<open>None\<close>. Even a list of methods that all raise ends in the response 400 with the failure
  dictionary: no exception of a method leaves the loop.

  The next method is called, and its success is what the loop returns: after a method that
  raised, the next one is called in the world the raising call left, with the error logged,
  and if it succeeds the loop returns its result and its world with the success record;
  likewise after a method that returned no result. After any number of methods that raise or
  return no result, a method that succeeds in every world gives the result of the loop. For
  the three strategies themselves: when the \<open>try\<close> block of the engine strategy raises and the
  endpoint strategy then succeeds, the loop returns the result of the endpoint strategy.
\<close>

theorem strategy_exceptions_absorbed:
  "(ytdlp_try E url sc w = (Inl e, w1) \<longrightarrow> fst (download_with_ytdlp_enhanced E url sc w) = JNull)
 \<and> (requests_try E url sc w = (Inl e, w1) \<longrightarrow> fst (download_with_requests E url sc w) = JNull)
 \<and> (instaloader_try E url sc w = (Inl e, w1)
      \<longrightarrow> fst (download_with_instaloader_like E url sc w) = JNull)
 \<and> (method_func (logged INFO (''Trying method: '' @ method_name) w) = (Inl e, w1)
      \<longrightarrow> run_methods E ((method_name, method_func) # rest) result w =
            run_methods E rest result
              (logged ERROR (''Method '' @ method_name @ '' failed: '' @ exn_str E e) w1))
 \<and> (method_func (logged INFO (''Trying method: '' @ method_name) w) = (Inr JNull, w1)
      \<longrightarrow> run_methods E ((method_name, method_func) # rest) result w = run_methods E rest JNull w1)
 \<and> ((\<forall>m \<in> set ms. \<forall>w. \<exists>e. fst (snd m w) = Inl e)
      \<longrightarrow> fst (pipeline E ms w) = Inr \<lparr>http_status = 400, content = failure_content\<rparr>)
 \<and> (method_func (logged INFO (''Trying method: '' @ method_name) w) = (Inl e, w1)
       \<and> next_func (logged INFO (''Trying method: '' @ next_name)
                      (logged ERROR (''Method '' @ method_name @ '' failed: '' @ exn_str E e) w1))
           = (Inr r, w2)
       \<and> succeeded r = Inr True
      \<longrightarrow> run_methods E ((method_name, method_func) # (next_name, next_func) # rest) result w =
            (r, logged INFO (success_mark @ '' Success with method: '' @ next_name) w2))
 \<and> (method_func (logged INFO (''Trying method: '' @ method_name) w) = (Inr JNull, w1)
       \<and> next_func (logged INFO (''Trying method: '' @ next_name) w1) = (Inr r, w2)
       \<and> succeeded r = Inr True
      \<longrightarrow> run_methods E ((method_name, method_func) # (next_name, next_func) # rest) result w =
            (r, logged INFO (success_mark @ '' Success with method: '' @ next_name) w2))
 \<and> ((\<forall>m \<in> set pre. \<forall>w. (\<exists>e. fst (snd m w) = Inl e) \<or> fst (snd m w) = Inr JNull)
       \<and> (\<forall>w. fst (next_func w) = Inr r) \<and> succeeded r = Inr True
      \<longrightarrow> fst (run_methods E (pre @ (next_name, next_func) # rest) result w) = r)
 \<and> (ytdlp_try E url sc (logged INFO ''Trying method: Enhanced yt-dlp'' w) = (Inl e, w1)
       \<and> download_with_requests E url sc
           (logged INFO ''Trying method: Direct API''
              (snd (download_with_ytdlp_enhanced E url sc
                      (logged INFO ''Trying method: Enhanced yt-dlp'' w))))
           = (r, w2)
       \<and> succeeded r = Inr True
      \<longrightarrow> run_methods E (methods E url sc) JNull w
            = (r, logged INFO (success_mark @ '' Success with method: Direct API'') w2))"
proof (intro conjI impI)
  assume "ytdlp_try E url sc w = (Inl e, w1)"
  then show "fst (download_with_ytdlp_enhanced E url sc w) = JNull"
    by (rule strategy_raise_absorbed(1))
next
  assume "requests_try E url sc w = (Inl e, w1)"
  then show "fst (download_with_requests E url sc w) = JNull"
    by (rule strategy_raise_absorbed(2))
next
  assume "instaloader_try E url sc w = (Inl e, w1)"
  then show "fst (download_with_instaloader_like E url sc w) = JNull"
    by (rule strategy_raise_absorbed(3))
next
  assume "method_func (logged INFO (''Trying method: '' @ method_name) w) = (Inl e, w1)"
  then show "run_methods E ((method_name, method_func) # rest) result w =
            run_methods E rest result
              (logged ERROR (''Method '' @ method_name @ '' failed: '' @ exn_str E e) w1)"
    by (rule run_methods_raise [where method_func = method_func])
next
  assume "method_func (logged INFO (''Trying method: '' @ method_name) w) = (Inr JNull, w1)"
  then show "run_methods E ((method_name, method_func) # rest) result w = run_methods E rest JNull w1"
    by (rule run_methods_no_result [where method_func = method_func])
next
  assume "\<forall>m \<in> set ms. \<forall>w. \<exists>e. fst (snd m w) = Inl e"
  then show "fst (pipeline E ms w) = Inr \<lparr>http_status = 400, content = failure_content\<rparr>"
    by (intro pipeline_all_fail all_raise_all_fail)
next
  assume h: "method_func (logged INFO (''Trying method: '' @ method_name) w) = (Inl e, w1)
       \<and> next_func (logged INFO (''Trying method: '' @ next_name)
                      (logged ERROR (''Method '' @ method_name @ '' failed: '' @ exn_str E e) w1))
           = (Inr r, w2)
       \<and> succeeded r = Inr True"
  show "run_methods E ((method_name, method_func) # (next_name, next_func) # rest) result w =
            (r, logged INFO (success_mark @ '' Success with method: '' @ next_name) w2)"
    by (rule run_methods_raise_then_success
          [where method_func = method_func and next_func = next_func,
           OF h [THEN conjunct1] h [THEN conjunct2, THEN conjunct1] h [THEN conjunct2, THEN conjunct2]])
next
  assume h: "method_func (logged INFO (''Trying method: '' @ method_name) w) = (Inr JNull, w1)
       \<and> next_func (logged INFO (''Trying method: '' @ next_name) w1) = (Inr r, w2)
       \<and> succeeded r = Inr True"
  show "run_methods E ((method_name, method_func) # (next_name, next_func) # rest) result w =
            (r, logged INFO (success_mark @ '' Success with method: '' @ next_name) w2)"
    by (rule run_methods_none_then_success
          [where method_func = method_func and next_func = next_func,
           OF h [THEN conjunct1] h [THEN conjunct2, THEN conjunct1] h [THEN conjunct2, THEN conjunct2]])
next
  assume h: "(\<forall>m \<in> set pre. \<forall>w. (\<exists>e. fst (snd m w) = Inl e) \<or> fst (snd m w) = Inr JNull)
       \<and> (\<forall>w. fst (next_func w) = Inr r) \<and> succeeded r = Inr True"
  show "fst (run_methods E (pre @ (next_name, next_func) # rest) result w) = r"
    by (rule run_methods_skip_then_success
          [where next_func = next_func,
           OF h [THEN conjunct1] h [THEN conjunct2, THEN conjunct1] h [THEN conjunct2, THEN conjunct2]])
next
  assume h: "ytdlp_try E url sc (logged INFO ''Trying method: Enhanced yt-dlp'' w) = (Inl e, w1)
       \<and> download_with_requests E url sc
           (logged INFO ''Trying method: Direct API''
              (snd (download_with_ytdlp_enhanced E url sc
                      (logged INFO ''Trying method: Enhanced yt-dlp'' w))))
           = (r, w2)
       \<and> succeeded r = Inr True"
  show "run_methods E (methods E url sc) JNull w
            = (r, logged INFO (success_mark @ '' Success with method: Direct API'') w2)"
    by (rule ytdlp_raise_then_requests
          [OF h [THEN conjunct1] h [THEN conjunct2, THEN conjunct1] h [THEN conjunct2, THEN conjunct2]])
qed

lemma sample_run_b_after_raise:
  "call (download_with_requests sample_env url ''XYZ_789'')
     (logged INFO (''Trying method: '' @ ''Direct API'')
        (logged ERROR (''Method '' @ ''Raising'' @ '' failed: '' @ exn_str sample_env KeyError)
           (logged INFO ''Trying method: Raising'' sample_world)))
    = (Inr (JObj [(''success'', JBool True),
                  (''filepath'', JStr ''/app/downloads/XYZ_789.mp4''),
                  (''filename'', JStr ''XYZ_789.mp4''),
                  (''title'', JStr ''Instagram Video - XYZ_789''),
                  (''author'', JStr ''Unknown''),
                  (''caption'', JStr ''No caption available''),
                  (''method'', JStr ''direct_api'')]),
       \<lparr>fs = [''/app/downloads/XYZ_789.mp4'' \<mapsto> File ''abcd''],
        logs = [(INFO, ''Trying method: Raising''),
                (ERROR, ''Method Raising failed: error''),
                (INFO, ''Trying method: Direct API''),
                (INFO, ''Attempting direct API method for XYZ_789''),
                (INFO, ''Successfully downloaded via direct API: XYZ_789.mp4'')],
        ext = [JStr ''https://www.instagram.com/p/XYZ_789/?__a=1&__d=dis'', JStr ''https://cdn/v'']\<rparr>)"
  by (simp add: call_def logged_def strategy_b_defs io_defs sample_defs)

lemma sample_try_a_blocked:
  "ytdlp_try sample_env ''https://instagram.com/p/XYZ_789/'' ''XYZ_789''
     (logged INFO ''Trying method: Enhanced yt-dlp'' sample_world)
    = (Inl (DownloadError ''blocked''),
       \<lparr>fs = Map.empty,
        logs = [(INFO, ''Trying method: Enhanced yt-dlp''),
                (INFO, ''Attempting enhanced yt-dlp method for XYZ_789'')],
        ext = []\<rparr>)"
  by (simp add: logged_def strategy_a_defs io_defs sample_defs)

lemma sample_run_a_blocked:
  "download_with_ytdlp_enhanced sample_env ''https://instagram.com/p/XYZ_789/'' ''XYZ_789''
     (logged INFO ''Trying method: Enhanced yt-dlp'' sample_world)
    = (JNull,
       \<lparr>fs = Map.empty,
        logs = [(INFO, ''Trying method: Enhanced yt-dlp''),
                (INFO, ''Attempting enhanced yt-dlp method for XYZ_789''),
                (WARNING, ''Enhanced yt-dlp method failed: blocked'')],
        ext = []\<rparr>)"
  by (simp add: download_with_ytdlp_enhanced_def sample_try_a_blocked sample_env_sel)

lemma sample_run_b_after_a:
  "download_with_requests sample_env ''https://instagram.com/p/XYZ_789/'' ''XYZ_789''
     (logged INFO ''Trying method: Direct API''
        (snd (download_with_ytdlp_enhanced sample_env ''https://instagram.com/p/XYZ_789/'' ''XYZ_789''
                (logged INFO ''Trying method: Enhanced yt-dlp'' sample_world))))
    = (JObj [(''success'', JBool True),
             (''filepath'', JStr ''/app/downloads/XYZ_789.mp4''),
             (''filename'', JStr ''XYZ_789.mp4''),
             (''title'', JStr ''Instagram Video - XYZ_789''),
             (''author'', JStr ''Unknown''),
             (''caption'', JStr ''No caption available''),
             (''method'', JStr ''direct_api'')],
       \<lparr>fs = [''/app/downloads/XYZ_789.mp4'' \<mapsto> File ''abcd''],
        logs = [(INFO, ''Trying method: Enhanced yt-dlp''),
                (INFO, ''Attempting enhanced yt-dlp method for XYZ_789''),
                (WARNING, ''Enhanced yt-dlp method failed: blocked''),
                (INFO, ''Trying method: Direct API''),
                (INFO, ''Attempting direct API method for XYZ_789''),
                (INFO, ''Successfully downloaded via direct API: XYZ_789.mp4'')],
        ext = [JStr ''https://www.instagram.com/p/XYZ_789/?__a=1&__d=dis'', JStr ''https://cdn/v'']\<rparr>)"
  unfolding sample_run_a_blocked
  by (simp add: logged_def strategy_b_defs io_defs sample_defs)

text \<open>
  In the sample environment the first endpoint of the post \<open>BAD\<close> makes the \<open>try\<close> block raise a
  \<open>TypeError\<close>, and the strategy returns no result. A method that raises is followed by the
  endpoint strategy, whose success dictionary the loop returns. For the post \<open>XYZ_789\<close> the
  engine raises a \<open>DownloadError\<close> and the loop over the three strategies returns the result
  of the endpoint strategy.
\<close>

theorem strategy_exceptions_absorbed_witness:
  "fst (download_with_requests sample_env ''https://instagram.com/p/BAD/'' ''BAD'' sample_world) = JNull
 \<and> run_methods sample_env
       [(''Raising'', \<lambda>w. (Inl KeyError, w)),
        (''Direct API'', call (download_with_requests sample_env ''https://instagram.com/p/XYZ_789/'' ''XYZ_789''))]
       JNull sample_world
     = (JObj [(''success'', JBool True),
              (''filepath'', JStr ''/app/downloads/XYZ_789.mp4''),
              (''filename'', JStr ''XYZ_789.mp4''),
              (''title'', JStr ''Instagram Video - XYZ_789''),
              (''author'', JStr ''Unknown''),
              (''caption'', JStr ''No caption available''),
              (''method'', JStr ''direct_api'')],
        \<lparr>fs = [''/app/downloads/XYZ_789.mp4'' \<mapsto> File ''abcd''],
         logs = [(INFO, ''Trying method: Raising''),
                 (ERROR, ''Method Raising failed: error''),
                 (INFO, ''Trying method: Direct API''),
                 (INFO, ''Attempting direct API method for XYZ_789''),
                 (INFO, ''Successfully downloaded via direct API: XYZ_789.mp4''),
                 (INFO, success_mark @ '' Success with method: Direct API'')],
         ext = [JStr ''https://www.instagram.com/p/XYZ_789/?__a=1&__d=dis'', JStr ''https://cdn/v'']\<rparr>)
 \<and> run_methods sample_env (methods sample_env ''https://instagram.com/p/XYZ_789/'' ''XYZ_789'') JNull
       sample_world
     = (JObj [(''success'', JBool True),
              (''filepath'', JStr ''/app/downloads/XYZ_789.mp4''),
              (''filename'', JStr ''XYZ_789.mp4''),
              (''title'', JStr ''Instagram Video - XYZ_789''),
              (''author'', JStr ''Unknown''),
              (''caption'', JStr ''No caption available''),
              (''method'', JStr ''direct_api'')],
        \<lparr>fs = [''/app/downloads/XYZ_789.mp4'' \<mapsto> File ''abcd''],
         logs = [(INFO, ''Trying method: Enhanced yt-dlp''),
                 (INFO, ''Attempting enhanced yt-dlp method for XYZ_789''),
                 (WARNING, ''Enhanced yt-dlp method failed: blocked''),
                 (INFO, ''Trying method: Direct API''),
                 (INFO, ''Attempting direct API method for XYZ_789''),
                 (INFO, ''Successfully downloaded via direct API: XYZ_789.mp4''),
                 (INFO, success_mark @ '' Success with method: Direct API'')],
         ext = [JStr ''https://www.instagram.com/p/XYZ_789/?__a=1&__d=dis'', JStr ''https://cdn/v'']\<rparr>)
 \<and> fst (run_methods sample_env
          ([(''Raising'', \<lambda>w. (Inl KeyError, w)), (''Nothing'', \<lambda>w. (Inr JNull, w))]
             @ (''Fixed'', \<lambda>w. (Inr (JObj [(''success'', JBool True)]), w)) # [])
          JNull sample_world)
     = JObj [(''success'', JBool True)]
 \<and> fst (pipeline sample_env [(''Raising'', \<lambda>w. (Inl KeyError, w)), (''Raising too'', \<lambda>w. (Inl TypeError, w))]
          sample_world)
     = Inr \<lparr>http_status = 400, content = failure_content\<rparr>"
proof -
  let ?f = "\<lambda>w :: json list world. (Inl KeyError :: exn + json, w)"
  let ?g = "\<lambda>w :: json list world. (Inl TypeError :: exn + json, w)"
  let ?n = "\<lambda>w :: json list world. (Inr JNull :: exn + json, w)"
  let ?ok = "JObj [(''success'', JBool True)]"
  let ?s = "\<lambda>w :: json list world. (Inr ?ok :: exn + json, w)"
  let ?url = "''https://instagram.com/p/XYZ_789/''"
  let ?b = "call (download_with_requests sample_env ?url ''XYZ_789'')"
  let ?r = "JObj [(''success'', JBool True),
              (''filepath'', JStr ''/app/downloads/XYZ_789.mp4''),
              (''filename'', JStr ''XYZ_789.mp4''),
              (''title'', JStr ''Instagram Video - XYZ_789''),
              (''author'', JStr ''Unknown''),
              (''caption'', JStr ''No caption available''),
              (''method'', JStr ''direct_api'')]"
  let ?w2 = "\<lparr>fs = [''/app/downloads/XYZ_789.mp4'' \<mapsto> File ''abcd''],
        logs = [(INFO, ''Trying method: Raising''),
                (ERROR, ''Method Raising failed: error''),
                (INFO, ''Trying method: Direct API''),
                (INFO, ''Attempting direct API method for XYZ_789''),
                (INFO, ''Successfully downloaded via direct API: XYZ_789.mp4'')],
        ext = [JStr ''https://www.instagram.com/p/XYZ_789/?__a=1&__d=dis'', JStr ''https://cdn/v'']\<rparr>"
  let ?w3 = "\<lparr>fs = [''/app/downloads/XYZ_789.mp4'' \<mapsto> File ''abcd''],
        logs = [(INFO, ''Trying method: Enhanced yt-dlp''),
                (INFO, ''Attempting enhanced yt-dlp method for XYZ_789''),
                (WARNING, ''Enhanced yt-dlp method failed: blocked''),
                (INFO, ''Trying method: Direct API''),
                (INFO, ''Attempting direct API method for XYZ_789''),
                (INFO, ''Successfully downloaded via direct API: XYZ_789.mp4'')],
        ext = [JStr ''https://www.instagram.com/p/XYZ_789/?__a=1&__d=dis'', JStr ''https://cdn/v'']\<rparr>"
  have h1: "requests_try sample_env ''https://instagram.com/p/BAD/'' ''BAD'' sample_world
             = (Inl TypeError,
                \<lparr>fs = Map.empty, logs = [(INFO, ''Attempting direct API method for BAD'')],
                 ext = [JStr ''https://www.instagram.com/p/BAD/?__a=1&__d=dis'']\<rparr>)"
    by (simp add: strategy_b_defs io_defs sample_defs)
  have h2: "?f (logged INFO (''Trying method: '' @ ''Raising'') sample_world)
               = (Inl KeyError, logged INFO ''Trying method: Raising'' sample_world)
          \<and> ?b (logged INFO (''Trying method: '' @ ''Direct API'')
                  (logged ERROR (''Method '' @ ''Raising'' @ '' failed: '' @ exn_str sample_env KeyError)
                     (logged INFO ''Trying method: Raising'' sample_world)))
               = (Inr ?r, ?w2)
          \<and> succeeded ?r = Inr True"
    using sample_run_b_after_raise [of "''https://instagram.com/p/XYZ_789/''"] by (simp add: succeeded_JObj)
  have h3: "\<forall>m \<in> set [(''Raising'', ?f), (''Raising too'', ?g)]. \<forall>w. \<exists>e. fst (snd m w) = Inl e"
    by simp
  have h4: "(\<forall>m \<in> set [(''Raising'', ?f), (''Nothing'', ?n)].
               \<forall>w. (\<exists>e. fst (snd m w) = Inl e) \<or> fst (snd m w) = Inr JNull)
          \<and> (\<forall>w. fst (?s w) = Inr ?ok) \<and> succeeded ?ok = Inr True"
    by (simp add: succeeded_JObj)
  have h5: "ytdlp_try sample_env ?url ''XYZ_789'' (logged INFO ''Trying method: Enhanced yt-dlp'' sample_world)
              = (Inl (DownloadError ''blocked''),
                 \<lparr>fs = Map.empty,
                  logs = [(INFO, ''Trying method: Enhanced yt-dlp''),
                          (INFO, ''Attempting enhanced yt-dlp method for XYZ_789'')],
                  ext = []\<rparr>)
          \<and> download_with_requests sample_env ?url ''XYZ_789''
              (logged INFO ''Trying method: Direct API''
                 (snd (download_with_ytdlp_enhanced sample_env ?url ''XYZ_789''
                         (logged INFO ''Trying method: Enhanced yt-dlp'' sample_world))))
              = (?r, ?w3)
          \<and> succeeded ?r = Inr True"
    by (simp only: sample_try_a_blocked sample_run_b_after_a succeeded_JObj simp_thms)
  note t = strategy_exceptions_absorbed [where E = sample_env and w = sample_world]
  note c = conjunct2
  from t [THEN c, THEN conjunct1, THEN mp, OF h1]
  have a: "fst (download_with_requests sample_env ''https://instagram.com/p/BAD/'' ''BAD'' sample_world) = JNull" .
  from t [where method_func = ?f and method_name = "''Raising''" and next_func = ?b
            and next_name = "''Direct API''" and rest = "[]" and result = JNull,
          THEN c, THEN c, THEN c, THEN c, THEN c, THEN c, THEN conjunct1, THEN mp, OF h2]
  have b: "run_methods sample_env [(''Raising'', ?f), (''Direct API'', ?b)] JNull sample_world
             = (?r, logged INFO (success_mark @ '' Success with method: Direct API'') ?w2)"
    by simp
  from t [THEN c, THEN c, THEN c, THEN c, THEN c, THEN c, THEN c, THEN c, THEN c, THEN mp, OF h5]
  have d: "run_methods sample_env (methods sample_env ?url ''XYZ_789'') JNull sample_world
             = (?r, logged INFO (success_mark @ '' Success with method: Direct API'') ?w3)" .
  from t [where pre = "[(''Raising'', ?f), (''Nothing'', ?n)]" and next_func = ?s
            and next_name = "''Fixed''" and rest = "[]" and result = JNull,
          THEN c, THEN c, THEN c, THEN c, THEN c, THEN c, THEN c, THEN c, THEN conjunct1, THEN mp, OF h4]
  have e: "fst (run_methods sample_env
                 ([(''Raising'', ?f), (''Nothing'', ?n)] @ (''Fixed'', ?s) # []) JNull sample_world) = ?ok" .
  from t [where ms = "[(''Raising'', ?f), (''Raising too'', ?g)]",
          THEN c, THEN c, THEN c, THEN c, THEN c, THEN conjunct1, THEN mp, OF h3]
  have f: "fst (pipeline sample_env [(''Raising'', ?f), (''Raising too'', ?g)] sample_world)
     = Inr \<lparr>http_status = 400, content = failure_content\<rparr>" .
  have l2: "logged INFO (success_mark @ '' Success with method: Direct API'') ?w2
     = \<lparr>fs = [''/app/downloads/XYZ_789.mp4'' \<mapsto> File ''abcd''],
         logs = [(INFO, ''Trying method: Raising''),
                 (ERROR, ''Method Raising failed: error''),
                 (INFO, ''Trying method: Direct API''),
                 (INFO, ''Attempting direct API method for XYZ_789''),
                 (INFO, ''Successfully downloaded via direct API: XYZ_789.mp4''),
                 (INFO, success_mark @ '' Success with method: Direct API'')],
         ext = [JStr ''https://www.instagram.com/p/XYZ_789/?__a=1&__d=dis'', JStr ''https://cdn/v'']\<rparr>"
    by (simp add: logged_def)
  have l3: "logged INFO (success_mark @ '' Success with method: Direct API'') ?w3
     = \<lparr>fs = [''/app/downloads/XYZ_789.mp4'' \<mapsto> File ''abcd''],
         logs = [(INFO, ''Trying method: Enhanced yt-dlp''),
                 (INFO, ''Attempting enhanced yt-dlp method for XYZ_789''),
                 (WARNING, ''Enhanced yt-dlp method failed: blocked''),
                 (INFO, ''Trying method: Direct API''),
                 (INFO, ''Attempting direct API method for XYZ_789''),
                 (INFO, ''Successfully downloaded via direct API: XYZ_789.mp4''),
                 (INFO, success_mark @ '' Success with method: Direct API'')],
         ext = [JStr ''https://www.instagram.com/p/XYZ_789/?__a=1&__d=dis'', JStr ''https://cdn/v'']\<rparr>"
    by (simp add: logged_def)
  from a b [unfolded l2] d [unfolded l3] e f show ?thesis by (intro conjI)
qed

section \<open>C7: validation before any strategy\<close>

lemma download_no_url:
  assumes "py_get data ''url'' JNull = Inr u" "\<not> py_truthy u"
  shows "download E (Inr data) w =
           (\<lparr>http_status = 400, content = JObj [(''error'', JStr ''No URL provided'')]\<rparr>, w)"
  using assms by (simp add: download_def download_try_def bind_def lift_def ret_def)

lemma download_wrong_domain:
  assumes "py_get data ''url'' JNull = Inr (JStr url)" "url \<noteq> []" "\<not> is_substr ''instagram.com'' url"
  shows "download E (Inr data) w =
           (\<lparr>http_status = 400, content = JObj [(''error'', JStr ''Invalid Instagram URL'')]\<rparr>, w)"
  using assms by (simp add: download_def download_try_def bind_def lift_def ret_def)

lemma download_no_identifier:
  assumes "py_get data ''url'' JNull = Inr (JStr url)" "is_substr ''instagram.com'' url"
    "extract_instagram_shortcode url = None"
  shows "download E (Inr data) w =
           (\<lparr>http_status = 400, content = JObj [(''error'', JStr ''Could not extract video ID from URL'')]\<rparr>,
            logged INFO (''Processing download request for: '' @ url) w)"
proof -
  have "url \<noteq> []" using assms(2) by (rule is_substr_nonempty)
  with assms show ?thesis
    by (simp add: download_def download_try_def bind_def lift_def ret_def logger_def logged_def py_str_def)
qed

text \<open>
  Claim C7. Let the body of the request be a dictionary. If its \<open>url\<close> is missing or otherwise
  falsy, or is a string without \<open>instagram.com\<close>, or is a string with the domain from which no
  identifier is extracted, the handler answers with status 400 and the message of that case.
  Nothing else has happened by then: the world is unchanged, but for one log record in the
  third case, so no strategy has been called.
\<close>

theorem validation_fails_fast:
  "(py_get data ''url'' JNull = Inr u \<and> \<not> py_truthy u
      \<longrightarrow> download E (Inr data) w =
            (\<lparr>http_status = 400, content = JObj [(''error'', JStr ''No URL provided'')]\<rparr>, w))
 \<and> (py_get data ''url'' JNull = Inr (JStr url) \<and> url \<noteq> [] \<and> \<not> is_substr ''instagram.com'' url
      \<longrightarrow> download E (Inr data) w =
            (\<lparr>http_status = 400, content = JObj [(''error'', JStr ''Invalid Instagram URL'')]\<rparr>, w))
 \<and> (py_get data ''url'' JNull = Inr (JStr url) \<and> is_substr ''instagram.com'' url
       \<and> extract_instagram_shortcode url = None
      \<longrightarrow> download E (Inr data) w =
            (\<lparr>http_status = 400,
              content = JObj [(''error'', JStr ''Could not extract video ID from URL'')]\<rparr>,
             logged INFO (''Processing download request for: '' @ url) w))"
  using download_no_url [of data u E w] download_wrong_domain [of data url E w]
    download_no_identifier [of data url E w]
  by blast

text \<open>A request without \<open>url\<close>, one for another domain, and one for a profile page.\<close>

theorem validation_fails_fast_witness:
  "download sample_env (Inr (JObj [(''other'', JStr ''x'')])) sample_world
     = (\<lparr>http_status = 400, content = JObj [(''error'', JStr ''No URL provided'')]\<rparr>, sample_world)
 \<and> download sample_env (Inr (JObj [(''url'', JStr ''https://example.com/p/ABC123/'')])) sample_world
     = (\<lparr>http_status = 400, content = JObj [(''error'', JStr ''Invalid Instagram URL'')]\<rparr>, sample_world)
 \<and> download sample_env (Inr (JObj [(''url'', JStr ''https://instagram.com/username/'')])) sample_world
     = (\<lparr>http_status = 400, content = JObj [(''error'', JStr ''Could not extract video ID from URL'')]\<rparr>,
        logged INFO ''Processing download request for: https://instagram.com/username/'' sample_world)"
proof -
  have h1: "py_get (JObj [(''other'', JStr ''x'')]) ''url'' JNull = Inr JNull \<and> \<not> py_truthy JNull"
    by simp
  have h2: "py_get (JObj [(''url'', JStr ''https://example.com/p/ABC123/'')]) ''url'' JNull
              = Inr (JStr ''https://example.com/p/ABC123/'')
          \<and> ''https://example.com/p/ABC123/'' \<noteq> []
          \<and> \<not> is_substr ''instagram.com'' ''https://example.com/p/ABC123/''"
    by simp
  have h3: "py_get (JObj [(''url'', JStr ''https://instagram.com/username/'')]) ''url'' JNull
              = Inr (JStr ''https://instagram.com/username/'')
          \<and> is_substr ''instagram.com'' ''https://instagram.com/username/''
          \<and> extract_instagram_shortcode ''https://instagram.com/username/'' = None"
    by (simp add: extract_eval)
  note t = validation_fails_fast [where E = sample_env and w = sample_world]
  from t [THEN conjunct1, THEN mp, OF h1]
       t [THEN conjunct2, THEN conjunct1, THEN mp, OF h2]
       t [THEN conjunct2, THEN conjunct2, THEN mp, OF h3]
  show ?thesis by simp
qed

section \<open>C9: a host that only contains the domain\<close>

text \<open>
  Claim C9. The URL \<open>https://notinstagram.com/p/ABC123\<close> contains \<open>instagram.com\<close>, the
  extractor returns \<open>ABC123\<close> for it, and the handler runs the loop over the three methods
  with that URL and identifier, beginning with the engine strategy.
\<close>

theorem foreign_host_accepted:
  "is_substr ''instagram.com'' ''https://notinstagram.com/p/ABC123''
 \<and> extract_instagram_shortcode ''https://notinstagram.com/p/ABC123'' = Some ''ABC123''
 \<and> download_try E (Inr (JObj [(''url'', JStr ''https://notinstagram.com/p/ABC123'')])) w
     = pipeline E (methods E ''https://notinstagram.com/p/ABC123'' ''ABC123'')
         (logged INFO ''Extracted shortcode: ABC123''
           (logged INFO ''Processing download request for: https://notinstagram.com/p/ABC123'' w))
 \<and> fst (run_methods E (methods E ''https://notinstagram.com/p/ABC123'' ''ABC123'') JNull w)
     = (if fst (download_with_ytdlp_enhanced E ''https://notinstagram.com/p/ABC123'' ''ABC123''
                  (logged INFO ''Trying method: Enhanced yt-dlp'' w)) \<noteq> JNull
        then fst (download_with_ytdlp_enhanced E ''https://notinstagram.com/p/ABC123'' ''ABC123''
                  (logged INFO ''Trying method: Enhanced yt-dlp'' w))
        else fst (run_methods E (tl (methods E ''https://notinstagram.com/p/ABC123'' ''ABC123'')) JNull
                    (snd (download_with_ytdlp_enhanced E ''https://notinstagram.com/p/ABC123'' ''ABC123''
                           (logged INFO ''Trying method: Enhanced yt-dlp'' w)))))"
proof -
  let ?url = "''https://notinstagram.com/p/ABC123''"
  have a: "is_substr ''instagram.com'' ?url" by simp
  have b: "extract_instagram_shortcode ?url = Some ''ABC123''" by (simp add: extract_eval)
  have c: "py_get (JObj [(''url'', JStr ?url)]) ''url'' JNull = Inr (JStr ?url)" by simp
  have d: "download_try E (Inr (JObj [(''url'', JStr ?url)])) w
     = pipeline E (methods E ?url ''ABC123'')
         (logged INFO ''Extracted shortcode: ABC123''
           (logged INFO ''Processing download request for: https://notinstagram.com/p/ABC123'' w))"
    using download_try_valid [OF c a b, of E w] by simp
  obtain ra wa where ra: "download_with_ytdlp_enhanced E ?url ''ABC123''
                  (logged INFO ''Trying method: Enhanced yt-dlp'' w) = (ra, wa)"
    by (cases "download_with_ytdlp_enhanced E ?url ''ABC123'' (logged INFO ''Trying method: Enhanced yt-dlp'' w)")
  have ca: "call (download_with_ytdlp_enhanced E ?url ''ABC123'')
              (logged INFO (''Trying method: '' @ ''Enhanced yt-dlp'') w) = (Inr ra, wa)"
    using ra by (simp add: call_def)
  have e: "fst (run_methods E (methods E ?url ''ABC123'') JNull w)
     = (if ra \<noteq> JNull then ra else fst (run_methods E (tl (methods E ?url ''ABC123'')) JNull wa))"
  proof (cases "ra = JNull")
    case True
    from run_methods_no_result [where method_func = "call (download_with_ytdlp_enhanced E ?url ''ABC123'')",
           OF ca [unfolded True]] True
    show ?thesis by (simp add: methods_def)
  next
    case False
    then have "succeeded ra = Inr True" using ytdlp_clean [OF ra] by simp
    from run_methods_success [where method_func = "call (download_with_ytdlp_enhanced E ?url ''ABC123'')",
           OF ca this] False
    show ?thesis by (simp add: methods_def)
  qed
  from a b d e ra show ?thesis by simp
qed

text \<open>
  In the sample environment the three strategies are tried for that request, and the
  endpoints and the page of \<open>www.instagram.com\<close> are requested for \<open>ABC123\<close>.
\<close>

theorem foreign_host_accepted_witness:
  "download_try sample_env (Inr (JObj [(''url'', JStr ''https://notinstagram.com/p/ABC123'')])) sample_world
     = (Inr \<lparr>http_status = 400, content = failure_content\<rparr>,
        \<lparr>fs = Map.empty,
         logs = [(INFO, ''Processing download request for: https://notinstagram.com/p/ABC123''),
                 (INFO, ''Extracted shortcode: ABC123''),
                 (INFO, ''Trying method: Enhanced yt-dlp''),
                 (INFO, ''Attempting enhanced yt-dlp method for ABC123''),
                 (WARNING, ''Enhanced yt-dlp method failed: blocked''),
                 (INFO, ''Trying method: Direct API''),
                 (INFO, ''Attempting direct API method for ABC123''),
                 (INFO, ''Trying method: HTML Scraping''),
                 (INFO, ''Attempting HTML scraping for ABC123'')],
         ext = [JStr ''https://www.instagram.com/p/ABC123/?__a=1&__d=dis'',
                JStr ''https://www.instagram.com/reel/ABC123/?__a=1&__d=dis'',
                JStr ''https://www.instagram.com/p/ABC123/'']\<rparr>)"
proof -
  have p: "pipeline sample_env (methods sample_env ''https://notinstagram.com/p/ABC123'' ''ABC123'')
         (logged INFO ''Extracted shortcode: ABC123''
           (logged INFO ''Processing download request for: https://notinstagram.com/p/ABC123'' sample_world))
     = (Inr \<lparr>http_status = 400, content = failure_content\<rparr>,
        \<lparr>fs = Map.empty,
         logs = [(INFO, ''Processing download request for: https://notinstagram.com/p/ABC123''),
                 (INFO, ''Extracted shortcode: ABC123''),
                 (INFO, ''Trying method: Enhanced yt-dlp''),
                 (INFO, ''Attempting enhanced yt-dlp method for ABC123''),
                 (WARNING, ''Enhanced yt-dlp method failed: blocked''),
                 (INFO, ''Trying method: Direct API''),
                 (INFO, ''Attempting direct API method for ABC123''),
                 (INFO, ''Trying method: HTML Scraping''),
                 (INFO, ''Attempting HTML scraping for ABC123'')],
         ext = [JStr ''https://www.instagram.com/p/ABC123/?__a=1&__d=dis'',
                JStr ''https://www.instagram.com/reel/ABC123/?__a=1&__d=dis'',
                JStr ''https://www.instagram.com/p/ABC123/'']\<rparr>)"
    by (simp add: pipeline_def methods_def respond_None succeeded_def logged_def
          strategy_a_defs strategy_b_defs strategy_c_defs io_defs sample_defs)
  from foreign_host_accepted [where E = sample_env and w = sample_world,
         THEN conjunct2, THEN conjunct2, THEN conjunct1]
  show ?thesis unfolding p .
qed

section \<open>C10: the original URL in strategies (b) and (c)\<close>

text \<open>
  Claim C10. The endpoint strategy and the page strategy do not depend on their URL
  argument: with the same identifier and the same world they return the same result and
  leave the same world, whatever the two URLs are. The endpoint URLs, the referer and the
  page URL are built from the identifier.
\<close>

theorem original_url_unused:
  "download_with_requests E url1 shortcode w = download_with_requests E url2 shortcode w
 \<and> download_with_instaloader_like E url1 shortcode w = download_with_instaloader_like E url2 shortcode w
 \<and> api_urls shortcode =
      [''https://www.instagram.com/p/'' @ shortcode @ ''/?__a=1&__d=dis'',
       ''https://www.instagram.com/reel/'' @ shortcode @ ''/?__a=1&__d=dis'']
 \<and> map_of (api_headers user_agent shortcode) ''Referer''
      = Some (''https://www.instagram.com/p/'' @ shortcode @ ''/'')
 \<and> post_url shortcode = ''https://www.instagram.com/p/'' @ shortcode @ ''/''"
  by (simp add: download_with_requests_def requests_try_def download_with_instaloader_like_def
        instaloader_try_def api_urls_def api_headers_def post_url_def)

section \<open>C8: a payload of an unexpected shape\<close>

text \<open>
  What the body of the endpoint loop does with an answer of status 200 in the cases the code
  provides for: a body that is not JSON, a dictionary with neither \<open>items\<close> nor \<open>graphql\<close>, a
  media dictionary with neither \<open>video_url\<close> nor \<open>video_versions\<close>. In each the loop goes on.
\<close>

lemma try_api_url_skips:
  assumes "http_get E (JStr api_url) headers False 30 w = (Inr response, w1)"
    "status_code response = 200"
  shows "json_result response = Inl JSONDecodeError
           \<Longrightarrow> try_api_url E shortcode headers api_url w
                 = (Inr Next, logged WARNING (''Failed to parse JSON from '' @ api_url) w1)"
    and "json_result response = Inr (JObj kvs) \<Longrightarrow> map_of kvs ''items'' = None
           \<Longrightarrow> map_of kvs ''graphql'' = None
           \<Longrightarrow> try_api_url E shortcode headers api_url w = (Inr Next, w1)"
    and "json_result response = Inr data \<Longrightarrow> resolve_media data = Inr (Some (JObj m))
           \<Longrightarrow> map_of m ''video_url'' = None \<Longrightarrow> map_of m ''video_versions'' = None
           \<Longrightarrow> try_api_url E shortcode headers api_url w = (Inr Next, w1)"
proof -
  show "json_result response = Inl JSONDecodeError
           \<Longrightarrow> try_api_url E shortcode headers api_url w
                 = (Inr Next, logged WARNING (''Failed to parse JSON from '' @ api_url) w1)"
    using assms
    by (simp add: try_api_url_def bind_def catch_json_decode_def lift_def logger_def ret_def logged_def)
  show "json_result response = Inr (JObj kvs) \<Longrightarrow> map_of kvs ''items'' = None
           \<Longrightarrow> map_of kvs ''graphql'' = None
           \<Longrightarrow> try_api_url E shortcode headers api_url w = (Inr Next, w1)"
    using assms
    by (simp add: try_api_url_def bind_def catch_json_decode_def lift_def ret_def resolve_media_def
          ebind_def map_of_eq_None_iff)
  show "json_result response = Inr data \<Longrightarrow> resolve_media data = Inr (Some (JObj m))
           \<Longrightarrow> map_of m ''video_url'' = None \<Longrightarrow> map_of m ''video_versions'' = None
           \<Longrightarrow> try_api_url E shortcode headers api_url w = (Inr Next, w1)"
    using assms
    by (simp add: try_api_url_def bind_def catch_json_decode_def lift_def ret_def find_video_url_def
          ebind_def map_of_eq_None_iff)
qed

text \<open>
  Claim C8 at an answer the code does not provide for. The first endpoint of the post \<open>BAD\<close>
  answers 200 with the dictionary \<open>{"items": null}\<close>, which has neither an \<open>items\<close> array nor
  a \<open>graphql\<close> wrapper. \<open>len(None)\<close> raises a \<open>TypeError\<close>, which the inner handler does not
  catch: the body of the loop raises, the strategy returns no result, and the second
  endpoint, which would have answered with a video, is never requested.
\<close>

theorem null_items_aborts_endpoint_loop:
  "fst (try_api_url sample_env ''BAD'' (api_headers (USER_AGENTS ! 0) ''BAD'')
          ''https://www.instagram.com/p/BAD/?__a=1&__d=dis'' sample_world) = Inl TypeError
 \<and> download_with_requests sample_env ''https://instagram.com/p/BAD/'' ''BAD'' sample_world
     = (JNull,
        \<lparr>fs = Map.empty,
         logs = [(INFO, ''Attempting direct API method for BAD''),
                 (ERROR, ''Direct API method failed: error'')],
         ext = [JStr ''https://www.instagram.com/p/BAD/?__a=1&__d=dis'']\<rparr>)
 \<and> json_result (sample_get (JStr ''https://www.instagram.com/p/BAD/?__a=1&__d=dis''))
     = Inr (JObj [(''items'', JNull)])
 \<and> json_result (sample_get (JStr ''https://www.instagram.com/reel/BAD/?__a=1&__d=dis''))
     = Inr (JObj [(''items'', JArr [JObj [(''video_versions'', JArr [JObj [(''url'', JStr ''https://cdn/v'')]])]])])"
  by (simp add: strategy_b_defs io_defs sample_defs)

end
